(* ===== verification/Prelude.thy ===== *)
theory Prelude
  imports Main "HOL-Library.Char_ord" "HOL-Library.List_Lexorder"
begin

text \<open>
  The vocabulary the components share: the exceptions the coordinator raises as values of one
  datatype, the result type of fallible code, and the state-and-error operations in which the
  stores are written.  An operation either raises, and then the transaction it runs in leaves no
  trace, or returns a value and the next state.  Text is \<^typ>\<open>string\<close> and a Python \<open>int\<close> is
  \<^typ>\<open>int\<close>.  The collection \<open>op_simps\<close> holds the equations that unfold a successful run of
  an operation into its steps.
\<close>

named_theorems op_simps \<open>a successful run unfolded into its steps\<close>

subsection \<open>Exceptions\<close>

text \<open>The exception classes of \<open>coordination/errors.py\<close>, \<open>errors.py\<close> and \<open>goal_attempts.py\<close> with their
  messages.  \<open>SqlAbort\<close> is a
  trigger's \<open>RAISE(ABORT, message)\<close>, \<open>SqlConstraint\<close> a refused CHECK, UNIQUE or FOREIGN KEY.\<close>

datatype error =
    IdentityConflict string
  | IntegrityViolationError string
  | StaleRevision string
  | StaleFence string
  | RecoveryBlocked string
  | ResponseClaimBlocked
  | PublicationUncertain string
  | ParticipantNotRegistered string
  | ValueError string
  | MalformedRecord string
  | RelationViolation string
  | RowMissing string
  | StorageUncertain string
  | ReservationConflict string
  | MissingGoalGeneration string
  | UnresolvedAttempt string
  | StaleAttempt string
  | GoalRefused string
  | SqlAbort string
  | SqlConstraint string

type_synonym 'a result = "error + 'a"

definition lower_hex :: "char \<Rightarrow> bool" where
  "lower_hex c \<longleftrightarrow> c \<in> set ''0123456789abcdef''"

definition require :: "bool \<Rightarrow> error \<Rightarrow> unit result" where
  "require holds refusal = (if holds then Inr () else Inl refusal)"

definition rbind :: "'a result \<Rightarrow> ('a \<Rightarrow> 'b result) \<Rightarrow> 'b result" where
  "rbind m f = (case m of Inl e \<Rightarrow> Inl e | Inr a \<Rightarrow> f a)"

primrec rforeach :: "'x list \<Rightarrow> ('x \<Rightarrow> unit result) \<Rightarrow> unit result" where
  "rforeach [] f = Inr ()"
| "rforeach (x # xs) f = rbind (f x) (\<lambda>_. rforeach xs f)"

primrec rmap :: "('x \<Rightarrow> 'y result) \<Rightarrow> 'x list \<Rightarrow> 'y list result" where
  "rmap f [] = Inr []"
| "rmap f (x # xs) = rbind (f x) (\<lambda>y. rbind (rmap f xs) (\<lambda>ys. Inr (y # ys)))"

definition succeeds :: "'a result \<Rightarrow> bool" where
  "succeeds m = (case m of Inl _ \<Rightarrow> False | Inr _ \<Rightarrow> True)"

lemma require_Inr [simp]: "require holds refusal = Inr u \<longleftrightarrow> holds"
  by (simp add: require_def)

lemma require_Inl [simp]: "require holds refusal = Inl e \<longleftrightarrow> \<not> holds \<and> e = refusal"
  by (auto simp: require_def)

lemma rbind_Inr [simp]: "rbind m f = Inr b \<longleftrightarrow> (\<exists>a. m = Inr a \<and> f a = Inr b)"
  by (simp add: rbind_def split: sum.splits)

lemma rbind_Inl: "rbind m f = Inl e \<longleftrightarrow> m = Inl e \<or> (\<exists>a. m = Inr a \<and> f a = Inl e)"
  by (auto simp: rbind_def split: sum.splits)

lemma rbind_Inr_eq [simp]: "rbind (Inr a) f = f a"
  by (simp add: rbind_def)

lemma rbind_Inl_eq [simp]: "rbind (Inl e) f = Inl e"
  by (simp add: rbind_def)

lemma rforeach_Inr [simp]: "rforeach xs f = Inr u \<longleftrightarrow> (\<forall>x \<in> set xs. f x = Inr ())"
  by (induction xs) auto

lemma rmap_Inr: "rmap f xs = Inr ys \<longleftrightarrow> list_all2 (\<lambda>x y. f x = Inr y) xs ys"
  by (induction xs arbitrary: ys) (auto simp: list_all2_Cons1)

lemma rmap_map: "(\<And>x. x \<in> set xs \<Longrightarrow> f x = Inr (g x)) \<Longrightarrow> rmap f xs = Inr (map g xs)"
  by (induction xs) auto

lemma succeeds_iff: "succeeds m \<longleftrightarrow> (\<exists>a. m = Inr a)"
  by (cases m) (simp_all add: succeeds_def)

lemma succeeds_unit: "succeeds m \<longleftrightarrow> m = Inr ()" for m :: "unit result"
  by (cases m) (simp_all add: succeeds_def)

subsection \<open>Operations on a state\<close>

type_synonym ('s, 'a) op = "'s \<Rightarrow> ('a \<times> 's) result"

definition oreturn :: "'a \<Rightarrow> ('s, 'a) op" where
  "oreturn a s = Inr (a, s)"

definition ofail :: "error \<Rightarrow> ('s, 'a) op" where
  "ofail e s = Inl e"

definition obind :: "('s, 'a) op \<Rightarrow> ('a \<Rightarrow> ('s, 'b) op) \<Rightarrow> ('s, 'b) op" where
  "obind m f s = (case m s of Inl e \<Rightarrow> Inl e | Inr (a, s1) \<Rightarrow> f a s1)"

definition othen :: "('s, 'a) op \<Rightarrow> ('s, 'b) op \<Rightarrow> ('s, 'b) op" where
  "othen m k = obind m (\<lambda>_. k)"

definition orequire :: "bool \<Rightarrow> error \<Rightarrow> ('s, unit) op" where
  "orequire holds refusal = (if holds then oreturn () else ofail refusal)"

definition olift :: "'a result \<Rightarrow> ('s, 'a) op" where
  "olift r s = (case r of Inl e \<Rightarrow> Inl e | Inr a \<Rightarrow> Inr (a, s))"

definition oread :: "('s \<Rightarrow> 'a) \<Rightarrow> ('s, 'a) op" where
  "oread f s = Inr (f s, s)"

definition ofetch :: "('s \<Rightarrow> 'a result) \<Rightarrow> ('s, 'a) op" where
  "ofetch f s = (case f s of Inl e \<Rightarrow> Inl e | Inr a \<Rightarrow> Inr (a, s))"

primrec oforeach :: "'x list \<Rightarrow> ('x \<Rightarrow> ('s, unit) op) \<Rightarrow> ('s, unit) op" where
  "oforeach [] f = oreturn ()"
| "oforeach (x # xs) f = obind (f x) (\<lambda>_. oforeach xs f)"

lemma oreturn_Inr [op_simps]: "oreturn a s = Inr (b, s') \<longleftrightarrow> b = a \<and> s' = s"
  by (auto simp: oreturn_def)

lemma ofail_Inr [op_simps]: "ofail e s = Inr r \<longleftrightarrow> False"
  by (simp add: ofail_def)

lemma obind_Inr [op_simps]:
  "obind m f s = Inr r \<longleftrightarrow> (\<exists>a s1. m s = Inr (a, s1) \<and> f a s1 = Inr r)"
  by (auto simp: obind_def split: sum.splits)

lemma othen_Inr [op_simps]:
  "othen m k s = Inr r \<longleftrightarrow> (\<exists>a s1. m s = Inr (a, s1) \<and> k s1 = Inr r)"
  by (simp add: othen_def obind_Inr)

lemma orequire_Inr [op_simps]:
  "orequire holds refusal s = Inr (u, s') \<longleftrightarrow> holds \<and> s' = s"
  by (auto simp: orequire_def oreturn_def ofail_def)

lemma olift_Inr [op_simps]: "olift r s = Inr (a, s') \<longleftrightarrow> r = Inr a \<and> s' = s"
  by (auto simp: olift_def split: sum.splits)

lemma oread_Inr [op_simps]: "oread f s = Inr (a, s') \<longleftrightarrow> a = f s \<and> s' = s"
  by (auto simp: oread_def)

lemma ofetch_Inr [op_simps]: "ofetch f s = Inr (a, s') \<longleftrightarrow> f s = Inr a \<and> s' = s"
  by (auto simp: ofetch_def split: sum.splits)

lemma oforeach_Nil_Inr [op_simps]: "oforeach [] f s = Inr (u, s') \<longleftrightarrow> s' = s"
  by (auto simp: oreturn_def)

lemma oforeach_Cons_Inr [op_simps]:
  "oforeach (x # xs) f s = Inr r \<longleftrightarrow> (\<exists>u s1. f x s = Inr (u, s1) \<and> oforeach xs f s1 = Inr r)"
  by (simp add: obind_Inr)

text \<open>The equations that evaluate an operation forwards, used to compute the refusal it ends in.\<close>

lemmas op_eval = obind_def othen_def oreturn_def ofail_def orequire_def olift_def oread_def
  ofetch_def

subsection \<open>What a run keeps\<close>

text \<open>
  The contract of every operation is a relation between the state before and the state after a
  successful run.  A reflexive and transitive relation composes along the operation's steps, so it
  is enough to show it for the single statements.
\<close>

text \<open>\<open>triple view R P m Q\<close>: from a state whose view satisfies \<open>P\<close> a successful run of \<open>m\<close> ends in one
  whose view is related by \<open>R\<close> to the first and satisfies \<open>Q\<close> with the returned value.\<close>

definition triple ::
  "('s \<Rightarrow> 'd) \<Rightarrow> ('d \<Rightarrow> 'd \<Rightarrow> bool) \<Rightarrow> ('d \<Rightarrow> bool) \<Rightarrow> ('s, 'a) op \<Rightarrow> ('a \<Rightarrow> 'd \<Rightarrow> bool) \<Rightarrow> bool" where
  "triple view R P m Q \<longleftrightarrow>
     (\<forall>s a s'. P (view s) \<longrightarrow> m s = Inr (a, s') \<longrightarrow> R (view s) (view s') \<and> Q a (view s'))"

abbreviation within :: "('s \<Rightarrow> 'd) \<Rightarrow> ('d \<Rightarrow> 'd \<Rightarrow> bool) \<Rightarrow> ('s, 'a) op \<Rightarrow> bool" where
  "within view R m \<equiv> triple view R (\<lambda>_. True) m (\<lambda>_ _. True)"

locale run_contract =
  fixes view :: "'s \<Rightarrow> 'd" and R :: "'d \<Rightarrow> 'd \<Rightarrow> bool"
  assumes refl: "R d d"
    and trans: "R d1 d2 \<Longrightarrow> R d2 d3 \<Longrightarrow> R d1 d3"
begin

lemma triple_return: "triple view R P (oreturn a) (\<lambda>b d. P d \<and> b = a)"
  by (simp add: triple_def op_simps refl)

lemma triple_fail: "triple view R P (ofail e) Q"
  by (simp add: triple_def op_simps)

lemma triple_require: "triple view R P (orequire b e) (\<lambda>_ d. P d \<and> b)"
  by (simp add: triple_def op_simps refl)

lemma triple_lift: "triple view R P (olift r) (\<lambda>a d. P d \<and> r = Inr a)"
  by (simp add: triple_def op_simps refl)

lemma triple_fetch: "triple view R P (ofetch (\<lambda>s. f (view s))) (\<lambda>a d. P d \<and> f d = Inr a)"
  by (simp add: triple_def op_simps refl)

lemma triple_bind:
  "triple view R P m Q \<Longrightarrow> (\<And>a. triple view R (Q a) (f a) Q') \<Longrightarrow> triple view R P (obind m f) Q'"
  unfolding triple_def obind_Inr by (meson trans)

lemma triple_then:
  "triple view R P m Q \<Longrightarrow> (\<And>a. triple view R (Q a) k Q') \<Longrightarrow> triple view R P (othen m k) Q'"
  unfolding othen_def by (rule triple_bind)

lemma triple_foreach:
  "(\<And>x. x \<in> set xs \<Longrightarrow> triple view R I (f x) (\<lambda>_. I)) \<Longrightarrow> triple view R I (oforeach xs f) (\<lambda>_. I)"
proof (induction xs)
  case Nil
  then show ?case by (simp add: triple_def op_simps refl)
next
  case (Cons x xs)
  then show ?case by (auto intro: triple_bind)
qed

lemma triple_conseq:
  "triple view R P m Q \<Longrightarrow> (\<And>d. P' d \<Longrightarrow> P d) \<Longrightarrow> (\<And>a d. Q a d \<Longrightarrow> Q' a d) \<Longrightarrow> triple view R P' m Q'"
  unfolding triple_def by blast

lemma triple_pre: "triple view R P m Q \<Longrightarrow> (\<And>d. P' d \<Longrightarrow> P d) \<Longrightarrow> triple view R P' m Q"
  unfolding triple_def by blast

lemma triple_post: "triple view R P m Q \<Longrightarrow> (\<And>a d. Q a d \<Longrightarrow> Q' a d) \<Longrightarrow> triple view R P m Q'"
  unfolding triple_def by blast

lemma triple_if:
  "(b \<Longrightarrow> triple view R P m Q) \<Longrightarrow> (\<not> b \<Longrightarrow> triple view R P k Q) \<Longrightarrow> triple view R P (if b then m else k) Q"
  by simp

lemma triple_option:
  "(v = None \<Longrightarrow> triple view R P m Q) \<Longrightarrow> (\<And>x. v = Some x \<Longrightarrow> triple view R P (k x) Q) \<Longrightarrow>
   triple view R P (case v of None \<Rightarrow> m | Some x \<Rightarrow> k x) Q"
  by (cases v) simp_all

text \<open>Where no condition on the state is needed the relation alone is composed.\<close>

lemma within_run: "within view R m \<Longrightarrow> m s = Inr (a, s') \<Longrightarrow> R (view s) (view s')"
  by (simp add: triple_def)

lemma within_triple: "triple view R (\<lambda>_. True) m Q \<Longrightarrow> within view R m"
  by (simp add: triple_def)

lemma within_return: "within view R (oreturn a)"
  by (simp add: triple_def op_simps refl)

lemma within_require: "within view R (orequire b e)"
  by (simp add: triple_def op_simps refl)

lemma within_lift: "within view R (olift r)"
  by (simp add: triple_def op_simps refl)

lemma within_fetch: "within view R (ofetch f)"
  by (simp add: triple_def op_simps refl)

lemma within_bind: "within view R m \<Longrightarrow> (\<And>a. within view R (f a)) \<Longrightarrow> within view R (obind m f)"
  by (rule triple_bind)

lemma within_then: "within view R m \<Longrightarrow> within view R k \<Longrightarrow> within view R (othen m k)"
  by (rule triple_then)

lemma within_foreach: "(\<And>x. x \<in> set xs \<Longrightarrow> within view R (f x)) \<Longrightarrow> within view R (oforeach xs f)"
  by (rule triple_foreach)

lemmas within_intros = within_return triple_fail within_require within_lift within_fetch
  within_bind within_then within_foreach triple_if triple_option

end

subsection \<open>Lists of rows\<close>

lemma find_Some_in: "find P xs = Some x \<Longrightarrow> x \<in> set xs \<and> P x"
  by (auto simp: find_Some_iff)

lemma find_append: "find P (xs @ ys) = (case find P xs of Some x \<Rightarrow> Some x | None \<Rightarrow> find P ys)"
  by (induction xs) auto

lemma find_unique:
  assumes "x \<in> set xs" "P x" and unique: "\<And>y. y \<in> set xs \<Longrightarrow> P y \<Longrightarrow> y = x"
  shows "find P xs = Some x"
proof (cases "find P xs")
  case None
  with assms(1,2) show ?thesis by (simp add: find_None_iff)
next
  case (Some y)
  then have "y = x" using find_Some_in unique by metis
  with Some show ?thesis by simp
qed

lemma distinct_keys_nth:
  "distinct (map f xs) \<Longrightarrow> i < length xs \<Longrightarrow> j < length xs \<Longrightarrow> i \<noteq> j \<Longrightarrow> f (xs ! i) \<noteq> f (xs ! j)"
  by (metis distinct_conv_nth length_map nth_map)

lemma filter_shrinks:
  "(\<And>x. P x \<Longrightarrow> Q x) \<Longrightarrow> y \<in> set xs \<Longrightarrow> Q y \<Longrightarrow> \<not> P y \<Longrightarrow> length (filter P xs) < length (filter Q xs)"
proof (induction xs)
  case (Cons x xs)
  have "length (filter P xs) \<le> length (filter Q xs)" using Cons.prems(1) by (induction xs) (auto simp: le_SucI)
  with Cons show ?case by auto
qed simp

lemma filter_key_single:
  "distinct (map f xs) \<Longrightarrow> x \<in> set xs \<Longrightarrow> filter (\<lambda>y. f y = f x) xs = [x]"
proof (induction xs)
  case (Cons a xs)
  show ?case
  proof (cases "a = x")
    case True
    with Cons.prems have "filter (\<lambda>y. f y = f x) xs = []" by (force simp: filter_empty_conv image_iff)
    with True show ?thesis by simp
  next
    case False
    with Cons.prems have "x \<in> set xs" "f a \<noteq> f x" by auto
    with Cons show ?thesis by simp
  qed
qed simp

lemma set_list_update_iff:
  assumes "i < length xs"
  shows "y \<in> set (xs[i := x]) \<longleftrightarrow> y = x \<or> (\<exists>j < length xs. j \<noteq> i \<and> y = xs ! j)"
proof
  assume "y \<in> set (xs[i := x])"
  then obtain j where j: "j < length xs" "y = xs[i := x] ! j"
    by (auto simp: in_set_conv_nth)
  then show "y = x \<or> (\<exists>j < length xs. j \<noteq> i \<and> y = xs ! j)"
    by (cases "j = i") auto
next
  assume "y = x \<or> (\<exists>j < length xs. j \<noteq> i \<and> y = xs ! j)"
  then show "y \<in> set (xs[i := x])"
  proof
    assume "y = x"
    with assms show ?thesis by (simp add: set_update_memI)
  next
    assume "\<exists>j < length xs. j \<noteq> i \<and> y = xs ! j"
    then obtain j where "j < length xs" "j \<noteq> i" "y = xs ! j" by blast
    then have "xs[i := x] ! j = y" "j < length (xs[i := x])" by simp_all
    then show ?thesis by (metis nth_mem)
  qed
qed

lemma filter_update_neither:
  assumes "i < length xs" "\<not> P (xs ! i)" "\<not> P x"
  shows "filter P (xs[i := x]) = filter P xs"
  using assms
proof (induction xs arbitrary: i)
  case (Cons a xs)
  then show ?case by (cases i) simp_all
qed simp

lemma map_update_same: "f x = f (xs ! i) \<Longrightarrow> map f (xs[i := x]) = map f xs"
  by (cases "i < length xs") (simp_all add: map_update list_update_same_conv list_update_beyond)

lemma map_filter_update_same:
  assumes "i < length xs" "P x = P (xs ! i)" "f x = f (xs ! i)"
  shows "map f (filter P (xs[i := x])) = map f (filter P xs)"
  using assms
proof (induction xs arbitrary: i)
  case (Cons a xs)
  then show ?case by (cases i) simp_all
qed simp

end
