(* ===== verification/Lifecycle_Family.thy ===== *)
theory Lifecycle_Family
  imports Prelude
begin

text \<open>
  \<open>lifecycle_capability.py\<close> and \<open>lifecycle.py\<close>: the capability classes a lifecycle state may derive
  from, and the algorithms every lifecycle family shares.  A family is its declared members, the
  classes each member names as successors, and the subclass test between a member and a named
  class.  The locale \<open>lifecycle\<close> states what a well-declared family is and proves once what its
  transition table gives the triggers generated from it; the four families of the coordinator
  interpret it.
\<close>

subsection \<open>Capabilities\<close>

datatype capability =
  Settled | Terminal | Failed | Pending | Active | Executing | Unresolved | Deferred | Complete
  | Successful

text \<open>The bases each capability class derives from, itself included.\<close>

fun capability_bases :: "capability \<Rightarrow> capability list" where
  "capability_bases Terminal = [Terminal, Settled]"
| "capability_bases Complete = [Complete, Settled]"
| "capability_bases Successful = [Successful, Terminal, Settled]"
| "capability_bases c = [c]"

definition has_capability :: "('k \<Rightarrow> capability list) \<Rightarrow> 'k \<Rightarrow> capability \<Rightarrow> bool" where
  "has_capability declared k c \<longleftrightarrow> (\<exists>d \<in> set (declared k). c \<in> set (capability_bases d))"

definition require_capability ::
  "('k \<Rightarrow> capability list) \<Rightarrow> 'k \<Rightarrow> capability \<Rightarrow> error \<Rightarrow> unit result" where
  "require_capability declared k c refusal = require (has_capability declared k c) refusal"

definition items_with :: "('k \<Rightarrow> capability list) \<Rightarrow> 'k \<Rightarrow> capability \<Rightarrow> 'x list \<Rightarrow> 'x list" where
  "items_with declared k c items = (if has_capability declared k c then items else [])"

subsection \<open>Transition algorithms\<close>

definition may_become :: "('k \<Rightarrow> 'c list) \<Rightarrow> ('k \<Rightarrow> 'c \<Rightarrow> bool) \<Rightarrow> 'k \<Rightarrow> 'k \<Rightarrow> bool" where
  "may_become successors is_sub k k' \<longleftrightarrow> (\<exists>c \<in> set (successors k). is_sub k' c)"

definition members_with :: "'k list \<Rightarrow> ('k \<Rightarrow> 'c \<Rightarrow> bool) \<Rightarrow> 'c \<Rightarrow> 'k list" where
  "members_with members is_sub c = filter (\<lambda>k. is_sub k c) members"

definition transition_table ::
  "'k list \<Rightarrow> ('k \<Rightarrow> 'c list) \<Rightarrow> ('k \<Rightarrow> 'c \<Rightarrow> bool) \<Rightarrow> ('k \<times> 'k list) list" where
  "transition_table members successors is_sub =
     map (\<lambda>k. (k, concat (map (members_with members is_sub) (successors k)))) members"

definition table_edge :: "('k \<times> 'k list) list \<Rightarrow> 'k \<Rightarrow> 'k \<Rightarrow> bool" where
  "table_edge table k k' \<longleftrightarrow> (\<exists>(source, targets) \<in> set table. source = k \<and> k' \<in> set targets)"

definition table_closed :: "('k \<times> 'k list) list \<Rightarrow> 'k \<Rightarrow> bool" where
  "table_closed table k \<longleftrightarrow> (\<exists>(source, targets) \<in> set table. source = k \<and> targets = [])"

locale lifecycle =
  fixes members :: "'k list"
    and successors :: "'k \<Rightarrow> 'c list"
    and is_sub :: "'k \<Rightarrow> 'c \<Rightarrow> bool"
    and declared :: "'k \<Rightarrow> capability list"
  assumes all_members: "k \<in> set members"
    and distinct_members: "distinct members"
    and successors_inhabited: "c \<in> set (successors k) \<Longrightarrow> \<exists>k'. is_sub k' c"
    and terminal_iff: "has_capability declared k Terminal \<longleftrightarrow> successors k = []"
begin

lemma table_edge_iff:
  "table_edge (transition_table members successors is_sub) k k' \<longleftrightarrow> may_become successors is_sub k k'"
  using all_members
  by (auto simp: table_edge_def transition_table_def may_become_def members_with_def)

lemma table_closed_iff:
  "table_closed (transition_table members successors is_sub) k \<longleftrightarrow> has_capability declared k Terminal"
proof -
  have "table_closed (transition_table members successors is_sub) k \<longleftrightarrow>
      concat (map (members_with members is_sub) (successors k)) = []"
    using all_members by (auto simp: table_closed_def transition_table_def)
  also have "\<dots> \<longleftrightarrow> successors k = []"
    using successors_inhabited all_members
    by (auto simp: members_with_def filter_empty_conv) (metis list.set_intros(1) neq_Nil_conv)
  finally show ?thesis by (simp add: terminal_iff)
qed

lemma terminal_no_edge: "has_capability declared k Terminal \<Longrightarrow> \<not> may_become successors is_sub k k'"
  by (simp add: terminal_iff may_become_def)

lemma terminal_absorbing:
  assumes "(may_become successors is_sub)\<^sup>*\<^sup>* k k'" "has_capability declared k Terminal"
  shows "k' = k"
  using assms by (induction rule: converse_rtranclp_induct) (auto dest: terminal_no_edge)

end

end
