(* ===== verification/Wake_Policy.thy ===== *)
theory Wake_Policy
  imports Lifecycle_Family
begin

text \<open>
  \<open>wake_policy.py\<close>: how a message may wake a recipient, the engagement a policy grants, and the
  recipient decision that is frozen with a delivered message, with its wire encoding.
\<close>

datatype message_audience = DIRECT | MENTIONED | COLLECTIVE

datatype no_wake_reason = UNMENTIONED_OBSERVER

datatype wake_policy = PassiveWake | BoundedTriageWake | FullWake

definition wake_members :: "wake_policy list" where
  "wake_members = [PassiveWake, BoundedTriageWake, FullWake]"

fun wake_capabilities :: "wake_policy \<Rightarrow> capability list" where
  "wake_capabilities PassiveWake = []"
| "wake_capabilities BoundedTriageWake = [Active]"
| "wake_capabilities FullWake = [Active]"

definition active_policy :: "wake_policy \<Rightarrow> bool" where
  "active_policy policy \<longleftrightarrow> has_capability wake_capabilities policy Active"

definition policy_triage :: "wake_policy \<Rightarrow> bool" where
  "policy_triage policy \<longleftrightarrow> policy = BoundedTriageWake"

lemma active_policy_iff [simp]: "active_policy policy \<longleftrightarrow> policy \<noteq> PassiveWake"
  by (cases policy) (simp_all add: active_policy_def has_capability_def)

subsection \<open>Engagements\<close>

datatype engagement_kind = FullEngagement | BoundedTriageEngagement

record engagement =
  eng_kind :: engagement_kind
  eng_execution_id :: string
  eng_exact_target :: string

definition engagement_valid :: "engagement \<Rightarrow> bool" where
  "engagement_valid e \<longleftrightarrow> eng_execution_id e \<noteq> [] \<and> eng_exact_target e \<noteq> []"

fun engagement_type :: "wake_policy \<Rightarrow> engagement_kind result" where
  "engagement_type PassiveWake = Inl (IntegrityViolationError ''passive claim cannot engage'')"
| "engagement_type BoundedTriageWake = Inr BoundedTriageEngagement"
| "engagement_type FullWake = Inr FullEngagement"

text \<open>The ids are \<open>str | None\<close> at the callers; \<open>None\<close> and the empty text fail the same test.\<close>

definition text_or_empty :: "string option \<Rightarrow> string" where
  "text_or_empty t = (case t of None \<Rightarrow> [] | Some x \<Rightarrow> x)"

definition engage :: "wake_policy \<Rightarrow> string option \<Rightarrow> string option \<Rightarrow> engagement result" where
  "engage policy execution_id target =
     rbind (engagement_type policy) (\<lambda>kind.
       let e = \<lparr>eng_kind = kind, eng_execution_id = text_or_empty execution_id,
                eng_exact_target = text_or_empty target\<rparr>
       in if engagement_valid e then Inr e
          else Inl (IntegrityViolationError ''engaged claim requires execution and exact target''))"

text \<open>The mode of an engagement is the first active policy whose engagement type is its class.\<close>

definition engagement_mode :: "engagement \<Rightarrow> wake_policy option" where
  "engagement_mode e =
     find (\<lambda>policy. active_policy policy \<and> engagement_type policy = Inr (eng_kind e)) wake_members"

fun engagement_verdict :: "engagement_kind \<Rightarrow> string option" where
  "engagement_verdict FullEngagement = None"
| "engagement_verdict BoundedTriageEngagement = Some ''engage''"

lemma engage_Inr [simp]:
  "engage policy x t = Inr e \<longleftrightarrow>
     engagement_type policy = Inr (eng_kind e) \<and> eng_execution_id e \<noteq> [] \<and> eng_exact_target e \<noteq> [] \<and>
     x = Some (eng_execution_id e) \<and> t = Some (eng_exact_target e)"
  by (cases policy; cases x; cases t; cases e)
     (auto simp: engage_def engagement_valid_def text_or_empty_def Let_def)

lemma engagement_mode_total: "\<exists>policy. engagement_mode e = Some policy \<and> active_policy policy"
  by (cases "eng_kind e") (simp_all add: engagement_mode_def wake_members_def)

lemma engagement_mode_of_type:
  "engagement_type policy = Inr (eng_kind e) \<Longrightarrow> engagement_mode e = Some policy"
  by (cases policy; cases "eng_kind e") (simp_all add: engagement_mode_def wake_members_def)

subsection \<open>Recipient decisions\<close>

datatype recipient_decision =
    NoWakeDecision string no_wake_reason
  | WakeDecision string message_audience wake_policy

fun decision_recipient :: "recipient_decision \<Rightarrow> string" where
  "decision_recipient (NoWakeDecision r _) = r"
| "decision_recipient (WakeDecision r _ _) = r"

fun decision_wake_policy :: "recipient_decision \<Rightarrow> wake_policy" where
  "decision_wake_policy (NoWakeDecision _ _) = PassiveWake"
| "decision_wake_policy (WakeDecision _ _ mode) = mode"

fun claim_decisions :: "recipient_decision \<Rightarrow> recipient_decision list" where
  "claim_decisions (NoWakeDecision _ _) = []"
| "claim_decisions (WakeDecision r a m) = [WakeDecision r a m]"

fun candidate_wake_mode :: "recipient_decision \<Rightarrow> wake_policy option" where
  "candidate_wake_mode (NoWakeDecision _ _) = None"
| "candidate_wake_mode (WakeDecision _ _ m) = Some m"

definition policy_recipient_decision :: "wake_policy \<Rightarrow> string \<Rightarrow> message_audience \<Rightarrow> recipient_decision" where
  "policy_recipient_decision policy recipient audience = WakeDecision recipient audience policy"

fun audience_value :: "message_audience \<Rightarrow> string" where
  "audience_value DIRECT = ''direct''"
| "audience_value MENTIONED = ''mentioned''"
| "audience_value COLLECTIVE = ''collective''"

definition audience_of :: "string \<Rightarrow> message_audience option" where
  "audience_of t = find (\<lambda>a. audience_value a = t) [DIRECT, MENTIONED, COLLECTIVE]"

definition reason_value :: "no_wake_reason \<Rightarrow> string" where
  "reason_value r = ''unmentioned_observer''"

definition reason_of :: "string \<Rightarrow> no_wake_reason option" where
  "reason_of t = find (\<lambda>r. reason_value r = t) [UNMENTIONED_OBSERVER]"

fun wake_name :: "wake_policy \<Rightarrow> string" where
  "wake_name PassiveWake = ''passive''"
| "wake_name BoundedTriageWake = ''bounded_triage''"
| "wake_name FullWake = ''full''"

definition wake_named :: "string \<Rightarrow> wake_policy option" where
  "wake_named t = find (\<lambda>p. wake_name p = t) wake_members"

type_synonym wire_row = "(string \<times> string) list"

fun decision_to_wire :: "recipient_decision \<Rightarrow> wire_row" where
  "decision_to_wire (NoWakeDecision r reason) =
     [(''recipient_lookup'', r), (''no_wake'', reason_value reason)]"
| "decision_to_wire (WakeDecision r a m) =
     [(''recipient_lookup'', r), (''audience'', audience_value a), (''wake_mode'', wake_name m)]"

text \<open>\<open>FieldCodec.decode(ThreadLookup, ...)\<close>: a lookup is spelled with 32 lowercase hex digits.\<close>

definition thread_lookup :: "string \<Rightarrow> bool" where
  "thread_lookup t \<longleftrightarrow> length t = 32 \<and> list_all lower_hex t"

definition decode_lookup :: "string \<Rightarrow> string result" where
  "decode_lookup t =
     rbind (require (thread_lookup t) (MalformedRecord ''Id128Text is spelled [0-9a-f]{32}'')) (\<lambda>_. Inr t)"

text \<open>The two member decoders: a missing key is the incomplete-row error, a lookup not spelled as one is
  malformed, an undeclared value the enum's or the family's refusal.\<close>

definition no_wake_from_wire :: "wire_row \<Rightarrow> recipient_decision result" where
  "no_wake_from_wire row =
     (case (map_of row ''recipient_lookup'', map_of row ''no_wake'') of
        (Some lookup, Some reason) \<Rightarrow>
          rbind (decode_lookup lookup) (\<lambda>recipient.
          case reason_of reason of
            Some r \<Rightarrow> Inr (NoWakeDecision recipient r)
          | None \<Rightarrow> Inl (ValueError reason))
      | _ \<Rightarrow> Inl (IntegrityViolationError ''A no-wake decision row is incomplete.''))"

definition wake_from_wire :: "wire_row \<Rightarrow> recipient_decision result" where
  "wake_from_wire row =
     (case (map_of row ''recipient_lookup'', map_of row ''audience'', map_of row ''wake_mode'') of
        (Some lookup, Some audience, Some mode) \<Rightarrow>
          rbind (decode_lookup lookup) (\<lambda>recipient.
          case (audience_of audience, wake_named mode) of
            (Some a, Some m) \<Rightarrow> Inr (WakeDecision recipient a m)
          | (None, _) \<Rightarrow> Inl (ValueError audience)
          | (_, None) \<Rightarrow> Inl (ValueError mode))
      | _ \<Rightarrow> Inl (IntegrityViolationError ''A wake decision row is incomplete.''))"

fun decision_marker :: "recipient_decision \<Rightarrow> string" where
  "decision_marker (NoWakeDecision _ _) = ''no_wake''"
| "decision_marker (WakeDecision _ _ _) = ''wake_mode''"

text \<open>The family picks the one member whose marker key the row carries; the one-element unpacking
  raises when none or both are there.\<close>

definition decision_from_wire :: "wire_row \<Rightarrow> recipient_decision result" where
  "decision_from_wire row =
     (case (map_of row ''no_wake'', map_of row ''wake_mode'') of
        (Some _, None) \<Rightarrow> no_wake_from_wire row
      | (None, Some _) \<Rightarrow> wake_from_wire row
      | (Some _, Some _) \<Rightarrow> Inl (ValueError ''too many values to unpack'')
      | (None, None) \<Rightarrow> Inl (ValueError ''not enough values to unpack''))"

lemma audience_of_value [simp]: "audience_of (audience_value a) = Some a"
  by (cases a) (simp_all add: audience_of_def)

lemma reason_of_value [simp]: "reason_of (reason_value r) = Some r"
  by (cases r) (simp add: reason_of_def reason_value_def)

lemma wake_named_name [simp]: "wake_named (wake_name p) = Some p"
  by (cases p) (simp_all add: wake_named_def wake_members_def)

lemma decoded_values:
  "audience_of t = Some a \<longleftrightarrow> t = audience_value a"
  "reason_of t = Some r \<longleftrightarrow> t = reason_value r"
  "wake_named t = Some p \<longleftrightarrow> t = wake_name p"
proof -
  have "t = audience_value a" if "audience_of t = Some a"
    using that unfolding audience_of_def by (drule_tac find_Some_in) (elim conjE, erule sym)
  moreover have "t = reason_value r" if "reason_of t = Some r"
    using that unfolding reason_of_def by (drule_tac find_Some_in) (elim conjE, erule sym)
  moreover have "t = wake_name p" if "wake_named t = Some p"
    using that unfolding wake_named_def by (drule_tac find_Some_in) (elim conjE, erule sym)
  ultimately show "audience_of t = Some a \<longleftrightarrow> t = audience_value a"
    "reason_of t = Some r \<longleftrightarrow> t = reason_value r" "wake_named t = Some p \<longleftrightarrow> t = wake_name p"
    using audience_of_value reason_of_value wake_named_name by blast+
qed

lemma value_inject [simp]:
  "audience_value a = audience_value b \<longleftrightarrow> a = b" "reason_value r = reason_value q \<longleftrightarrow> r = q"
  "wake_name p = wake_name n \<longleftrightarrow> p = n"
  by (metis audience_of_value reason_of_value wake_named_name option.inject)+

lemma decode_lookup_Inr [simp]: "decode_lookup t = Inr u \<longleftrightarrow> thread_lookup t \<and> u = t"
  by (auto simp: decode_lookup_def)

text \<open>A row is read as a decision exactly when the decision's recipient is spelled as a lookup, the row
  has the entries the decision is written with, and it carries no other decision's marker.  Other
  keys do not matter.\<close>

lemma no_wake_from_wire_Inr:
  "no_wake_from_wire row = Inr d \<longleftrightarrow>
     (\<exists>t r. d = NoWakeDecision t r \<and> thread_lookup t \<and> map_of row ''recipient_lookup'' = Some t \<and>
        map_of row ''no_wake'' = Some (reason_value r))"
  by (auto simp: no_wake_from_wire_def decoded_values split: option.splits)

lemma wake_from_wire_Inr:
  "wake_from_wire row = Inr d \<longleftrightarrow>
     (\<exists>t a m. d = WakeDecision t a m \<and> thread_lookup t \<and> map_of row ''recipient_lookup'' = Some t \<and>
        map_of row ''audience'' = Some (audience_value a) \<and> map_of row ''wake_mode'' = Some (wake_name m))"
  by (auto simp: wake_from_wire_def decoded_values split: option.splits)

lemma decision_entries:
  "map_of (decision_to_wire (NoWakeDecision t r)) \<subseteq>\<^sub>m f \<longleftrightarrow>
     f ''recipient_lookup'' = Some t \<and> f ''no_wake'' = Some (reason_value r)"
  "map_of (decision_to_wire (WakeDecision t a m)) \<subseteq>\<^sub>m f \<longleftrightarrow>
     f ''recipient_lookup'' = Some t \<and> f ''audience'' = Some (audience_value a) \<and> f ''wake_mode'' = Some (wake_name m)"
  by (auto simp: map_le_def)

lemma only_key: "x \<noteq> y \<Longrightarrow> {k \<in> {x, y}. f k \<noteq> None} = {x} \<longleftrightarrow> f x \<noteq> None \<and> f y = None"
  by auto

lemma one_marker:
  "{k \<in> {''no_wake'', ''wake_mode''}. f k \<noteq> None} = {''no_wake''} \<longleftrightarrow> f ''no_wake'' \<noteq> None \<and> f ''wake_mode'' = None"
  "{k \<in> {''no_wake'', ''wake_mode''}. f k \<noteq> None} = {''wake_mode''} \<longleftrightarrow> f ''wake_mode'' \<noteq> None \<and> f ''no_wake'' = None"
  by (rule only_key, simp) (subst insert_commute, rule only_key, simp)

lemma decision_from_wire_Inr:
  "decision_from_wire row = Inr d \<longleftrightarrow>
     thread_lookup (decision_recipient d) \<and> map_of (decision_to_wire d) \<subseteq>\<^sub>m map_of row \<and>
     {k \<in> {''no_wake'', ''wake_mode''}. map_of row k \<noteq> None} = {decision_marker d}"
proof (cases d)
  case (NoWakeDecision t r)
  show ?thesis
    unfolding NoWakeDecision decision_recipient.simps decision_marker.simps decision_entries one_marker
    by (auto simp: decision_from_wire_def no_wake_from_wire_Inr wake_from_wire_Inr split: option.splits)
next
  case (WakeDecision t a m)
  show ?thesis
    unfolding WakeDecision decision_recipient.simps decision_marker.simps decision_entries one_marker
    by (auto simp: decision_from_wire_def no_wake_from_wire_Inr wake_from_wire_Inr split: option.splits)
qed

lemma decision_wire_roundtrip:
  "decision_from_wire (decision_to_wire d) = rbind (decode_lookup (decision_recipient d)) (\<lambda>_. Inr d)"
  by (cases d) (auto simp: decision_from_wire_def no_wake_from_wire_def wake_from_wire_def rbind_def
      decode_lookup_def require_def)

end
