(* ===== verification/Assignment_States.thy ===== *)
theory Assignment_States
  imports Wake_Policy
begin

text \<open>
  \<open>assignment_states.py\<close>: the lifecycle of one wake assignment.  Before engagement an assignment
  carries only its policy; once it is bound it carries the engagement, which names the execution
  and the reply target.  The lemmas show what a built state projects to (mode, verdict, binding),
  that the decision taken before engagement keeps the frozen policy, and that a state survives
  its own load.
\<close>

subsection \<open>States\<close>

datatype assignment_kind =
    PassiveAssignment | TriagePendingAssignment | FullPendingAssignment | IgnoredAssignment
  | EngagedAssignment | CompletedAssignment | DeferredAssignment | DeliveredAssignment
  | FailedAssignment

datatype decision = PendingDecision wake_policy | BoundDecision engagement

datatype assignment_state =
    PassiveA | TriagePendingA | FullPendingA | IgnoredA
  | EngagedA engagement | CompletedA engagement
  | DeferredA decision | DeliveredA wake_policy | FailedA decision

fun assignment_kind_of :: "assignment_state \<Rightarrow> assignment_kind" where
  "assignment_kind_of PassiveA = PassiveAssignment"
| "assignment_kind_of TriagePendingA = TriagePendingAssignment"
| "assignment_kind_of FullPendingA = FullPendingAssignment"
| "assignment_kind_of IgnoredA = IgnoredAssignment"
| "assignment_kind_of (EngagedA _) = EngagedAssignment"
| "assignment_kind_of (CompletedA _) = CompletedAssignment"
| "assignment_kind_of (DeferredA _) = DeferredAssignment"
| "assignment_kind_of (DeliveredA _) = DeliveredAssignment"
| "assignment_kind_of (FailedA _) = FailedAssignment"

definition assignment_members :: "assignment_kind list" where
  "assignment_members = [PassiveAssignment, TriagePendingAssignment, FullPendingAssignment,
     IgnoredAssignment, EngagedAssignment, CompletedAssignment, DeferredAssignment,
     DeliveredAssignment, FailedAssignment]"

fun assignment_successors :: "assignment_kind \<Rightarrow> assignment_kind list" where
  "assignment_successors TriagePendingAssignment =
     [IgnoredAssignment, EngagedAssignment, DeferredAssignment, FailedAssignment]"
| "assignment_successors FullPendingAssignment =
     [EngagedAssignment, DeferredAssignment, FailedAssignment]"
| "assignment_successors EngagedAssignment =
     [CompletedAssignment, DeferredAssignment, FailedAssignment]"
| "assignment_successors DeferredAssignment =
     [TriagePendingAssignment, FullPendingAssignment, EngagedAssignment, DeliveredAssignment,
      FailedAssignment]"
| "assignment_successors _ = []"

fun assignment_capabilities :: "assignment_kind \<Rightarrow> capability list" where
  "assignment_capabilities PassiveAssignment = [Terminal]"
| "assignment_capabilities TriagePendingAssignment = [Pending]"
| "assignment_capabilities FullPendingAssignment = [Pending]"
| "assignment_capabilities IgnoredAssignment = [Terminal]"
| "assignment_capabilities EngagedAssignment = []"
| "assignment_capabilities CompletedAssignment = [Complete, Terminal]"
| "assignment_capabilities DeferredAssignment = [Deferred]"
| "assignment_capabilities DeliveredAssignment = [Terminal]"
| "assignment_capabilities FailedAssignment = [Failed, Terminal]"

interpretation assignments: lifecycle assignment_members assignment_successors "(=)"
  assignment_capabilities
proof
  show "k \<in> set assignment_members" for k
    by (cases k) (simp_all add: assignment_members_def)
  show "distinct assignment_members"
    by (simp add: assignment_members_def)
  show "has_capability assignment_capabilities k Terminal \<longleftrightarrow> assignment_successors k = []" for k
    by (cases k) (simp_all add: has_capability_def)
qed auto

text \<open>What the constructors admit: a pending decision needs an active policy, an engagement both
  of its ids.\<close>

fun decision_valid :: "decision \<Rightarrow> bool" where
  "decision_valid (PendingDecision mode) = active_policy mode"
| "decision_valid (BoundDecision e) = engagement_valid e"

fun assignment_valid :: "assignment_state \<Rightarrow> bool" where
  "assignment_valid (EngagedA e) = engagement_valid e"
| "assignment_valid (CompletedA e) = engagement_valid e"
| "assignment_valid (DeferredA d) = decision_valid d"
| "assignment_valid (DeliveredA mode) = active_policy mode"
| "assignment_valid (FailedA d) = decision_valid d"
| "assignment_valid _ = True"

subsection \<open>Projections\<close>

definition bound_mode :: "engagement \<Rightarrow> wake_policy" where
  "bound_mode e = (case engagement_mode e of Some p \<Rightarrow> p | None \<Rightarrow> PassiveWake)"

fun decision_mode :: "decision \<Rightarrow> wake_policy" where
  "decision_mode (PendingDecision mode) = mode"
| "decision_mode (BoundDecision e) = bound_mode e"

fun decision_verdict :: "decision \<Rightarrow> string option" where
  "decision_verdict (PendingDecision _) = None"
| "decision_verdict (BoundDecision e) = engagement_verdict (eng_kind e)"

fun decision_binding :: "decision \<Rightarrow> engagement option" where
  "decision_binding (PendingDecision _) = None"
| "decision_binding (BoundDecision e) = Some e"

fun assignment_mode :: "assignment_state \<Rightarrow> wake_policy" where
  "assignment_mode PassiveA = PassiveWake"
| "assignment_mode TriagePendingA = BoundedTriageWake"
| "assignment_mode FullPendingA = FullWake"
| "assignment_mode IgnoredA = BoundedTriageWake"
| "assignment_mode (EngagedA e) = bound_mode e"
| "assignment_mode (CompletedA e) = bound_mode e"
| "assignment_mode (DeferredA d) = decision_mode d"
| "assignment_mode (DeliveredA mode) = mode"
| "assignment_mode (FailedA d) = decision_mode d"

fun assignment_verdict :: "assignment_state \<Rightarrow> string option" where
  "assignment_verdict IgnoredA = Some ''ignore''"
| "assignment_verdict (EngagedA e) = engagement_verdict (eng_kind e)"
| "assignment_verdict (CompletedA e) = engagement_verdict (eng_kind e)"
| "assignment_verdict (DeferredA d) = decision_verdict d"
| "assignment_verdict (FailedA d) = decision_verdict d"
| "assignment_verdict _ = None"

text \<open>The engagement a state is bound to; its \<open>execution_id\<close> and \<open>exact_target\<close> are the
  columns of the stored row.\<close>

fun assignment_binding :: "assignment_state \<Rightarrow> engagement option" where
  "assignment_binding (EngagedA e) = Some e"
| "assignment_binding (CompletedA e) = Some e"
| "assignment_binding (DeferredA d) = decision_binding d"
| "assignment_binding (FailedA d) = decision_binding d"
| "assignment_binding _ = None"

definition assignment_execution_id :: "assignment_state \<Rightarrow> string option" where
  "assignment_execution_id st = map_option eng_execution_id (assignment_binding st)"

definition assignment_exact_target :: "assignment_state \<Rightarrow> string option" where
  "assignment_exact_target st = map_option eng_exact_target (assignment_binding st)"

lemma binding_pairs: "assignment_execution_id st = None \<longleftrightarrow> assignment_exact_target st = None"
  by (simp add: assignment_execution_id_def assignment_exact_target_def)

subsection \<open>Building and loading a state\<close>

definition pending_decision :: "wake_policy \<Rightarrow> decision result" where
  "pending_decision mode =
     (if active_policy mode then Inr (PendingDecision mode)
      else Inl (IntegrityViolationError ''passive decision cannot be deferred or failed''))"

text \<open>\<open>InterruptedAssignment.build\<close>: unbound without an execution, engaged with one.\<close>

definition interrupted_decision ::
  "wake_policy \<Rightarrow> string option \<Rightarrow> string option \<Rightarrow> decision result" where
  "interrupted_decision mode execution_id target =
     (if execution_id = None then pending_decision mode
      else rbind (engage mode execution_id target) (\<lambda>e. Inr (BoundDecision e)))"

fun build ::
  "assignment_kind \<Rightarrow> wake_policy \<Rightarrow> string option \<Rightarrow> string option \<Rightarrow> assignment_state result" where
  "build PassiveAssignment mode x t = Inr PassiveA"
| "build TriagePendingAssignment mode x t = Inr TriagePendingA"
| "build FullPendingAssignment mode x t = Inr FullPendingA"
| "build IgnoredAssignment mode x t = Inr IgnoredA"
| "build EngagedAssignment mode x t = rbind (engage mode x t) (\<lambda>e. Inr (EngagedA e))"
| "build CompletedAssignment mode x t = rbind (engage mode x t) (\<lambda>e. Inr (CompletedA e))"
| "build DeferredAssignment mode x t = rbind (interrupted_decision mode x t) (\<lambda>d. Inr (DeferredA d))"
| "build DeliveredAssignment mode x t = rbind (pending_decision mode) (\<lambda>_. Inr (DeliveredA mode))"
| "build FailedAssignment mode x t = rbind (interrupted_decision mode x t) (\<lambda>d. Inr (FailedA d))"

definition load_assignment ::
  "assignment_kind \<Rightarrow> wake_policy \<Rightarrow> string option \<Rightarrow> string option \<Rightarrow> string option \<Rightarrow>
   assignment_state result" where
  "load_assignment kind mode verdict execution_id target =
     rbind (build kind mode execution_id target) (\<lambda>st.
       if assignment_mode st \<noteq> mode \<or> assignment_verdict st \<noteq> verdict \<or>
          assignment_execution_id st \<noteq> execution_id
       then Inl (IntegrityViolationError ''claim decision relation is inconsistent'')
       else if assignment_exact_target st \<noteq> target
       then Inl (IntegrityViolationError ''claim decision target is inconsistent'')
       else Inr st)"

text \<open>Only \<open>PreengagementTarget\<close> classes build a state before engagement.\<close>

fun preengagement_target :: "assignment_kind \<Rightarrow> bool" where
  "preengagement_target TriagePendingAssignment = True"
| "preengagement_target FullPendingAssignment = True"
| "preengagement_target IgnoredAssignment = True"
| "preengagement_target DeferredAssignment = True"
| "preengagement_target DeliveredAssignment = True"
| "preengagement_target FailedAssignment = True"
| "preengagement_target _ = False"

definition build_preengagement :: "assignment_kind \<Rightarrow> wake_policy \<Rightarrow> assignment_state result" where
  "build_preengagement kind mode =
     (if preengagement_target kind then build kind mode None None
      else Inl (IdentityConflict ''preengagement transition is not declared''))"

definition preengagement :: "assignment_state \<Rightarrow> assignment_kind \<Rightarrow> assignment_state result" where
  "preengagement st disposition =
     (if assignment_execution_id st \<noteq> None \<or>
         disposition \<notin> set (assignment_successors (assignment_kind_of st))
      then Inl (IdentityConflict ''preengagement transition is not declared'')
      else rbind (build_preengagement disposition (assignment_mode st)) (\<lambda>after.
        if assignment_mode after \<noteq> assignment_mode st
        then Inl (IdentityConflict ''preengagement cannot change frozen wake policy'')
        else Inr after))"

subsection \<open>What each state answers\<close>

fun harness_handoff :: "assignment_state \<Rightarrow> assignment_kind list" where
  "harness_handoff TriagePendingA = [DeferredAssignment]"
| "harness_handoff FullPendingA = [DeferredAssignment]"
| "harness_handoff _ = []"

fun harness_delivery :: "assignment_state \<Rightarrow> assignment_kind list" where
  "harness_delivery TriagePendingA = [DeferredAssignment, DeliveredAssignment]"
| "harness_delivery FullPendingA = [DeferredAssignment, DeliveredAssignment]"
| "harness_delivery (DeferredA _) = [DeliveredAssignment]"
| "harness_delivery _ = []"

primrec apply_preengagements :: "assignment_kind list \<Rightarrow> assignment_state \<Rightarrow> assignment_state result" where
  "apply_preengagements [] st = Inr st"
| "apply_preengagements (k # ks) st = rbind (preengagement st k) (apply_preengagements ks)"

fun require_engageable :: "assignment_state \<Rightarrow> unit result" where
  "require_engageable TriagePendingA = Inr ()"
| "require_engageable FullPendingA = Inr ()"
| "require_engageable (DeferredA _) = Inr ()"
| "require_engageable _ = Inl (IdentityConflict ''claim cannot engage this execution'')"

fun require_engagement :: "assignment_state \<Rightarrow> engagement result" where
  "require_engagement (EngagedA e) = Inr e"
| "require_engagement _ = Inl (IdentityConflict ''wake assignment is not engaged'')"

fun require_completion :: "assignment_state \<Rightarrow> engagement result" where
  "require_completion (CompletedA e) = Inr e"
| "require_completion _ = Inl (IdentityConflict ''wake assignment is not completed'')"

text \<open>The default of the root class, which a triage-pending state overrides and a deferred state
  refines when it is bound.\<close>

definition default_requires_triage :: "wake_policy \<Rightarrow> bool result" where
  "default_requires_triage mode =
     (if policy_triage mode
      then Inl (IdentityConflict ''pending claim wake decision is not executable'') else Inr False)"

fun requires_selected_triage :: "assignment_state \<Rightarrow> bool result" where
  "requires_selected_triage TriagePendingA = Inr True"
| "requires_selected_triage (DeferredA (BoundDecision e)) = Inr False"
| "requires_selected_triage st = default_requires_triage (assignment_mode st)"

text \<open>\<open>PendingNotification.extend_selection\<close>: pending states, and a deferred state that is
  already linked to an execution.\<close>

definition selected_pending :: "assignment_state \<Rightarrow> bool" where
  "selected_pending st \<longleftrightarrow>
     has_capability assignment_capabilities (assignment_kind_of st) Pending \<or>
     (assignment_kind_of st = DeferredAssignment \<and> assignment_execution_id st \<noteq> None)"

definition writable_pending :: "assignment_state \<Rightarrow> bool" where
  "writable_pending st \<longleftrightarrow> assignment_kind_of st = FullPendingAssignment"

subsection \<open>Lemmas\<close>

lemmas binding_simps = assignment_execution_id_def assignment_exact_target_def

lemma bound_mode_of_type: "engagement_type mode = Inr (eng_kind e) \<Longrightarrow> bound_mode e = mode"
  by (simp add: bound_mode_def engagement_mode_of_type)

lemma bound_mode_active: "bound_mode e \<noteq> PassiveWake"
  using engagement_mode_total [of e] by (auto simp: bound_mode_def)

lemma interrupted_decision_Inr:
  assumes "interrupted_decision mode x t = Inr d"
  shows "decision_valid d \<and> decision_mode d = mode \<and>
    map_option eng_execution_id (decision_binding d) = x \<and>
    (x \<noteq> None \<longrightarrow> map_option eng_exact_target (decision_binding d) = t)"
  using assms
  by (auto simp: interrupted_decision_def pending_decision_def engagement_valid_def
        bound_mode_of_type split: if_splits)

lemma build_kind: "build kind mode x t = Inr st \<Longrightarrow> assignment_kind_of st = kind"
  by (cases kind) auto

lemma build_valid: "build kind mode x t = Inr st \<Longrightarrow> assignment_valid st"
  by (cases kind)
     (auto simp: engagement_valid_def pending_decision_def dest: interrupted_decision_Inr
        split: if_splits)

text \<open>A bound state projects to exactly the mode and the binding it was built from.\<close>

lemma build_bound:
  assumes "build kind mode (Some x) (Some t) = Inr st"
    and "kind \<in> {EngagedAssignment, CompletedAssignment, DeferredAssignment, FailedAssignment}"
  shows "assignment_mode st = mode \<and> assignment_execution_id st = Some x \<and>
         assignment_exact_target st = Some t"
  using assms interrupted_decision_Inr [of mode "Some x" "Some t"]
  by (auto simp: binding_simps bound_mode_of_type)

lemma build_preengagement_unbound:
  "build_preengagement kind mode = Inr st \<Longrightarrow> assignment_execution_id st = None"
  by (cases kind)
     (auto simp: build_preengagement_def binding_simps pending_decision_def
        dest: interrupted_decision_Inr split: if_splits)

lemma preengagement_Inr:
  assumes "preengagement st k = Inr st'"
  shows "assignment_kind_of st' = k \<and> assignment_mode st' = assignment_mode st \<and>
    assignment_execution_id st = None \<and> assignment_execution_id st' = None \<and>
    may_become assignment_successors (=) (assignment_kind_of st) k \<and> assignment_valid st'"
  using assms
  by (auto simp: preengagement_def build_preengagement_def may_become_def
        dest: build_kind build_valid build_preengagement_unbound
        split: if_splits)
     (metis build_preengagement_def build_preengagement_unbound)

lemma apply_preengagements_mode:
  assumes "apply_preengagements ks st = Inr st'"
  shows "assignment_mode st' = assignment_mode st \<and>
    (may_become assignment_successors (=))\<^sup>*\<^sup>* (assignment_kind_of st) (assignment_kind_of st')"
  using assms
proof (induction ks arbitrary: st)
  case (Cons k ks)
  then obtain st1 where st1: "preengagement st k = Inr st1" "apply_preengagements ks st1 = Inr st'"
    by auto
  from Cons.IH [OF st1(2)] preengagement_Inr [OF st1(1)] show ?case
    by (auto intro: converse_rtranclp_into_rtranclp)
qed simp

text \<open>Every valid state is what \<open>load\<close> gives back from its stored projections.\<close>

lemma load_assignment_roundtrip:
  assumes "assignment_valid st"
  shows "load_assignment (assignment_kind_of st) (assignment_mode st) (assignment_verdict st)
     (assignment_execution_id st) (assignment_exact_target st) = Inr st"
proof -
  have bound: "engage (bound_mode e) (Some (eng_execution_id e)) (Some (eng_exact_target e)) = Inr e"
    if "engagement_valid e" for e
  proof -
    have "engagement_type (bound_mode e) = Inr (eng_kind e)"
      by (cases "eng_kind e") (simp_all add: bound_mode_def engagement_mode_def wake_members_def)
    with that show ?thesis by (simp add: engagement_valid_def)
  qed
  have decided: "interrupted_decision (decision_mode d)
      (map_option eng_execution_id (decision_binding d))
      (map_option eng_exact_target (decision_binding d)) = Inr d" if "decision_valid d" for d
    using that bound by (cases d) (simp_all add: interrupted_decision_def pending_decision_def)
  show ?thesis
    using assms
    by (cases st)
       (simp_all add: load_assignment_def binding_simps pending_decision_def bound decided
          del: rbind_Inr engage_Inr)
qed

end
