(* ===== verification/Execution_States.thy ===== *)
theory Execution_States
  imports Assignment_States
begin

text \<open>
  \<open>execution_states.py\<close>: the lifecycle of an execution, the attempt ordinal each state refers to,
  and the rule by which the ordinal may change.  An execution counts its attempts: only the step
  into the active state advances the ordinal, by one, and only from a state that starts attempts.
\<close>

datatype execution_kind =
    QueuedExecution | PendingExecution | ActiveExecution | CompletedExecution | DeferredExecution
  | FailedExecution

datatype execution_state =
    QueuedE | PendingE | ActiveE int | CompletedE int | DeferredE "int option" | FailedE "int option"

fun execution_kind_of :: "execution_state \<Rightarrow> execution_kind" where
  "execution_kind_of QueuedE = QueuedExecution"
| "execution_kind_of PendingE = PendingExecution"
| "execution_kind_of (ActiveE _) = ActiveExecution"
| "execution_kind_of (CompletedE _) = CompletedExecution"
| "execution_kind_of (DeferredE _) = DeferredExecution"
| "execution_kind_of (FailedE _) = FailedExecution"

definition execution_members :: "execution_kind list" where
  "execution_members = [QueuedExecution, PendingExecution, ActiveExecution, CompletedExecution,
     DeferredExecution, FailedExecution]"

fun execution_successors :: "execution_kind \<Rightarrow> execution_kind list" where
  "execution_successors QueuedExecution = [PendingExecution, FailedExecution]"
| "execution_successors PendingExecution = [ActiveExecution, DeferredExecution, FailedExecution]"
| "execution_successors ActiveExecution = [DeferredExecution, CompletedExecution, FailedExecution]"
| "execution_successors CompletedExecution = []"
| "execution_successors DeferredExecution = [ActiveExecution, FailedExecution]"
| "execution_successors FailedExecution = []"

fun execution_capabilities :: "execution_kind \<Rightarrow> capability list" where
  "execution_capabilities ActiveExecution = [Active]"
| "execution_capabilities CompletedExecution = [Complete, Terminal]"
| "execution_capabilities FailedExecution = [Failed, Terminal]"
| "execution_capabilities _ = []"

interpretation executions: lifecycle execution_members execution_successors "(=)"
  execution_capabilities
proof
  show "k \<in> set execution_members" for k
    by (cases k) (simp_all add: execution_members_def)
  show "distinct execution_members"
    by (simp add: execution_members_def)
  show "has_capability execution_capabilities k Terminal \<longleftrightarrow> execution_successors k = []" for k
    by (cases k) (simp_all add: has_capability_def)
qed auto

subsection \<open>Attempt references\<close>

fun current_attempt_ordinal :: "execution_state \<Rightarrow> int option" where
  "current_attempt_ordinal QueuedE = None"
| "current_attempt_ordinal PendingE = None"
| "current_attempt_ordinal (ActiveE n) = Some n"
| "current_attempt_ordinal (CompletedE n) = Some n"
| "current_attempt_ordinal (DeferredE n) = n"
| "current_attempt_ordinal (FailedE n) = n"

text \<open>\<open>AttemptExecution.__post_init__\<close>: an active or completed execution names a positive attempt.\<close>

fun execution_state_valid :: "execution_state \<Rightarrow> bool" where
  "execution_state_valid (ActiveE n) \<longleftrightarrow> 1 \<le> n"
| "execution_state_valid (CompletedE n) \<longleftrightarrow> 1 \<le> n"
| "execution_state_valid _ \<longleftrightarrow> True"

definition unstarted :: "execution_kind \<Rightarrow> bool" where
  "unstarted k \<longleftrightarrow> k = QueuedExecution \<or> k = PendingExecution"

definition engaged_execution :: "execution_kind \<Rightarrow> bool" where
  "engaged_execution k \<longleftrightarrow> k = QueuedExecution \<or> k = PendingExecution \<or> k = ActiveExecution"

definition starts_attempt :: "execution_kind \<Rightarrow> bool" where
  "starts_attempt k \<longleftrightarrow> k = PendingExecution \<or> k = DeferredExecution"

definition interrupted_execution :: "execution_kind \<Rightarrow> bool" where
  "interrupted_execution k \<longleftrightarrow> k = DeferredExecution \<or> k = FailedExecution"

definition attempt_execution :: "execution_kind \<Rightarrow> bool" where
  "attempt_execution k \<longleftrightarrow> k = ActiveExecution \<or> k = CompletedExecution"

fun load_execution :: "execution_kind \<Rightarrow> int option \<Rightarrow> execution_state result" where
  "load_execution QueuedExecution n =
     (if n \<noteq> None then Inl (IntegrityViolationError ''unstarted execution cannot reference an attempt'')
      else Inr QueuedE)"
| "load_execution PendingExecution n =
     (if n \<noteq> None then Inl (IntegrityViolationError ''unstarted execution cannot reference an attempt'')
      else Inr PendingE)"
| "load_execution ActiveExecution n =
     (case n of Some m \<Rightarrow> if 1 \<le> m then Inr (ActiveE m)
        else Inl (IntegrityViolationError ''active/completed execution requires an attempt'')
      | None \<Rightarrow> Inl (IntegrityViolationError ''active/completed execution requires an attempt''))"
| "load_execution CompletedExecution n =
     (case n of Some m \<Rightarrow> if 1 \<le> m then Inr (CompletedE m)
        else Inl (IntegrityViolationError ''active/completed execution requires an attempt'')
      | None \<Rightarrow> Inl (IntegrityViolationError ''active/completed execution requires an attempt''))"
| "load_execution DeferredExecution n = Inr (DeferredE n)"
| "load_execution FailedExecution n = Inr (FailedE n)"

subsection \<open>Ordinal rule\<close>

record ordinal_rule =
  increment :: int
  predecessors :: "execution_kind \<Rightarrow> bool"

fun ordinal_rule_of :: "execution_kind \<Rightarrow> ordinal_rule" where
  "ordinal_rule_of ActiveExecution = \<lparr>increment = 1, predecessors = starts_attempt\<rparr>"
| "ordinal_rule_of _ = \<lparr>increment = 0, predecessors = (\<lambda>_. True)\<rparr>"

definition ordinal_or_zero :: "int option \<Rightarrow> int" where
  "ordinal_or_zero n = (case n of None \<Rightarrow> 0 | Some m \<Rightarrow> m)"

definition next_ordinal :: "ordinal_rule \<Rightarrow> execution_state \<Rightarrow> int" where
  "next_ordinal rule previous =
     ordinal_or_zero (current_attempt_ordinal previous) + increment rule"

definition nonzero_ordinal :: "int \<Rightarrow> int option" where
  "nonzero_ordinal n = (if n = 0 then None else Some n)"

definition accepts_previous :: "execution_state \<Rightarrow> execution_state \<Rightarrow> bool" where
  "accepts_previous following previous \<longleftrightarrow>
     (let rule = ordinal_rule_of (execution_kind_of following) in
      predecessors rule (execution_kind_of previous) \<and>
      current_attempt_ordinal following = nonzero_ordinal (next_ordinal rule previous))"

definition next_attempt_ordinal :: "execution_state \<Rightarrow> int" where
  "next_attempt_ordinal st = next_ordinal (ordinal_rule_of ActiveExecution) st"

subsection \<open>What each state answers\<close>

fun execution_assignment_state :: "execution_kind \<Rightarrow> assignment_kind" where
  "execution_assignment_state QueuedExecution = EngagedAssignment"
| "execution_assignment_state PendingExecution = EngagedAssignment"
| "execution_assignment_state ActiveExecution = EngagedAssignment"
| "execution_assignment_state CompletedExecution = CompletedAssignment"
| "execution_assignment_state DeferredExecution = DeferredAssignment"
| "execution_assignment_state FailedExecution = FailedAssignment"

definition require_attempt_start :: "execution_state \<Rightarrow> unit result" where
  "require_attempt_start st =
     require (starts_attempt (execution_kind_of st)) (IdentityConflict ''execution cannot start an attempt'')"

definition execution_require_final_response :: "execution_state \<Rightarrow> unit result" where
  "execution_require_final_response st =
     require (execution_kind_of st = ActiveExecution) ResponseClaimBlocked"

definition within_budget :: "execution_state \<Rightarrow> int \<Rightarrow> bool" where
  "within_budget st maximum \<longleftrightarrow>
     (case current_attempt_ordinal st of None \<Rightarrow> True | Some n \<Rightarrow> 1 \<le> n \<and> n \<le> maximum)"

definition has_retry_budget :: "execution_state \<Rightarrow> int \<Rightarrow> bool" where
  "has_retry_budget st maximum \<longleftrightarrow>
     (case current_attempt_ordinal st of None \<Rightarrow> False | Some n \<Rightarrow> n < maximum)"

fun validate_budget :: "execution_state \<Rightarrow> int \<Rightarrow> unit result" where
  "validate_budget (DeferredE n) maximum =
     (if \<not> within_budget (DeferredE n) maximum then Inl (ValueError ''current ordinal exceeds budget'')
      else if n \<noteq> None \<and> \<not> has_retry_budget (DeferredE n) maximum
      then Inl (IntegrityViolationError ''post-attempt deferral requires retry budget'')
      else Inr ())"
| "validate_budget st maximum =
     require (within_budget st maximum) (ValueError ''current ordinal exceeds budget'')"

subsection \<open>Lemmas\<close>

lemma accepts_previous_simps [simp]:
  "accepts_previous (ActiveE n) previous \<longleftrightarrow>
     starts_attempt (execution_kind_of previous) \<and>
     nonzero_ordinal (next_attempt_ordinal previous) = Some n"
  "accepts_previous (CompletedE n) previous \<longleftrightarrow>
     nonzero_ordinal (ordinal_or_zero (current_attempt_ordinal previous)) = Some n"
  "accepts_previous (DeferredE k) previous \<longleftrightarrow>
     nonzero_ordinal (ordinal_or_zero (current_attempt_ordinal previous)) = k"
  "accepts_previous (FailedE k) previous \<longleftrightarrow>
     nonzero_ordinal (ordinal_or_zero (current_attempt_ordinal previous)) = k"
  "accepts_previous PendingE previous \<longleftrightarrow>
     nonzero_ordinal (ordinal_or_zero (current_attempt_ordinal previous)) = None"
  "accepts_previous QueuedE previous \<longleftrightarrow>
     nonzero_ordinal (ordinal_or_zero (current_attempt_ordinal previous)) = None"
  by (auto simp: accepts_previous_def next_ordinal_def next_attempt_ordinal_def Let_def)

lemma nonzero_ordinal_Some [simp]: "nonzero_ordinal m = Some n \<longleftrightarrow> m = n \<and> n \<noteq> 0"
  by (auto simp: nonzero_ordinal_def)

lemma nonzero_ordinal_None [simp]: "nonzero_ordinal m = None \<longleftrightarrow> m = 0"
  by (simp add: nonzero_ordinal_def)

text \<open>The ordinal of an accepted successor is the predecessor's, or one more when an attempt starts.\<close>

lemma accepted_ordinal_steps:
  assumes "accepts_previous following previous"
  shows "ordinal_or_zero (current_attempt_ordinal following) =
    ordinal_or_zero (current_attempt_ordinal previous) +
    (if execution_kind_of following = ActiveExecution then 1 else 0)"
  using assms
  by (cases following)
     (auto simp: next_attempt_ordinal_def next_ordinal_def ordinal_or_zero_def
        split: option.splits)

lemma load_execution_roundtrip:
  "execution_state_valid st \<Longrightarrow> load_execution (execution_kind_of st) (current_attempt_ordinal st) = Inr st"
  by (cases st) simp_all

end
