(* ===== verification/Attempt_States.thy ===== *)
theory Attempt_States
  imports Execution_States
begin

text \<open>
  \<open>attempt_states.py\<close>: the observed phases of one attempt.  A live attempt holds a lease and two
  finality facts, the backend's end and the process's death; a terminal attempt holds nothing, and
  counts as done and dead.  Successor lists name classes, one of which (\<open>UnsuccessfulTerminal\<close>)
  covers two phases, so this family is the one where the subclass test is not equality.  The
  attempt's replay facts (\<open>tables/attempts.py\<close>) are the bits of an integer flag.
\<close>

subsection \<open>Phases\<close>

datatype live_phase =
    PromptStarting | PromptAccepted | ModelRunning | ToolRunning | Compaction | Settling
  | ModelStalled | Aborting | Retrying | ProviderUnavailable

datatype terminal_phase = Succeeded | AttemptFailed | UnknownOutcome

datatype attempt_phase = LivePhase live_phase | TerminalPhase terminal_phase

datatype attempt_class = PhaseClass attempt_phase | UnsuccessfulTerminal

fun phase_is_sub :: "attempt_phase \<Rightarrow> attempt_class \<Rightarrow> bool" where
  "phase_is_sub p (PhaseClass q) \<longleftrightarrow> p = q"
| "phase_is_sub p UnsuccessfulTerminal \<longleftrightarrow>
     p = TerminalPhase AttemptFailed \<or> p = TerminalPhase UnknownOutcome"

abbreviation live_class :: "live_phase \<Rightarrow> attempt_class" where
  "live_class p \<equiv> PhaseClass (LivePhase p)"

fun attempt_successors :: "attempt_phase \<Rightarrow> attempt_class list" where
  "attempt_successors (LivePhase PromptStarting) =
     [UnsuccessfulTerminal, live_class PromptAccepted, live_class ProviderUnavailable]"
| "attempt_successors (LivePhase PromptAccepted) =
     [live_class Aborting, UnsuccessfulTerminal, live_class ModelRunning, live_class ModelStalled]"
| "attempt_successors (LivePhase ModelRunning) =
     [live_class Aborting, UnsuccessfulTerminal, live_class Compaction, live_class ModelStalled,
      live_class ProviderUnavailable, live_class Settling, live_class ToolRunning]"
| "attempt_successors (LivePhase ToolRunning) =
     [live_class Aborting, UnsuccessfulTerminal, live_class ModelRunning, live_class Settling]"
| "attempt_successors (LivePhase Compaction) =
     [live_class Aborting, UnsuccessfulTerminal, live_class ModelRunning, live_class ModelStalled]"
| "attempt_successors (LivePhase Settling) =
     [UnsuccessfulTerminal, PhaseClass (TerminalPhase Succeeded)]"
| "attempt_successors (LivePhase ModelStalled) = [live_class Aborting, UnsuccessfulTerminal]"
| "attempt_successors (LivePhase Aborting) = [UnsuccessfulTerminal, live_class Retrying]"
| "attempt_successors (LivePhase Retrying) =
     [UnsuccessfulTerminal, live_class ModelRunning, live_class ModelStalled,
      live_class PromptStarting, live_class ProviderUnavailable]"
| "attempt_successors (LivePhase ProviderUnavailable) = [UnsuccessfulTerminal, live_class Retrying]"
| "attempt_successors (TerminalPhase _) = []"

definition attempt_members :: "attempt_phase list" where
  "attempt_members =
     map LivePhase [PromptStarting, PromptAccepted, ModelRunning, ToolRunning, Compaction, Settling,
       ModelStalled, Aborting, Retrying, ProviderUnavailable] @
     map TerminalPhase [Succeeded, AttemptFailed, UnknownOutcome]"

fun attempt_capabilities :: "attempt_phase \<Rightarrow> capability list" where
  "attempt_capabilities (LivePhase _) = []"
| "attempt_capabilities (TerminalPhase Succeeded) = [Terminal]"
| "attempt_capabilities (TerminalPhase AttemptFailed) = [Failed, Terminal]"
| "attempt_capabilities (TerminalPhase UnknownOutcome) = [Failed, Terminal]"

interpretation attempts: lifecycle attempt_members attempt_successors phase_is_sub
  attempt_capabilities
proof
  show "k \<in> set attempt_members" for k
  proof (cases k)
    case (LivePhase p)
    then show ?thesis by (cases p) (simp_all add: attempt_members_def)
  next
    case (TerminalPhase t)
    then show ?thesis by (cases t) (simp_all add: attempt_members_def)
  qed
  show "distinct attempt_members"
    by (simp add: attempt_members_def)
  show "\<exists>k'. phase_is_sub k' c" for c
    by (cases c) auto
  show "has_capability attempt_capabilities k Terminal \<longleftrightarrow> attempt_successors k = []" for k
    by (cases k rule: attempt_successors.cases; (simp add: has_capability_def)?)
       (metis attempt_capabilities.simps(2-4) capability_bases.simps(1) list.set_intros(1,2)
         terminal_phase.exhaust)
qed

subsection \<open>States\<close>

text \<open>A live state is its phase, the lease, \<open>backend_done\<close> and \<open>process_dead\<close>.\<close>

datatype attempt_state = Live live_phase int bool bool | Ended terminal_phase

fun attempt_phase_of :: "attempt_state \<Rightarrow> attempt_phase" where
  "attempt_phase_of (Live p _ _ _) = LivePhase p"
| "attempt_phase_of (Ended t) = TerminalPhase t"

fun lease_expires_at_ms :: "attempt_state \<Rightarrow> int option" where
  "lease_expires_at_ms (Live _ lease _ _) = Some lease"
| "lease_expires_at_ms (Ended _) = None"

fun backend_done :: "attempt_state \<Rightarrow> bool" where
  "backend_done (Live _ _ finished _) = finished"
| "backend_done (Ended _) = True"

fun process_dead :: "attempt_state \<Rightarrow> bool" where
  "process_dead (Live _ _ _ dead) = dead"
| "process_dead (Ended _) = True"

fun attempt_state_valid :: "attempt_state \<Rightarrow> bool" where
  "attempt_state_valid (Live _ lease _ _) \<longleftrightarrow> 0 \<le> lease"
| "attempt_state_valid (Ended _) \<longleftrightarrow> True"

fun load_attempt :: "attempt_phase \<Rightarrow> int option \<Rightarrow> bool \<Rightarrow> bool \<Rightarrow> attempt_state result" where
  "load_attempt (LivePhase p) lease finished dead =
     (case lease of
        Some l \<Rightarrow> if 0 \<le> l then Inr (Live p l finished dead)
          else Inl (IntegrityViolationError ''active attempt requires a lease'')
      | None \<Rightarrow> Inl (IntegrityViolationError ''active attempt requires a lease''))"
| "load_attempt (TerminalPhase t) lease finished dead =
     (if lease \<noteq> None then Inl (IntegrityViolationError ''terminal attempt must release lease'')
      else if \<not> (finished \<and> dead)
      then Inl (IntegrityViolationError ''terminal attempt requires final completion/death'')
      else Inr (Ended t))"

definition observed ::
  "attempt_state \<Rightarrow> attempt_phase \<Rightarrow> bool \<Rightarrow> bool \<Rightarrow> bool \<Rightarrow> attempt_state result" where
  "observed st phase finished dead progress =
     (if phase \<noteq> attempt_phase_of st \<and>
         \<not> may_become attempt_successors phase_is_sub (attempt_phase_of st) phase
      then Inl (IdentityConflict ''attempt phase edge is not declared'')
      else if (process_dead st \<or> backend_done st) \<and>
              (phase \<noteq> attempt_phase_of st \<or> progress \<or>
               (backend_done st, process_dead st) =
               (backend_done st \<or> finished, process_dead st \<or> dead))
      then Inl (RecoveryBlocked ''final backend evidence forbids further phase or progress'')
      else load_attempt phase (lease_expires_at_ms st) (backend_done st \<or> finished)
             (process_dead st \<or> dead))"

subsection \<open>What each state answers\<close>

definition permits_retry :: "attempt_state \<Rightarrow> bool" where
  "permits_retry st \<longleftrightarrow> st = Ended AttemptFailed"

fun accepts_active_execution :: "attempt_state \<Rightarrow> bool" where
  "accepts_active_execution (Live _ _ _ _) = True"
| "accepts_active_execution (Ended _) = False"

fun allows_tool_claim :: "attempt_phase \<Rightarrow> bool" where
  "allows_tool_claim (LivePhase p) \<longleftrightarrow>
     p \<in> {PromptStarting, PromptAccepted, ModelRunning, ToolRunning}"
| "allows_tool_claim (TerminalPhase _) \<longleftrightarrow> False"

definition tool_claim_open :: "attempt_state \<Rightarrow> bool" where
  "tool_claim_open st \<longleftrightarrow>
     allows_tool_claim (attempt_phase_of st) \<and> \<not> (backend_done st \<or> process_dead st)"

fun has_model_context :: "attempt_phase \<Rightarrow> bool" where
  "has_model_context (LivePhase p) \<longleftrightarrow> p \<in> {ModelRunning, ToolRunning, Compaction, Settling}"
| "has_model_context (TerminalPhase _) \<longleftrightarrow> False"

definition preserve_check :: "attempt_phase \<Rightarrow> bool" where
  "preserve_check p \<longleftrightarrow> p \<noteq> TerminalPhase Succeeded \<and> p \<noteq> TerminalPhase AttemptFailed"

definition require_silent_completion :: "attempt_state \<Rightarrow> unit result" where
  "require_silent_completion st =
     require (attempt_phase_of st = LivePhase Settling)
       (IdentityConflict ''silent completion requires settling phase'')"

definition publication_ready :: "attempt_state \<Rightarrow> bool" where
  "publication_ready st \<longleftrightarrow>
     attempt_phase_of st = LivePhase Settling \<and> backend_done st \<and> process_dead st"

definition attempt_require_final_response :: "attempt_state \<Rightarrow> unit result" where
  "attempt_require_final_response st = require (publication_ready st) ResponseClaimBlocked"

fun release_wording :: "terminal_phase \<Rightarrow> string" where
  "release_wording Succeeded = ''Released files after a completed turn''"
| "release_wording AttemptFailed = ''Released files after a failed turn''"
| "release_wording UnknownOutcome =
     ''Released files after a turn with unknown outcome; read them before editing''"

definition failed_attempt :: "attempt_phase \<Rightarrow> bool" where
  "failed_attempt p \<longleftrightarrow> has_capability attempt_capabilities p Failed"

definition terminal_attempt :: "attempt_phase \<Rightarrow> bool" where
  "terminal_attempt p \<longleftrightarrow> has_capability attempt_capabilities p Terminal"

text \<open>\<open>accepts_attempt\<close> of the execution states: which attempt each of them may refer to.\<close>

fun accepts_attempt :: "execution_state \<Rightarrow> attempt_state \<Rightarrow> bool" where
  "accepts_attempt (ActiveE _) st \<longleftrightarrow> accepts_active_execution st"
| "accepts_attempt (CompletedE _) st \<longleftrightarrow> st = Ended Succeeded"
| "accepts_attempt (DeferredE _) st \<longleftrightarrow> failed_attempt (attempt_phase_of st)"
| "accepts_attempt (FailedE _) st \<longleftrightarrow> failed_attempt (attempt_phase_of st)"
| "accepts_attempt _ st \<longleftrightarrow> False"

fun execution_can_retry :: "execution_state \<Rightarrow> bool \<Rightarrow> attempt_state option \<Rightarrow> bool \<Rightarrow> bool" where
  "execution_can_retry (DeferredE (Some n)) authorized (Some attempt) is_current \<longleftrightarrow>
     authorized \<and> permits_retry attempt \<and> \<not> is_current"
| "execution_can_retry _ authorized attempt is_current \<longleftrightarrow> False"

subsection \<open>Replay facts\<close>

datatype replay_fact =
    NONE | ASSISTANT_OUTPUT | THINKING_OUTPUT | TOOL_CALL_STARTED | TOOL_EXECUTED | INPUT_FORWARDED
  | COMPACTION | PROJECT_EFFECTS | WIRE_EFFECTS | EXTENSION_EFFECTS | UNKNOWN_EFFECTS

fun fact_value :: "replay_fact \<Rightarrow> int" where
  "fact_value NONE = 0"
| "fact_value ASSISTANT_OUTPUT = 1"
| "fact_value THINKING_OUTPUT = 2"
| "fact_value TOOL_CALL_STARTED = 4"
| "fact_value TOOL_EXECUTED = 8"
| "fact_value INPUT_FORWARDED = 16"
| "fact_value COMPACTION = 32"
| "fact_value PROJECT_EFFECTS = 64"
| "fact_value WIRE_EFFECTS = 128"
| "fact_value EXTENSION_EFFECTS = 256"
| "fact_value UNKNOWN_EFFECTS = 512"

definition approved_replay_fact_mask :: int where
  "approved_replay_fact_mask =
     sum_list (map fact_value [ASSISTANT_OUTPUT, THINKING_OUTPUT, TOOL_CALL_STARTED, TOOL_EXECUTED,
       INPUT_FORWARDED, COMPACTION, PROJECT_EFFECTS, WIRE_EFFECTS, EXTENSION_EFFECTS,
       UNKNOWN_EFFECTS])"

fun replay_contribution :: "terminal_phase \<Rightarrow> int" where
  "replay_contribution UnknownOutcome = fact_value UNKNOWN_EFFECTS"
| "replay_contribution _ = fact_value NONE"

subsection \<open>Lemmas\<close>

lemma failed_attempt_iff [simp]:
  "failed_attempt p \<longleftrightarrow> p = TerminalPhase AttemptFailed \<or> p = TerminalPhase UnknownOutcome"
  by (cases p rule: attempt_capabilities.cases) (simp_all add: failed_attempt_def has_capability_def)

lemma terminal_attempt_iff [simp]: "terminal_attempt p \<longleftrightarrow> (\<exists>t. p = TerminalPhase t)"
  by (cases p rule: attempt_capabilities.cases) (simp_all add: terminal_attempt_def has_capability_def)

lemma phase_live_iff: "attempt_phase_of st = LivePhase p \<longleftrightarrow> (\<exists>l d k. st = Live p l d k)"
  by (cases st) auto

text \<open>An observation never ends an attempt and never loosens its lease or a finality fact.\<close>

lemma observed_Inr:
  assumes "observed st phase finished dead progress = Inr st'"
  obtains p l d k p' where "st = Live p l d k" "phase = LivePhase p'"
    "st' = Live p' l (d \<or> finished) (k \<or> dead)" "0 \<le> l"
    "p' = p \<or> may_become attempt_successors phase_is_sub (LivePhase p) (LivePhase p')"
    "d \<or> k \<Longrightarrow> p' = p \<and> \<not> progress \<and> (\<not> d \<and> finished \<or> \<not> k \<and> dead)"
proof (cases st)
  case (Live p l d k)
  with assms obtain p' where p': "phase = LivePhase p'"
    by (cases phase) (auto simp: observed_def split: if_splits)
  with assms Live have "st' = Live p' l (d \<or> finished) (k \<or> dead)" "0 \<le> l"
    "p' = p \<or> may_become attempt_successors phase_is_sub (LivePhase p) (LivePhase p')"
    "d \<or> k \<Longrightarrow> p' = p \<and> \<not> progress \<and> (\<not> d \<and> finished \<or> \<not> k \<and> dead)"
    by (auto simp: observed_def split: if_splits)
  with Live p' that show ?thesis by blast
next
  case (Ended t)
  with assms show ?thesis by (simp add: observed_def split: if_splits)
qed

lemma load_attempt_roundtrip:
  "attempt_state_valid st \<Longrightarrow>
   load_attempt (attempt_phase_of st) (lease_expires_at_ms st) (backend_done st) (process_dead st) = Inr st"
  by (cases st) simp_all

text \<open>An attempt can always be ended: from every live phase the failed and the unknown outcome are
  declared successors, and success from the settling phase alone.\<close>

lemma live_attempt_can_end:
  "may_become attempt_successors phase_is_sub (LivePhase p) (TerminalPhase AttemptFailed) \<and>
   may_become attempt_successors phase_is_sub (LivePhase p) (TerminalPhase UnknownOutcome) \<and>
   (may_become attempt_successors phase_is_sub (LivePhase p) (TerminalPhase Succeeded) \<longleftrightarrow> p = Settling)"
  by (cases p) (simp_all add: may_become_def)

end
