(* ===== verification/Obligation_States.thy ===== *)
theory Obligation_States
  imports Lifecycle_Family
begin

text \<open>
  \<open>obligation_states.py\<close>: the lifecycle of one response obligation.  A published obligation carries
  the message id and the sequence number of its acknowledgement; no other state does.
\<close>

datatype response_kind =
    PendingResponse | PublishingResponse | DeferredResponse | PublishedResponse | SilentResponse
  | FailedResponse

datatype response_state =
  PendingR | PublishingR | DeferredR | PublishedR string int | SilentR | FailedR

fun response_kind_of :: "response_state \<Rightarrow> response_kind" where
  "response_kind_of PendingR = PendingResponse"
| "response_kind_of PublishingR = PublishingResponse"
| "response_kind_of DeferredR = DeferredResponse"
| "response_kind_of (PublishedR _ _) = PublishedResponse"
| "response_kind_of SilentR = SilentResponse"
| "response_kind_of FailedR = FailedResponse"

definition response_members :: "response_kind list" where
  "response_members = [PendingResponse, PublishingResponse, DeferredResponse, PublishedResponse,
     SilentResponse, FailedResponse]"

fun response_successors :: "response_kind \<Rightarrow> response_kind list" where
  "response_successors PendingResponse =
     [PublishingResponse, DeferredResponse, SilentResponse, FailedResponse]"
| "response_successors PublishingResponse = [PublishedResponse, FailedResponse]"
| "response_successors DeferredResponse = [PendingResponse, SilentResponse, FailedResponse]"
| "response_successors _ = []"

fun response_capabilities :: "response_kind \<Rightarrow> capability list" where
  "response_capabilities PendingResponse = [Pending]"
| "response_capabilities PublishingResponse = []"
| "response_capabilities DeferredResponse = [Deferred]"
| "response_capabilities PublishedResponse = [Successful]"
| "response_capabilities SilentResponse = [Successful]"
| "response_capabilities FailedResponse = [Failed, Terminal]"

interpretation responses: lifecycle response_members response_successors "(=)"
  response_capabilities
proof
  show "k \<in> set response_members" for k
    by (cases k) (simp_all add: response_members_def)
  show "distinct response_members"
    by (simp add: response_members_def)
  show "has_capability response_capabilities k Terminal \<longleftrightarrow> response_successors k = []" for k
    by (cases k) (simp_all add: has_capability_def)
qed auto

definition retryable :: "response_kind \<Rightarrow> bool" where
  "retryable k \<longleftrightarrow> k = PendingResponse \<or> k = DeferredResponse"

definition allows_intent :: "response_kind \<Rightarrow> bool" where
  "allows_intent k \<longleftrightarrow> k = PublishingResponse \<or> k = PublishedResponse \<or> k = FailedResponse"

definition requires_intent :: "response_kind \<Rightarrow> bool" where
  "requires_intent k \<longleftrightarrow> k = PublishingResponse \<or> k = PublishedResponse"

definition success_terminal :: "response_kind \<Rightarrow> bool" where
  "success_terminal k \<longleftrightarrow> has_capability response_capabilities k Successful"

fun response_state_valid :: "response_state \<Rightarrow> bool" where
  "response_state_valid (PublishedR _ seq) \<longleftrightarrow> 0 < seq"
| "response_state_valid _ \<longleftrightarrow> True"

text \<open>The acknowledgement a state carries: the message id and sequence of a published response,
  \<open>Unpublished\<close> otherwise.\<close>

fun published_reference :: "response_state \<Rightarrow> (string \<times> int) option" where
  "published_reference (PublishedR message_id seq) = Some (message_id, seq)"
| "published_reference _ = None"

definition require_preparation :: "response_state \<Rightarrow> unit result" where
  "require_preparation st =
     require (st = PendingR) (IdentityConflict ''response obligation cannot prepare a new intent'')"

definition require_existing_preparation :: "response_state \<Rightarrow> unit result" where
  "require_existing_preparation st =
     require (st = PublishingR) (IdentityConflict ''prepared response envelope conflicts'')"

definition require_publishing :: "response_state \<Rightarrow> unit result" where
  "require_publishing st =
     require (st = PublishingR) (IdentityConflict ''no frozen publishing intent for current owner'')"

definition require_nonpublication :: "response_state \<Rightarrow> unit result" where
  "require_nonpublication st =
     require (retryable (response_kind_of st))
       (IdentityConflict ''wire completion requires nonpublication obligation'')"

fun validate_acknowledgement :: "response_state \<Rightarrow> (string \<times> int) option \<Rightarrow> unit result" where
  "validate_acknowledgement (PublishedR message_id seq) acknowledgement =
     (case acknowledgement of
        None \<Rightarrow> Inl (IntegrityViolationError ''publication acknowledgement exists iff published'')
      | Some ack \<Rightarrow> require (ack = (message_id, seq))
          (IntegrityViolationError ''obligation acknowledgement does not match publication''))"
| "validate_acknowledgement _ acknowledgement =
     require (acknowledgement = None)
       (IntegrityViolationError ''publication acknowledgement exists iff published'')"

lemma validate_acknowledgement_iff:
  "validate_acknowledgement st ack = Inr () \<longleftrightarrow> ack = published_reference st"
  by (cases st; cases ack) auto

lemma success_terminal_iff [simp]:
  "success_terminal k \<longleftrightarrow> k = PublishedResponse \<or> k = SilentResponse"
  by (cases k) (simp_all add: success_terminal_def has_capability_def)

lemma response_edges [simp]:
  "may_become response_successors (=) k k' \<longleftrightarrow> k' \<in> set (response_successors k)"
  by (simp add: may_become_def)

text \<open>A retryable obligation only stays retryable by deferring or resuming; a published or silent one
  has no way back to it.\<close>

lemma success_not_retryable: "success_terminal k \<Longrightarrow> \<not> retryable k"
  by (auto simp: retryable_def)

end
