(* ===== verification/Coordinator_Rows.thy ===== *)
theory Coordinator_Rows
  imports Attempt_States Obligation_States
begin

text \<open>
  The rows of the coordination database (\<open>coordination/tables\<close>), one record per table with the
  declared columns, and what each row's constructor refuses (\<open>__post_init__\<close>).  The constructor
  runs when a row is built and again whenever it is read back.  Generated columns are functions of
  the row.  A nullable column is an option.
\<close>

unbundle bit_operations_syntax

subsection \<open>Bounds\<close>

definition max_identifier_chars :: nat where "max_identifier_chars = 256"
definition max_reason_code_chars :: nat where "max_reason_code_chars = 64"
definition max_sanitized_detail_chars :: nat where "max_sanitized_detail_chars = 512"
definition max_publication_payload_bytes :: int where "max_publication_payload_bytes = 120000"
definition resolver_version :: string where "resolver_version = ''resolver-v1''"
definition policy_version :: string where "policy_version = ''policy-v1''"

definition require_nonempty :: "string \<Rightarrow> string \<Rightarrow> unit result" where
  "require_nonempty value field = require (value \<noteq> []) (ValueError (field @ '' cannot be empty''))"

definition require_bounded :: "string \<Rightarrow> string \<Rightarrow> nat \<Rightarrow> unit result" where
  "require_bounded value field maximum =
     require (length value \<le> maximum) (ValueError (field @ '' exceeds its bound''))"

definition require_identifier :: "string \<Rightarrow> string \<Rightarrow> unit result" where
  "require_identifier value field =
     rbind (require_nonempty value field) (\<lambda>_. require_bounded value field max_identifier_chars)"

definition validate_execution_id :: "string \<Rightarrow> unit result" where
  "validate_execution_id x =
     rbind (require_identifier x ''execution_id'') (\<lambda>_.
       require (CHR '':'' \<notin> set x) (ValueError ''execution_id cannot contain colon''))"

text \<open>The CHECK the tables put on an execution id and on a bounded text.\<close>

definition text_within :: "nat \<Rightarrow> string \<Rightarrow> bool" where
  "text_within maximum t \<longleftrightarrow> 1 \<le> length t \<and> length t \<le> maximum"

definition execution_id_check :: "string \<Rightarrow> bool" where
  "execution_id_check x \<longleftrightarrow> text_within 256 x \<and> CHR '':'' \<notin> set x"

definition reason_check :: "string option \<Rightarrow> bool" where
  "reason_check reason \<longleftrightarrow> (case reason of None \<Rightarrow> True | Some t \<Rightarrow> text_within 64 t)"

lemma require_identifier_iff [simp]:
  "require_identifier value field = Inr () \<longleftrightarrow> text_within 256 value"
  by (auto simp: require_identifier_def require_nonempty_def require_bounded_def text_within_def
        max_identifier_chars_def Suc_le_eq)

lemma validate_execution_id_iff [simp]:
  "validate_execution_id x = Inr () \<longleftrightarrow> execution_id_check x"
  by (simp add: validate_execution_id_def execution_id_check_def)

subsection \<open>Participants, generations and pointers\<close>

record participant =
  participant_lookup :: string
  committed :: bool

record owner_generation =
  gen_owner :: string
  generation :: int

text \<open>A pointer names the owner's current execution and attempt, or is \<open>NULL\<close> in both columns.\<close>

record current_execution =
  ptr_owner :: string
  ptr_execution :: "string option"
  ptr_attempt :: "int option"
  ptr_revision :: int

definition pointer_valid :: "current_execution \<Rightarrow> unit result" where
  "pointer_valid r =
     rbind (case ptr_execution r of Some x \<Rightarrow> validate_execution_id x | None \<Rightarrow> Inr ()) (\<lambda>_.
     rbind (require (case ptr_attempt r of Some n \<Rightarrow> 0 < n | None \<Rightarrow> True)
              (ValueError ''pointer ordinal must be positive'')) (\<lambda>_.
     rbind (require ((ptr_execution r = None) = (ptr_attempt r = None))
              (IntegrityViolationError ''pointer execution and ordinal must pair'')) (\<lambda>_.
     require (0 \<le> ptr_revision r) (ValueError ''pointer_revision cannot be negative''))))"

definition pointer_unresolved :: "current_execution \<Rightarrow> bool" where
  "pointer_unresolved r \<longleftrightarrow> ptr_execution r \<noteq> None"

definition require_idle :: "current_execution \<Rightarrow> unit result" where
  "require_idle r =
     require (\<not> pointer_unresolved r)
       (StaleFence ''selected owner has an unresolved execution; new claims remain pending'')"

subsection \<open>Executions\<close>

datatype origin = WireOrigin | AcpOrigin | GoalOrigin | SystemOrigin

record execution =
  exec_id :: string
  exec_origin :: origin
  exec_lifecycle :: execution_state
  exec_owner :: string
  exec_revision :: int
  exec_max_attempts :: int
  exec_reason :: "string option"
  exec_created :: int
  exec_updated :: int

definition execution_valid :: "execution \<Rightarrow> unit result" where
  "execution_valid r =
     rbind (require (execution_state_valid (exec_lifecycle r))
              (IntegrityViolationError ''active/completed execution requires an attempt'')) (\<lambda>_.
     rbind (require (reason_check (exec_reason r)) (ValueError ''reason code is invalid'')) (\<lambda>_.
     rbind (validate_execution_id (exec_id r)) (\<lambda>_.
     rbind (require (0 < exec_revision r \<and> 0 < exec_max_attempts r)
              (ValueError ''revision and max_attempts must be positive'')) (\<lambda>_.
     rbind (validate_budget (exec_lifecycle r) (exec_max_attempts r)) (\<lambda>_.
     require (0 \<le> exec_created r \<and> exec_created r \<le> exec_updated r)
       (ValueError ''execution timestamps are inconsistent''))))))"

abbreviation exec_ordinal :: "execution \<Rightarrow> int option" where
  "exec_ordinal r \<equiv> current_attempt_ordinal (exec_lifecycle r)"

abbreviation exec_status :: "execution \<Rightarrow> execution_kind" where
  "exec_status r \<equiv> execution_kind_of (exec_lifecycle r)"

subsection \<open>Attempts\<close>

record attempt =
  att_execution :: string
  att_ordinal :: int
  att_owner :: string
  att_generation :: int
  att_digest :: string
  att_lifecycle :: attempt_state
  att_revision :: int
  att_progress :: "int option"
  att_reason :: "string option"
  att_created :: int
  att_updated :: int

abbreviation att_phase :: "attempt \<Rightarrow> attempt_phase" where
  "att_phase r \<equiv> attempt_phase_of (att_lifecycle r)"

definition progress_check :: "attempt \<Rightarrow> bool" where
  "progress_check r \<longleftrightarrow>
     (case att_progress r of None \<Rightarrow> True | Some p \<Rightarrow> att_created r \<le> p \<and> p \<le> att_updated r)"

definition attempt_valid :: "attempt \<Rightarrow> unit result" where
  "attempt_valid r =
     rbind (require (attempt_state_valid (att_lifecycle r))
              (IntegrityViolationError ''active attempt requires a lease'')) (\<lambda>_.
     rbind (require (reason_check (att_reason r)) (ValueError ''reason code is invalid'')) (\<lambda>_.
     rbind (validate_execution_id (att_execution r)) (\<lambda>_.
     rbind (require_identifier (att_digest r) ''owner_token_digest'') (\<lambda>_.
     rbind (require (0 < att_ordinal r \<and> 0 < att_generation r \<and> 0 < att_revision r)
              (ValueError ''attempt identity/generation/revision must be positive'')) (\<lambda>_.
     rbind (require (0 \<le> att_created r \<and> att_created r \<le> att_updated r)
              (ValueError ''attempt timestamps are inconsistent'')) (\<lambda>_.
     require (progress_check r) (ValueError ''attempt progress time is inconsistent'')))))))"

subsection \<open>Wake assignments and their links\<close>

record assignment =
  asg_id :: string
  asg_recipient :: string
  asg_recipient_lookup :: string
  asg_wire_seq :: int
  asg_message_id :: string
  asg_audience :: message_audience
  asg_lifecycle :: assignment_state
  asg_accepted :: int
  asg_updated :: int
  asg_revision :: int
  asg_resolver :: string
  asg_policy :: string

abbreviation asg_execution :: "assignment \<Rightarrow> string option" where
  "asg_execution r \<equiv> assignment_execution_id (asg_lifecycle r)"

abbreviation asg_target :: "assignment \<Rightarrow> string option" where
  "asg_target r \<equiv> assignment_exact_target (asg_lifecycle r)"

definition assignment_row_valid :: "assignment \<Rightarrow> unit result" where
  "assignment_row_valid r =
     rbind (require (assignment_valid (asg_lifecycle r))
              (IntegrityViolationError ''engaged claim requires execution and exact target'')) (\<lambda>_.
     rbind (require_identifier (asg_id r) ''claim_id'') (\<lambda>_.
     rbind (require_identifier (asg_recipient r) ''recipient'') (\<lambda>_.
     rbind (require_identifier (asg_recipient_lookup r) ''recipient_lookup'') (\<lambda>_.
     rbind (require_identifier (asg_message_id r) ''message_id'') (\<lambda>_.
     rbind (require_identifier (asg_resolver r) ''resolver_version'') (\<lambda>_.
     rbind (require_identifier (asg_policy r) ''policy_version'') (\<lambda>_.
     rbind (case asg_target r of Some t \<Rightarrow> require_identifier t ''exact_target'' | None \<Rightarrow> Inr ()) (\<lambda>_.
     rbind (case asg_execution r of Some x \<Rightarrow> validate_execution_id x | None \<Rightarrow> Inr ()) (\<lambda>_.
     rbind (require (0 < asg_wire_seq r \<and> 0 < asg_revision r)
              (ValueError ''wire_seq and revision must be positive'')) (\<lambda>_.
     require (0 \<le> asg_accepted r \<and> asg_accepted r \<le> asg_updated r)
       (ValueError ''claim timestamps are inconsistent'')))))))))))"

record link =
  link_execution :: string
  link_assignment :: string
  link_ordinal :: int

definition link_valid :: "link \<Rightarrow> unit result" where
  "link_valid r =
     rbind (validate_execution_id (link_execution r)) (\<lambda>_.
     rbind (require_identifier (link_assignment r) ''claim_id'') (\<lambda>_.
     require (0 \<le> link_ordinal r) (ValueError ''execution claim ordinal cannot be negative'')))"

subsection \<open>Replay assessments\<close>

record replay =
  rep_execution :: string
  rep_facts :: int
  rep_safe :: bool
  rep_effects :: bool
  rep_revision :: int

definition replay_allows_retry :: "replay \<Rightarrow> bool" where
  "replay_allows_retry r \<longleftrightarrow> rep_safe r \<and> rep_facts r = fact_value NONE \<and> \<not> rep_effects r"

definition replay_valid :: "replay \<Rightarrow> unit result" where
  "replay_valid r =
     rbind (validate_execution_id (rep_execution r)) (\<lambda>_.
     rbind (require (0 < rep_revision r) (ValueError ''replay revision must be positive'')) (\<lambda>_.
     rbind (require (0 \<le> rep_facts r \<and> rep_facts r AND (NOT approved_replay_fact_mask) = 0)
              (ValueError ''unrecognized replay fact bits'')) (\<lambda>_.
     require (rep_facts r = fact_value NONE \<or> \<not> rep_safe r)
       (IntegrityViolationError ''an execution with ambiguity facts cannot be replay-safe''))))"

lemma approved_bits_iff:
  "0 \<le> n \<and> n AND (NOT approved_replay_fact_mask) = 0 \<longleftrightarrow> 0 \<le> n \<and> n \<le> 1023" for n :: int
proof -
  have mask: "approved_replay_fact_mask = mask 10"
    by (simp add: approved_replay_fact_mask_def mask_eq_exp_minus_1)
  have "n AND (NOT approved_replay_fact_mask) = 0 \<longleftrightarrow> take_bit 10 n = n"
    by (auto simp: mask bit_eq_iff bit_simps)
  also have "\<dots> \<longleftrightarrow> 0 \<le> n \<and> n < 2 ^ 10" by (simp add: take_bit_int_eq_self_iff)
  finally show ?thesis by auto
qed

subsection \<open>Obligations, intents and receipts\<close>

record obligation =
  obl_execution :: string
  obl_target :: string
  obl_lifecycle :: response_state
  obl_reason :: "string option"
  obl_created :: int
  obl_updated :: int
  obl_revision :: int

abbreviation obl_state :: "obligation \<Rightarrow> response_kind" where
  "obl_state r \<equiv> response_kind_of (obl_lifecycle r)"

definition obligation_valid :: "obligation \<Rightarrow> unit result" where
  "obligation_valid r =
     rbind (require (response_state_valid (obl_lifecycle r)) (ValueError ''receipt_seq must be positive'')) (\<lambda>_.
     rbind (require (reason_check (obl_reason r)) (ValueError ''reason code is invalid'')) (\<lambda>_.
     rbind (validate_execution_id (obl_execution r)) (\<lambda>_.
     rbind (require_identifier (obl_target r) ''exact_target'') (\<lambda>_.
     rbind (require (0 < obl_revision r) (ValueError ''revision must be positive'')) (\<lambda>_.
     require (0 \<le> obl_created r \<and> obl_created r \<le> obl_updated r)
       (ValueError ''obligation timestamps are inconsistent''))))))"

text \<open>A reference to a bus message is its sequence number and id.  A frozen response message has the
  fields the coordinator reads, its time as a whole number where the source has a float, and the rest
  of the declared content (kind and role) as one text.
  Its id is minted from the content by the message declaration, through a hash; it is a parameter
  \<open>mid\<close> of the definitions that use it.\<close>

type_synonym message_reference = "int \<times> string"

record message =
  msg_sender :: string
  msg_target :: string
  msg_body :: string
  msg_timestamp :: int
  msg_answers :: "message_reference list"
  msg_content :: string

record intent =
  int_execution :: string
  int_target :: string
  int_message :: message
  int_key :: string
  int_expected :: string

text \<open>The UTF-8 size of a text of code points below 256.\<close>

definition utf8_size :: "string \<Rightarrow> int" where
  "utf8_size t = sum_list (map (\<lambda>c. if (of_char c :: int) < 128 then 1 else 2) t)"

definition canonical_publication_key :: "string \<Rightarrow> string \<Rightarrow> string result" where
  "canonical_publication_key x t =
     rbind (validate_execution_id x) (\<lambda>_.
     rbind (require_identifier t ''exact_target'') (\<lambda>_.
     let key = ''publication:v1:'' @ x @ '':'' @ t in
     rbind (require_bounded key ''publication_key'' max_identifier_chars) (\<lambda>_. Inr key)))"

definition intent_valid :: "(message \<Rightarrow> string) \<Rightarrow> intent \<Rightarrow> unit result" where
  "intent_valid mid r =
     rbind (validate_execution_id (int_execution r)) (\<lambda>_.
     rbind (require_nonempty (msg_body (int_message r)) ''payload'') (\<lambda>_.
     rbind (require_bounded (msg_sender (int_message r)) ''sender'' max_identifier_chars) (\<lambda>_.
     rbind (require (msg_target (int_message r) = int_target r)
              (IntegrityViolationError ''publication route is not its message target'')) (\<lambda>_.
     rbind (require (utf8_size (msg_body (int_message r)) \<le> max_publication_payload_bytes)
              (ValueError ''publication payload exceeds byte limit'')) (\<lambda>_.
     rbind (canonical_publication_key (int_execution r) (int_target r)) (\<lambda>key.
     rbind (require (int_key r = key)
              (IntegrityViolationError ''publication key is not canonical'')) (\<lambda>_.
     require (mid (int_message r) = int_expected r)
       (IntegrityViolationError ''expected message id does not match Message authority''))))))))"

record evidence =
  evi_execution :: string
  evi_target :: string
  evi_seq :: int
  evi_message_id :: string
  evi_received :: int

definition validate_intent_acknowledgement :: "intent \<Rightarrow> evidence \<Rightarrow> unit result" where
  "validate_intent_acknowledgement i ack =
     require (evi_message_id ack = int_expected i)
       (IntegrityViolationError ''acknowledgement envelope does not match frozen intent'')"

subsection \<open>Recovery audits\<close>

datatype recovery_condition =
    ModelStalledRecovery | AbortingRecovery | RetryingRecovery | ProviderUnavailableRecovery
  | DeferredRecovery | FailedRecovery | RecoveredRecovery

record audit =
  aud_execution :: string
  aud_kind :: recovery_condition
  aud_reason :: string
  aud_detail :: "string option"
  aud_attempt :: int
  aud_elapsed :: int
  aud_observed :: int
  aud_id :: int

definition audit_valid :: "audit \<Rightarrow> unit result" where
  "audit_valid r =
     rbind (validate_execution_id (aud_execution r)) (\<lambda>_.
     require (0 < aud_attempt r \<and> 0 \<le> aud_elapsed r \<and> 0 \<le> aud_observed r)
       (ValueError ''recovery attempt/timestamps are invalid''))"

subsection \<open>The database\<close>

record coordination =
  participants :: "participant list"
  owner_generations :: "owner_generation list"
  current_executions :: "current_execution list"
  executions :: "execution list"
  attempts :: "attempt list"
  wake_claims :: "assignment list"
  execution_claims :: "link list"
  replay_assessments :: "replay list"
  obligations :: "obligation list"
  publication_intents :: "intent list"
  publication_receipts :: "evidence list"
  recovery_audits :: "audit list"

definition empty_coordination :: coordination where
  "empty_coordination = \<lparr>participants = [], owner_generations = [], current_executions = [],
     executions = [], attempts = [], wake_claims = [], execution_claims = [],
     replay_assessments = [], obligations = [], publication_intents = [],
     publication_receipts = [], recovery_audits = []\<rparr>"

lemmas row_valid_defs = pointer_valid_def execution_valid_def attempt_valid_def
  assignment_row_valid_def link_valid_def replay_valid_def obligation_valid_def intent_valid_def
  audit_valid_def

end
