(* ===== verification/Typed_Table.thy ===== *)
theory Typed_Table
  imports Prelude Lifecycle_Family
begin

text \<open>
  \<open>storage/typed_table.py\<close>: a declared SQLite table and the triggers its mutation capabilities
  generate.  A table declaration is a record of the conditions SQLite evaluates around one row
  write: the \<open>BEFORE\<close> triggers, the CHECK constraints, the uniqueness constraints, the immediate
  foreign keys and the \<open>AFTER\<close> triggers.  \<open>insert_row\<close> and \<open>update_row\<close> are the two statements,
  \<open>update_where\<close> the UPDATE over all rows its WHERE clause selects.  The locale \<open>stored_table\<close>
  is the contract between a declaration and the database it lives in; every table of the
  coordinator interprets it.
\<close>

unbundle bit_operations_syntax

subsection \<open>Trigger conditions\<close>

text \<open>Each capability contributes a condition on the old and the new row under which its trigger
  aborts the statement.  A nullable column is an option; \<open>NULL\<close> never satisfies a comparison.\<close>

definition frozen_violated :: "('r \<Rightarrow> 'a) \<Rightarrow> 'r \<Rightarrow> 'r \<Rightarrow> bool" where
  "frozen_violated col old new \<longleftrightarrow> col new \<noteq> col old"

definition incrementing_violated :: "('r \<Rightarrow> int) \<Rightarrow> 'r \<Rightarrow> 'r \<Rightarrow> bool" where
  "incrementing_violated col old new \<longleftrightarrow> col new \<noteq> col old + 1"

definition non_decreasing_violated :: "('r \<Rightarrow> 'a::linorder option) \<Rightarrow> 'r \<Rightarrow> 'r \<Rightarrow> bool" where
  "non_decreasing_violated col old new \<longleftrightarrow>
     (case col old of None \<Rightarrow> False
      | Some previous \<Rightarrow> (case col new of None \<Rightarrow> True | Some following \<Rightarrow> following < previous))"

definition non_increasing_violated :: "('r \<Rightarrow> 'a::linorder option) \<Rightarrow> 'r \<Rightarrow> 'r \<Rightarrow> bool" where
  "non_increasing_violated col old new \<longleftrightarrow>
     (case col old of None \<Rightarrow> False
      | Some previous \<Rightarrow> (case col new of None \<Rightarrow> True | Some following \<Rightarrow> following > previous))"

definition non_decreasing_when_present_violated ::
  "('r \<Rightarrow> 'a::linorder option) \<Rightarrow> 'r \<Rightarrow> 'r \<Rightarrow> bool" where
  "non_decreasing_when_present_violated col old new \<longleftrightarrow>
     (case (col old, col new) of (Some previous, Some following) \<Rightarrow> following < previous | _ \<Rightarrow> False)"

definition accumulating_violated :: "('r \<Rightarrow> int) \<Rightarrow> 'r \<Rightarrow> 'r \<Rightarrow> bool" where
  "accumulating_violated col old new \<longleftrightarrow> (col new OR col old) \<noteq> col new"

definition write_once_violated :: "('r \<Rightarrow> 'a option) \<Rightarrow> 'r \<Rightarrow> 'r \<Rightarrow> bool" where
  "write_once_violated col old new \<longleftrightarrow> col old \<noteq> None \<and> col new \<noteq> col old"

definition required_violated :: "('r \<Rightarrow> 'a option) \<Rightarrow> ('r \<Rightarrow> 'b option) \<Rightarrow> 'r \<Rightarrow> 'r \<Rightarrow> bool" where
  "required_violated dependent required old new \<longleftrightarrow> dependent new \<noteq> None \<and> required new = None"

definition first_value_violated :: "('r \<Rightarrow> 'a option) \<Rightarrow> ('r \<Rightarrow> bool) \<Rightarrow> 'r \<Rightarrow> 'r \<Rightarrow> bool" where
  "first_value_violated col initial_state old new \<longleftrightarrow>
     col old = None \<and> col new \<noteq> None \<and> \<not> initial_state new"

definition transitions_violated :: "('k \<times> 'k list) list \<Rightarrow> ('r \<Rightarrow> 'k) \<Rightarrow> 'r \<Rightarrow> 'r \<Rightarrow> bool" where
  "transitions_violated table kind old new \<longleftrightarrow>
     kind old \<noteq> kind new \<and> \<not> table_edge table (kind old) (kind new)"

definition changes_violated :: "('r \<Rightarrow> 'k) \<Rightarrow> 'r \<Rightarrow> 'r \<Rightarrow> bool" where
  "changes_violated kind old new \<longleftrightarrow> kind old = kind new"

definition finalized_violated :: "('k \<times> 'k list) list \<Rightarrow> ('r \<Rightarrow> 'k) \<Rightarrow> 'r \<Rightarrow> 'r \<Rightarrow> bool" where
  "finalized_violated table kind old new \<longleftrightarrow> kind old = kind new \<and> table_closed table (kind old)"

definition counter_violated :: "('r \<Rightarrow> int) \<Rightarrow> ('r \<Rightarrow> bool) \<Rightarrow> 'r \<Rightarrow> 'r \<Rightarrow> bool" where
  "counter_violated counter has_live_dependent old new \<longleftrightarrow>
     counter new \<noteq> counter old \<and> (counter new \<noteq> counter old + 1 \<or> has_live_dependent old)"

lemmas trigger_defs = frozen_violated_def incrementing_violated_def non_decreasing_violated_def
  non_increasing_violated_def non_decreasing_when_present_violated_def accumulating_violated_def
  write_once_violated_def required_violated_def first_value_violated_def changes_violated_def
  counter_violated_def

subsection \<open>Declarations and statements\<close>

record ('d, 'r) table_spec =
  table_name :: string
  table_rows :: "'d \<Rightarrow> 'r list"
  table_put :: "('r list \<Rightarrow> 'r list) \<Rightarrow> 'd \<Rightarrow> 'd"
  insert_refused :: "'d \<Rightarrow> 'r \<Rightarrow> bool"
  update_refused :: "'d \<Rightarrow> 'r \<Rightarrow> 'r \<Rightarrow> bool"
  row_checks :: "'r \<Rightarrow> bool"
  row_conflict :: "'r \<Rightarrow> 'r \<Rightarrow> bool"
  row_references :: "'d \<Rightarrow> 'r \<Rightarrow> bool"
  after_refused :: "'d \<Rightarrow> 'r \<Rightarrow> bool"

definition after_write :: "('d, 'r) table_spec \<Rightarrow> 'r \<Rightarrow> 'd \<Rightarrow> 'd result" where
  "after_write T r d =
     (if \<not> row_references T d r then Inl (SqlConstraint (table_name T))
      else if after_refused T d r then Inl (SqlAbort (table_name T))
      else Inr d)"

definition insert_row :: "('d, 'r) table_spec \<Rightarrow> 'r \<Rightarrow> 'd \<Rightarrow> 'd result" where
  "insert_row T r d =
     (if insert_refused T d r then Inl (SqlAbort (table_name T))
      else if \<not> row_checks T r \<or> list_ex (row_conflict T r) (table_rows T d)
      then Inl (SqlConstraint (table_name T))
      else after_write T r (table_put T (\<lambda>rows. rows @ [r]) d))"

definition update_row :: "('d, 'r) table_spec \<Rightarrow> nat \<Rightarrow> 'r \<Rightarrow> 'd \<Rightarrow> 'd result" where
  "update_row T i r d =
     (if update_refused T d (table_rows T d ! i) r then Inl (SqlAbort (table_name T))
      else if \<not> row_checks T r \<or>
              list_ex (\<lambda>j. j \<noteq> i \<and> row_conflict T r (table_rows T d ! j)) [0..<length (table_rows T d)]
      then Inl (SqlConstraint (table_name T))
      else after_write T r (table_put T (\<lambda>rows. rows[i := r]) d))"

text \<open>An UPDATE visits the rows in order and writes those its WHERE clause selects; the cursor's
  \<open>rowcount\<close> is the number written.\<close>

primrec update_indices ::
  "('d, 'r) table_spec \<Rightarrow> ('r \<Rightarrow> bool) \<Rightarrow> ('r \<Rightarrow> 'r) \<Rightarrow> nat list \<Rightarrow> 'd \<Rightarrow> (nat \<times> 'd) result" where
  "update_indices T P f [] d = Inr (0, d)"
| "update_indices T P f (i # is) d =
     (let old = table_rows T d ! i in
      if P old
      then rbind (update_row T i (f old) d) (\<lambda>d1.
             rbind (update_indices T P f is d1) (\<lambda>(n, d2). Inr (Suc n, d2)))
      else update_indices T P f is d)"

definition update_where ::
  "('d, 'r) table_spec \<Rightarrow> ('r \<Rightarrow> bool) \<Rightarrow> ('r \<Rightarrow> 'r) \<Rightarrow> 'd \<Rightarrow> (nat \<times> 'd) result" where
  "update_where T P f d = update_indices T P f [0..<length (table_rows T d)] d"

text \<open>\<open>one\<close>, \<open>require\<close> and \<open>select\<close>: rows are decoded by their constructor, whose refusal is raised;
  a second row under a key is corruption.\<close>

primrec decode_rows :: "('r \<Rightarrow> unit result) \<Rightarrow> 'r list \<Rightarrow> 'r list result" where
  "decode_rows check [] = Inr []"
| "decode_rows check (r # rs) =
     rbind (check r) (\<lambda>_. rbind (decode_rows check rs) (\<lambda>rs'. Inr (r # rs')))"

definition one_row :: "('r \<Rightarrow> unit result) \<Rightarrow> ('r \<Rightarrow> bool) \<Rightarrow> 'r list \<Rightarrow> 'r option result" where
  "one_row check P rows =
     rbind (decode_rows check (take 2 (filter P rows))) (\<lambda>stored.
       case stored of [] \<Rightarrow> Inr None | [r] \<Rightarrow> Inr (Some r)
       | _ \<Rightarrow> Inl (RowMissing ''Expected one row''))"

definition require_row ::
  "('r \<Rightarrow> unit result) \<Rightarrow> ('r \<Rightarrow> bool) \<Rightarrow> error \<Rightarrow> 'r list \<Rightarrow> 'r result" where
  "require_row check P missing rows =
     rbind (one_row check P rows) (\<lambda>found. case found of Some r \<Rightarrow> Inr r | None \<Rightarrow> Inl missing)"

subsection \<open>Laws\<close>

lemma decode_rows_Inr [simp]:
  "decode_rows check rows = Inr rows' \<longleftrightarrow> rows' = rows \<and> (\<forall>r \<in> set rows. check r = Inr ())"
  by (induction rows arbitrary: rows') auto

lemma one_row_Some:
  assumes "one_row check P rows = Inr (Some r)"
  shows "filter P rows = [r] \<and> r \<in> set rows \<and> P r \<and> check r = Inr ()"
proof -
  from assms have "take 2 (filter P rows) = [r]" "check r = Inr ()"
    by (auto simp: one_row_def split: list.splits)
  moreover from this(1) have single: "filter P rows = [r]"
    by (cases "filter P rows"; cases "tl (filter P rows)") auto
  moreover have "r \<in> set (filter P rows)" by (simp add: single)
  moreover from this have "r \<in> set rows \<and> P r" by simp
  ultimately show ?thesis by simp
qed

lemma one_row_None:
  assumes "one_row check P rows = Inr None"
  shows "filter P rows = []"
  using assms by (auto simp: one_row_def split: list.splits)

lemma one_row_unique:
  assumes "filter P rows = [r]" "check r = Inr ()"
  shows "one_row check P rows = Inr (Some r)"
  using assms by (simp add: one_row_def)

lemma require_row_Inr:
  assumes "require_row check P missing rows = Inr r"
  shows "filter P rows = [r] \<and> r \<in> set rows \<and> P r \<and> check r = Inr ()"
  using assms by (auto simp: require_row_def dest: one_row_Some split: option.splits)

lemma after_write_Inr [simp]:
  "after_write T r d = Inr d' \<longleftrightarrow> d' = d \<and> row_references T d r \<and> \<not> after_refused T d r"
  by (auto simp: after_write_def)

lemma insert_row_Inr:
  "insert_row T r d = Inr d' \<longleftrightarrow>
     \<not> insert_refused T d r \<and> row_checks T r \<and> (\<forall>r' \<in> set (table_rows T d). \<not> row_conflict T r r') \<and>
     d' = table_put T (\<lambda>rows. rows @ [r]) d \<and> row_references T d' r \<and> \<not> after_refused T d' r"
  by (auto simp: insert_row_def list_ex_iff)

lemma update_row_Inr:
  "update_row T i r d = Inr d' \<longleftrightarrow>
     \<not> update_refused T d (table_rows T d ! i) r \<and> row_checks T r \<and>
     (\<forall>j < length (table_rows T d). j \<noteq> i \<longrightarrow> \<not> row_conflict T r (table_rows T d ! j)) \<and>
     d' = table_put T (\<lambda>rows. rows[i := r]) d \<and> row_references T d' r \<and> \<not> after_refused T d' r"
  by (auto simp: update_row_def list_ex_iff)

text \<open>No two stored rows conflict, and every stored row satisfies its CHECKs.\<close>

definition rows_sound :: "('d, 'r) table_spec \<Rightarrow> 'd \<Rightarrow> bool" where
  "rows_sound T d \<longleftrightarrow>
     (\<forall>r \<in> set (table_rows T d). row_checks T r) \<and>
     (\<forall>i < length (table_rows T d). \<forall>j < length (table_rows T d). i \<noteq> j \<longrightarrow>
        \<not> row_conflict T (table_rows T d ! i) (table_rows T d ! j))"

lemma rows_sound_checks: "rows_sound T d \<Longrightarrow> r \<in> set (table_rows T d) \<Longrightarrow> row_checks T r"
  by (simp add: rows_sound_def)

lemma rows_sound_unique:
  assumes "rows_sound T d" "r \<in> set (table_rows T d)" "r' \<in> set (table_rows T d)" "row_conflict T r r'"
  shows "r' = r"
proof -
  obtain i j where "i < length (table_rows T d)" "r = table_rows T d ! i"
    "j < length (table_rows T d)" "r' = table_rows T d ! j"
    using assms(2,3) by (metis in_set_conv_nth)
  with assms(1,4) show ?thesis by (metis rows_sound_def)
qed

text \<open>A key all of whose bearers conflict selects at most one stored row.\<close>

lemma rows_sound_filter:
  assumes "rows_sound T d" "r \<in> set (table_rows T d)" "P r"
    and key: "\<And>x y. P x \<Longrightarrow> P y \<Longrightarrow> row_conflict T x y"
  shows "filter P (table_rows T d) = [r]"
proof -
  let ?rows = "table_rows T d"
  have one: "i = j" if "i < length ?rows" "j < length ?rows" "P (?rows ! i)" "P (?rows ! j)" for i j
    using assms(1) key [OF that(3,4)] that(1,2) by (metis rows_sound_def)
  obtain i where i: "i < length ?rows" "r = ?rows ! i" using assms(2) by (metis in_set_conv_nth)
  have split: "?rows = take i ?rows @ r # drop (Suc i) ?rows"
    using i by (simp add: id_take_nth_drop)
  have "\<not> P x" if "x \<in> set (take i ?rows)" for x
  proof
    assume "P x"
    from that obtain j where "j < i" "j < length ?rows" "x = ?rows ! j"
      by (auto simp: in_set_conv_nth)
    with one [of j i] i \<open>P x\<close> assms(3) show False by simp
  qed
  moreover have "\<not> P x" if "x \<in> set (drop (Suc i) ?rows)" for x
  proof
    assume "P x"
    from that obtain j where j: "j < length ?rows - Suc i" and "x = ?rows ! (Suc i + j)"
      by (auto simp: in_set_conv_nth)
    moreover from j have "Suc i + j < length ?rows" by linarith
    ultimately show False using one [of "Suc i + j" i] i \<open>P x\<close> assms(3) by simp
  qed
  ultimately show ?thesis
    using assms(3) by (subst split) (simp add: filter_False)
qed

locale stored_table =
  fixes T :: "('d, 'r) table_spec"
  assumes rows_put: "table_rows T (table_put T f d) = f (table_rows T d)"
    and put_same: "table_put T (\<lambda>_. table_rows T d) d = d"
    and put_put: "table_put T (\<lambda>_. rows) (table_put T f d) = table_put T (\<lambda>_. rows) d"
    and put_const: "table_put T f d = table_put T (\<lambda>_. f (table_rows T d)) d"
begin

lemma insert_rows: "insert_row T r d = Inr d' \<Longrightarrow> table_rows T d' = table_rows T d @ [r]"
  by (auto simp: insert_row_Inr rows_put)

lemma update_rows: "update_row T i r d = Inr d' \<Longrightarrow> table_rows T d' = (table_rows T d)[i := r]"
  by (auto simp: update_row_Inr rows_put)

lemma insert_sound:
  assumes "insert_row T r d = Inr d'" "rows_sound T d"
    and sym: "\<And>x y. row_conflict T x y = row_conflict T y x"
  shows "rows_sound T d'"
  using assms(1,2) sym unfolding rows_sound_def insert_rows [OF assms(1)]
  by (auto simp: insert_row_Inr nth_append less_Suc_eq)

lemma update_sound:
  assumes "update_row T i r d = Inr d'" "rows_sound T d" "i < length (table_rows T d)"
    and sym: "\<And>x y. row_conflict T x y = row_conflict T y x"
  shows "rows_sound T d'"
proof -
  let ?rows = "table_rows T d"
  have "row_checks T x" if "x \<in> set (?rows[i := r])" for x
    using assms(1,2) that set_update_subset_insert [of ?rows i r]
    by (auto simp: rows_sound_def update_row_Inr)
  moreover have "\<not> row_conflict T (?rows[i := r] ! j) (?rows[i := r] ! k)"
    if "j < length ?rows" "k < length ?rows" "j \<noteq> k" for j k
    using assms(1,2) that sym
    by (cases "j = i"; cases "k = i") (auto simp: rows_sound_def update_row_Inr)
  ultimately show ?thesis unfolding rows_sound_def update_rows [OF assms(1)] by simp
qed

text \<open>A property of the single rows is kept when the written row has it.\<close>

lemma insert_ball:
  "insert_row T r d = Inr d' \<Longrightarrow> (\<And>x. x \<in> set (table_rows T d) \<Longrightarrow> Q x) \<Longrightarrow> Q r \<Longrightarrow>
   \<forall>x \<in> set (table_rows T d'). Q x"
  by (auto simp: insert_rows)

lemma update_ball:
  assumes "update_row T i r d = Inr d'" "\<And>x. x \<in> set (table_rows T d) \<Longrightarrow> Q x" "Q r"
  shows "\<forall>x \<in> set (table_rows T d'). Q x"
  using assms(2,3) set_update_subset_insert [of "table_rows T d" i r]
  by (auto simp: update_rows [OF assms(1)])

lemma references_kept:
  assumes "table_rows T d' = table_rows T d \<or> (\<exists>r. insert_row T r d = Inr d') \<or>
      (\<exists>i r. update_row T i r d = Inr d')"
    and "\<forall>x \<in> set (table_rows T d). row_references T d x"
    and mono: "\<And>x. row_references T d x \<Longrightarrow> row_references T d' x"
  shows "\<forall>x \<in> set (table_rows T d'). row_references T d' x"
  using assms(1)
proof (elim disjE exE)
  assume "table_rows T d' = table_rows T d"
  with assms(2) mono show ?thesis by simp
next
  fix r assume ins: "insert_row T r d = Inr d'"
  show ?thesis
    by (rule insert_ball [OF ins]) (use assms(2) mono ins in \<open>auto simp: insert_row_Inr\<close>)
next
  fix i r assume upd: "update_row T i r d = Inr d'"
  show ?thesis
    by (rule update_ball [OF upd]) (use assms(2) mono upd in \<open>auto simp: update_row_Inr\<close>)
qed

lemma update_indices_rows:
  assumes "update_indices T P f is d = Inr (n, d')" "distinct is"
    "\<forall>i \<in> set is. i < length (table_rows T d)"
  shows "length (table_rows T d') = length (table_rows T d) \<and>
    (\<forall>j < length (table_rows T d). table_rows T d' ! j =
      (if j \<in> set is \<and> P (table_rows T d ! j) then f (table_rows T d ! j) else table_rows T d ! j)) \<and>
    n = length (filter (\<lambda>i. P (table_rows T d ! i)) is)"
  using assms
proof (induction "is" arbitrary: d n)
  case (Cons i "is")
  show ?case
  proof (cases "P (table_rows T d ! i)")
    case True
    with Cons.prems(1) obtain d1 m where step: "update_row T i (f (table_rows T d ! i)) d = Inr d1"
      and rest: "update_indices T P f is d1 = Inr (m, d')" and n: "n = Suc m"
      by (auto simp: Let_def)
    note rows = update_rows [OF step]
    have same: "table_rows T d1 ! j = table_rows T d ! j" if "j \<in> set is" for j
      using that Cons.prems(2) by (metis distinct.simps(2) nth_list_update_neq rows)
    have "filter (\<lambda>i. P (table_rows T d1 ! i)) is = filter (\<lambda>i. P (table_rows T d ! i)) is"
      using same by (metis (mono_tags, lifting) filter_cong)
    with Cons.IH [OF rest] Cons.prems(2,3) rows n True same show ?thesis
      by (auto simp: nth_list_update)
  next
    case False
    with Cons.prems(1) have "update_indices T P f is d = Inr (n, d')" by (simp add: Let_def)
    from Cons.IH [OF this] Cons.prems(2,3) False show ?thesis by auto
  qed
qed simp

lemma update_where_rows:
  assumes "update_where T P f d = Inr (n, d')"
  shows "table_rows T d' = map (\<lambda>r. if P r then f r else r) (table_rows T d) \<and>
    n = length (filter P (table_rows T d))"
proof -
  let ?rows = "table_rows T d"
  from update_indices_rows [OF assms [unfolded update_where_def]]
  have "length (table_rows T d') = length ?rows"
    "\<forall>j < length ?rows. table_rows T d' ! j = (if P (?rows ! j) then f (?rows ! j) else ?rows ! j)"
    "n = length (filter (\<lambda>i. P (?rows ! i)) [0..<length ?rows])"
    by auto
  moreover have "filter P ?rows = map ((!) ?rows) (filter (\<lambda>i. P (?rows ! i)) [0..<length ?rows])"
    using filter_map [of P "(!) ?rows" "[0..<length ?rows]"] by (simp add: map_nth comp_def)
  ultimately show ?thesis by (auto intro!: nth_equalityI)
qed

text \<open>An UPDATE writes its own table and nothing else.\<close>

lemma update_row_put:
  assumes "update_row T i r d = Inr d'"
  shows "d' = table_put T (\<lambda>_. table_rows T d') d"
proof -
  have "d' = table_put T (\<lambda>rows. rows[i := r]) d" using assms by (simp add: update_row_Inr)
  then show ?thesis using put_const [of "\<lambda>rows. rows[i := r]" d] by (simp add: rows_put)
qed

lemma update_indices_put:
  "update_indices T P f is d = Inr (n, d') \<Longrightarrow> d' = table_put T (\<lambda>_. table_rows T d') d"
proof (induction "is" arbitrary: d n)
  case Nil
  then show ?case by (simp add: put_same)
next
  case (Cons i "is")
  show ?case
  proof (cases "P (table_rows T d ! i)")
    case True
    with Cons.prems obtain d1 m where step: "update_row T i (f (table_rows T d ! i)) d = Inr d1"
      and rest: "update_indices T P f is d1 = Inr (m, d')"
      by (auto simp: Let_def)
    from Cons.IH [OF rest] update_row_put [OF step] show ?thesis by (metis put_put)
  next
    case False
    with Cons.prems Cons.IH [of d n] show ?thesis by (simp add: Let_def)
  qed
qed

lemma update_where_put:
  assumes "update_where T P f d = Inr (n, d')"
  shows "d' = table_put T (map (\<lambda>r. if P r then f r else r)) d"
  using update_indices_put [OF assms [unfolded update_where_def]] update_where_rows [OF assms]
    put_const [of "map (\<lambda>r. if P r then f r else r)" d] by simp

lemma insert_put: "insert_row T r d = Inr d' \<Longrightarrow> d' = table_put T (\<lambda>rows. rows @ [r]) d"
  by (simp add: insert_row_Inr)

text \<open>A relation that every row write of an UPDATE keeps, and that is reflexive and transitive, is
  kept by the UPDATE.\<close>

lemma update_where_steps:
  assumes "update_where T P f d = Inr (n, d')"
    and refl: "\<And>d. R d d" and trans: "\<And>d1 d2 d3. R d1 d2 \<Longrightarrow> R d2 d3 \<Longrightarrow> R d1 d3"
    and step: "\<And>i d1 d2. i < length (table_rows T d1) \<Longrightarrow> P (table_rows T d1 ! i) \<Longrightarrow>
      update_row T i (f (table_rows T d1 ! i)) d1 = Inr d2 \<Longrightarrow> R d d1 \<Longrightarrow> R d1 d2"
  shows "R d d'"
proof -
  have "R d d'" if "update_indices T P f is d1 = Inr (n, d')"
    "\<forall>i \<in> set is. i < length (table_rows T d1)" "R d d1" for "is" d1 n
    using that
  proof (induction "is" arbitrary: d1 n)
    case (Cons i "is")
    show ?case
    proof (cases "P (table_rows T d1 ! i)")
      case True
      with Cons.prems(1) obtain d2 m where u: "update_row T i (f (table_rows T d1 ! i)) d1 = Inr d2"
        and rest: "update_indices T P f is d2 = Inr (m, d')"
        by (auto simp: Let_def)
      have "R d d2" using step [OF _ True u Cons.prems(3)] Cons.prems(2,3) trans by auto
      then show ?thesis using Cons.IH [OF rest] Cons.prems(2) update_rows [OF u] by auto
    next
      case False
      with Cons.prems show ?thesis using Cons.IH [of d1 n] by (simp add: Let_def)
    qed
  qed simp
  from this [of "[0..<length (table_rows T d)]" d n] assms(1) refl show ?thesis
    by (simp add: update_where_def)
qed

text \<open>An UPDATE whose WHERE clause selects one row succeeds when that row may be written.\<close>

lemma update_indices_none:
  "(\<And>i. i \<in> set is \<Longrightarrow> \<not> P (table_rows T d ! i)) \<Longrightarrow> update_indices T P f is d = Inr (0, d)"
  by (induction "is") (simp_all add: Let_def)

lemma update_indices_skip:
  "(\<And>i. i \<in> set is \<Longrightarrow> \<not> P (table_rows T d ! i)) \<Longrightarrow>
   update_indices T P f (is @ js) d = update_indices T P f js d"
  by (induction "is") (simp_all add: Let_def)

lemma update_where_single:
  assumes i: "i < length (table_rows T d)" "P (table_rows T d ! i)"
    and only: "\<And>j. j < length (table_rows T d) \<Longrightarrow> j \<noteq> i \<Longrightarrow> \<not> P (table_rows T d ! j)"
    and upd: "update_row T i (f (table_rows T d ! i)) d = Inr d'"
  shows "update_where T P f d = Inr (1, d')"
proof -
  let ?n = "length (table_rows T d)"
  have split: "[0..<?n] = [0..<i] @ i # [Suc i..<?n]"
    using i(1) by (metis le0 less_imp_le_nat upt_add_eq_append upt_conv_Cons le_add_diff_inverse)
  have "update_indices T P f [Suc i..<?n] d' = Inr (0, d')"
    by (rule update_indices_none) (use only in \<open>auto simp: update_rows [OF upd]\<close>)
  with i upd show ?thesis unfolding update_where_def split
    by (subst update_indices_skip) (use only i in \<open>auto simp: Let_def\<close>)
qed

end

end
