(* ===== verification/Coordinator_Schema.thy ===== *)
theory Coordinator_Schema
  imports Coordinator_Rows Typed_Table
begin

text \<open>
  The schema of the coordination database: for every table the conditions of its triggers, its
  CHECK and UNIQUE constraints and its immediate foreign keys, and the deferred foreign keys that
  a commit checks.  The conditions are those the row declarations under \<open>coordination/tables\<close>
  generate from their mutation capabilities and their SQL texts.
\<close>

subsection \<open>Reading related rows\<close>

definition has_participant :: "coordination \<Rightarrow> string \<Rightarrow> bool" where
  "has_participant d p \<longleftrightarrow> (\<exists>r \<in> set (participants d). participant_lookup r = p)"

definition has_execution :: "coordination \<Rightarrow> string \<Rightarrow> bool" where
  "has_execution d x \<longleftrightarrow> (\<exists>r \<in> set (executions d). exec_id r = x)"

definition obligations_of :: "coordination \<Rightarrow> string \<Rightarrow> obligation list" where
  "obligations_of d x = filter (\<lambda>ob. obl_execution ob = x) (obligations d)"

definition intents_of :: "coordination \<Rightarrow> string \<Rightarrow> intent list" where
  "intents_of d x = filter (\<lambda>i. int_execution i = x) (publication_intents d)"

definition receipts_of :: "coordination \<Rightarrow> string \<Rightarrow> evidence list" where
  "receipts_of d x = filter (\<lambda>r. evi_execution r = x) (publication_receipts d)"

definition links_of :: "coordination \<Rightarrow> string \<Rightarrow> link list" where
  "links_of d x = filter (\<lambda>l. link_execution l = x) (execution_claims d)"

definition intent_at :: "coordination \<Rightarrow> string \<Rightarrow> string \<Rightarrow> intent option" where
  "intent_at d x t = find (\<lambda>i. int_execution i = x \<and> int_target i = t) (publication_intents d)"

definition receipt_at :: "coordination \<Rightarrow> string \<Rightarrow> string \<Rightarrow> evidence option" where
  "receipt_at d x t = find (\<lambda>r. evi_execution r = x \<and> evi_target r = t) (publication_receipts d)"

subsection \<open>Retry basis\<close>

text \<open>The view \<open>retry_disposition_basis\<close>: the rows an execution's retry rests on.\<close>

definition origin_retry_authorized :: "origin \<Rightarrow> obligation list \<Rightarrow> bool" where
  "origin_retry_authorized origin obls \<longleftrightarrow>
     origin \<noteq> WireOrigin \<or> (obls \<noteq> [] \<and> list_all (\<lambda>ob. retryable (obl_state ob)) obls)"

definition basis_authorized :: "coordination \<Rightarrow> execution \<Rightarrow> bool" where
  "basis_authorized d e \<longleftrightarrow>
     has_retry_budget (exec_lifecycle e) (exec_max_attempts e) \<and>
     (\<exists>r \<in> set (replay_assessments d). rep_execution r = exec_id e \<and> replay_allows_retry r) \<and>
     origin_retry_authorized (exec_origin e) (obligations_of d (exec_id e))"

text \<open>\<open>RetryPartition\<close>: after a write no failed execution with an attempt keeps its retry basis.\<close>

definition retry_partition_violated :: "coordination \<Rightarrow> string \<Rightarrow> bool" where
  "retry_partition_violated d x \<longleftrightarrow>
     (\<exists>e \<in> set (executions d). exec_id e = x \<and> basis_authorized d e \<and>
        exec_status e = FailedExecution \<and> exec_ordinal e \<noteq> None)"

subsection \<open>Participants, generations and pointers\<close>

definition participants_table :: "(coordination, participant) table_spec" where
  "participants_table = \<lparr>table_name = ''participants'',
     table_rows = participants, table_put = participants_update,
     insert_refused = (\<lambda>d r. False),
     update_refused = (\<lambda>d old new. non_decreasing_violated (Some \<circ> committed) old new \<or>
       frozen_violated participant_lookup old new),
     row_checks = (\<lambda>r. True),
     row_conflict = (\<lambda>r r'. participant_lookup r = participant_lookup r'),
     row_references = (\<lambda>d r. True),
     after_refused = (\<lambda>d r. False)\<rparr>"

definition live_dependents :: "coordination \<Rightarrow> owner_generation \<Rightarrow> bool" where
  "live_dependents d g \<longleftrightarrow>
     (\<exists>a \<in> set (attempts d). att_owner a = gen_owner g \<and> att_generation a = generation g \<and>
        \<not> terminal_attempt (att_phase a))"

definition owner_generations_table :: "(coordination, owner_generation) table_spec" where
  "owner_generations_table = \<lparr>table_name = ''owner_generations'',
     table_rows = owner_generations, table_put = owner_generations_update,
     insert_refused = (\<lambda>d r. False),
     update_refused = (\<lambda>d old new. counter_violated generation (live_dependents d) old new \<or>
       frozen_violated gen_owner old new),
     row_checks = (\<lambda>r. 0 < generation r),
     row_conflict = (\<lambda>r r'. gen_owner r = gen_owner r'),
     row_references = (\<lambda>d r. has_participant d (gen_owner r)),
     after_refused = (\<lambda>d r. False)\<rparr>"

definition current_executions_table :: "(coordination, current_execution) table_spec" where
  "current_executions_table = \<lparr>table_name = ''current_executions'',
     table_rows = current_executions, table_put = current_executions_update,
     insert_refused = (\<lambda>d r. \<not> (\<exists>g \<in> set (owner_generations d). gen_owner g = ptr_owner r)),
     update_refused = (\<lambda>d old new. incrementing_violated ptr_revision old new \<or>
       frozen_violated ptr_owner old new),
     row_checks = (\<lambda>r. 0 \<le> ptr_revision r \<and> (ptr_execution r = None) = (ptr_attempt r = None)),
     row_conflict = (\<lambda>r r'. ptr_owner r = ptr_owner r'),
     row_references = (\<lambda>d r. has_participant d (ptr_owner r)),
     after_refused = (\<lambda>d r. False)\<rparr>"

subsection \<open>Executions\<close>

abbreviation execution_edges :: "(execution_kind \<times> execution_kind list) list" where
  "execution_edges \<equiv> transition_table execution_members execution_successors (=)"

definition ordinal_violated :: "execution \<Rightarrow> execution \<Rightarrow> bool" where
  "ordinal_violated old new \<longleftrightarrow> \<not> accepts_previous (exec_lifecycle new) (exec_lifecycle old)"

text \<open>The guard of the \<open>lifecycle\<close> column; every UPDATE the coordinator issues on executions sets
  that column.\<close>

definition execution_guard :: "coordination \<Rightarrow> execution \<Rightarrow> bool" where
  "execution_guard d new \<longleftrightarrow>
     (interrupted_execution (exec_status new) \<and> exec_ordinal new \<noteq> None \<and>
      \<not> (\<exists>a \<in> set (attempts d). att_execution a = exec_id new \<and> Some (att_ordinal a) = exec_ordinal new \<and>
           att_owner a = exec_owner new \<and> failed_attempt (att_phase a))) \<or>
     (exec_origin new = WireOrigin \<and>
      (obligations_of d (exec_id new) = [] \<or>
       (exec_status new = CompletedExecution \<and>
        (\<exists>ob \<in> set (obligations_of d (exec_id new)). \<not> success_terminal (obl_state ob))) \<or>
       (exec_status new = DeferredExecution \<and> exec_ordinal new \<noteq> None \<and>
        (\<exists>ob \<in> set (obligations_of d (exec_id new)). \<not> retryable (obl_state ob))))) \<or>
     (exec_status new = FailedExecution \<and> receipts_of d (exec_id new) \<noteq> []) \<or>
     (exec_status new = FailedExecution \<and> exec_ordinal new \<noteq> None \<and>
      (\<exists>e \<in> set (executions d). exec_id e = exec_id new \<and> basis_authorized d e))"

definition execution_checks :: "execution \<Rightarrow> bool" where
  "execution_checks r \<longleftrightarrow>
     execution_id_check (exec_id r) \<and> 0 < exec_revision r \<and> 0 < exec_max_attempts r \<and>
     reason_check (exec_reason r) \<and> 0 \<le> exec_created r \<and> exec_created r \<le> exec_updated r \<and>
     within_budget (exec_lifecycle r) (exec_max_attempts r) \<and>
     (exec_status r = DeferredExecution \<longrightarrow> exec_ordinal r \<noteq> None \<longrightarrow>
        has_retry_budget (exec_lifecycle r) (exec_max_attempts r))"

definition execution_update_refused :: "coordination \<Rightarrow> execution \<Rightarrow> execution \<Rightarrow> bool" where
  "execution_update_refused d old new \<longleftrightarrow>
     transitions_violated execution_edges (\<lambda>r. exec_status r) old new \<or>
     ordinal_violated old new \<or>
     incrementing_violated exec_revision old new \<or>
     non_decreasing_violated (Some \<circ> exec_updated) old new \<or>
     execution_guard d new \<or>
     frozen_violated exec_id old new \<or> frozen_violated exec_origin old new \<or>
     frozen_violated exec_owner old new \<or> frozen_violated exec_max_attempts old new \<or>
     frozen_violated exec_created old new"

definition executions_table :: "(coordination, execution) table_spec" where
  "executions_table = \<lparr>table_name = ''executions'',
     table_rows = executions, table_put = executions_update,
     insert_refused = (\<lambda>d r. False),
     update_refused = execution_update_refused,
     row_checks = execution_checks,
     row_conflict = (\<lambda>r r'. exec_id r = exec_id r'),
     row_references = (\<lambda>d r. has_participant d (exec_owner r)),
     after_refused = (\<lambda>d r. False)\<rparr>"

subsection \<open>Attempts\<close>

abbreviation attempt_edges :: "(attempt_phase \<times> attempt_phase list) list" where
  "attempt_edges \<equiv> transition_table attempt_members attempt_successors phase_is_sub"

definition attempts_of :: "coordination \<Rightarrow> string \<Rightarrow> attempt list" where
  "attempts_of d x = filter (\<lambda>a. att_execution a = x) (attempts d)"

definition last_ordinal :: "coordination \<Rightarrow> string \<Rightarrow> int" where
  "last_ordinal d x = foldr max (map att_ordinal (attempts_of d x)) 0"

definition attempt_start_open :: "attempt \<Rightarrow> execution \<Rightarrow> bool" where
  "attempt_start_open new e \<longleftrightarrow>
     (att_ordinal new = 1 \<and>
      (exec_status e = PendingExecution \<or>
       (exec_status e = ActiveExecution \<and> exec_ordinal e = Some 1))) \<or>
     (att_ordinal new > 1 \<and>
      (exec_status e = DeferredExecution \<or>
       (exec_status e = ActiveExecution \<and> exec_ordinal e = Some (att_ordinal new))))"

definition attempt_insert_refused :: "coordination \<Rightarrow> attempt \<Rightarrow> bool" where
  "attempt_insert_refused d new \<longleftrightarrow>
     \<not> (\<exists>e \<in> set (executions d). exec_id e = att_execution new \<and> exec_owner e = att_owner new \<and>
          att_ordinal new \<le> exec_max_attempts e \<and> attempt_start_open new e \<and>
          att_ordinal new = 1 + last_ordinal d (exec_id e)) \<or>
     \<not> (\<exists>g \<in> set (owner_generations d). gen_owner g = att_owner new \<and>
          generation g = att_generation new) \<or>
     att_phase new \<noteq> LivePhase PromptStarting \<or> att_revision new \<noteq> 1 \<or>
     backend_done (att_lifecycle new) \<or> process_dead (att_lifecycle new) \<or>
     (att_ordinal new > 1 \<and>
      (\<not> (\<exists>e \<in> set (executions d). exec_id e = att_execution new \<and> basis_authorized d e) \<or>
       (\<exists>p \<in> set (current_executions d). ptr_owner p = att_owner new \<and> ptr_execution p \<noteq> None))) \<or>
     (att_ordinal new > 1 \<and>
      \<not> (\<exists>a \<in> set (attempts d). att_execution a = att_execution new \<and>
           att_ordinal a = att_ordinal new - 1 \<and> permits_retry (att_lifecycle a) \<and>
           backend_done (att_lifecycle a) \<and> process_dead (att_lifecycle a) \<and>
           att_generation a < att_generation new \<and> att_digest a \<noteq> att_digest new))"

definition attempt_update_refused :: "coordination \<Rightarrow> attempt \<Rightarrow> attempt \<Rightarrow> bool" where
  "attempt_update_refused d old new \<longleftrightarrow>
     transitions_violated attempt_edges (\<lambda>r. att_phase r) old new \<or>
     finalized_violated attempt_edges (\<lambda>r. att_phase r) old new \<or>
     incrementing_violated att_revision old new \<or>
     non_decreasing_violated (Some \<circ> att_updated) old new \<or>
     non_decreasing_violated att_progress old new \<or>
     non_decreasing_violated (\<lambda>r. Some (backend_done (att_lifecycle r))) old new \<or>
     non_decreasing_violated (\<lambda>r. Some (process_dead (att_lifecycle r))) old new \<or>
     non_decreasing_when_present_violated (\<lambda>r. lease_expires_at_ms (att_lifecycle r)) old new \<or>
     frozen_violated att_execution old new \<or> frozen_violated att_ordinal old new \<or>
     frozen_violated att_owner old new \<or> frozen_violated att_generation old new \<or>
     frozen_violated att_digest old new \<or> frozen_violated att_created old new"

definition attempt_checks :: "attempt \<Rightarrow> bool" where
  "attempt_checks r \<longleftrightarrow>
     0 < att_ordinal r \<and> 0 < att_generation r \<and> text_within 256 (att_digest r) \<and>
     0 < att_revision r \<and> reason_check (att_reason r) \<and> 0 \<le> att_created r \<and>
     att_created r \<le> att_updated r \<and>
     (case lease_expires_at_ms (att_lifecycle r) of None \<Rightarrow> True | Some l \<Rightarrow> 0 \<le> l) \<and>
     progress_check r"

definition attempts_table :: "(coordination, attempt) table_spec" where
  "attempts_table = \<lparr>table_name = ''attempts'',
     table_rows = attempts, table_put = attempts_update,
     insert_refused = attempt_insert_refused,
     update_refused = attempt_update_refused,
     row_checks = attempt_checks,
     row_conflict = (\<lambda>r r'. (att_execution r = att_execution r' \<and> att_ordinal r = att_ordinal r') \<or>
       att_digest r = att_digest r'),
     row_references = (\<lambda>d r. has_execution d (att_execution r) \<and> has_participant d (att_owner r)),
     after_refused = (\<lambda>d r. False)\<rparr>"


subsection \<open>Wake assignments and links\<close>

abbreviation assignment_edges :: "(assignment_kind \<times> assignment_kind list) list" where
  "assignment_edges \<equiv> transition_table assignment_members assignment_successors (=)"

abbreviation asg_kind :: "assignment \<Rightarrow> assignment_kind" where
  "asg_kind r \<equiv> assignment_kind_of (asg_lifecycle r)"

definition assignment_update_refused :: "coordination \<Rightarrow> assignment \<Rightarrow> assignment \<Rightarrow> bool" where
  "assignment_update_refused d old new \<longleftrightarrow>
     write_once_violated (\<lambda>r. assignment_verdict (asg_lifecycle r)) old new \<or>
     write_once_violated (\<lambda>r. asg_execution r) old new \<or>
     write_once_violated (\<lambda>r. asg_target r) old new \<or>
     first_value_violated (\<lambda>r. asg_execution r) (\<lambda>r. asg_kind r = EngagedAssignment) old new \<or>
     required_violated (\<lambda>r. asg_target r) (\<lambda>r. asg_execution r) old new \<or>
     transitions_violated assignment_edges (\<lambda>r. asg_kind r) old new \<or>
     changes_violated (\<lambda>r. asg_kind r) old new \<or>
     incrementing_violated asg_revision old new \<or>
     non_decreasing_violated (Some \<circ> asg_updated) old new \<or>
     frozen_violated asg_id old new \<or> frozen_violated asg_recipient old new \<or>
     frozen_violated asg_recipient_lookup old new \<or> frozen_violated asg_wire_seq old new \<or>
     frozen_violated asg_message_id old new \<or> frozen_violated asg_audience old new \<or>
     frozen_violated asg_accepted old new \<or> frozen_violated asg_resolver old new \<or>
     frozen_violated asg_policy old new \<or>
     frozen_violated (\<lambda>r. assignment_mode (asg_lifecycle r)) old new"

text \<open>The binding CHECK: an engaged or completed row is bound, a deferred or failed one has an active
  policy and both ids or none, any other row has neither id.\<close>

definition binding_check :: "assignment \<Rightarrow> bool" where
  "binding_check r \<longleftrightarrow>
     (if asg_kind r \<in> {EngagedAssignment, CompletedAssignment}
      then asg_execution r \<noteq> None \<and> asg_target r \<noteq> None
      else if asg_kind r \<in> {DeferredAssignment, FailedAssignment}
      then active_policy (assignment_mode (asg_lifecycle r)) \<and> (asg_execution r = None) = (asg_target r = None)
      else asg_execution r = None \<and> asg_target r = None)"

definition assignment_checks :: "assignment \<Rightarrow> bool" where
  "assignment_checks r \<longleftrightarrow>
     text_within 256 (asg_recipient r) \<and> 0 < asg_wire_seq r \<and> 0 \<le> asg_accepted r \<and>
     asg_accepted r \<le> asg_updated r \<and> 0 < asg_revision r \<and> text_within 256 (asg_resolver r) \<and>
     text_within 256 (asg_policy r) \<and>
     (case asg_target r of None \<Rightarrow> True | Some t \<Rightarrow> text_within 256 t) \<and>
     binding_check r"

definition wake_claims_table :: "(coordination, assignment) table_spec" where
  "wake_claims_table = \<lparr>table_name = ''wake_claims'',
     table_rows = wake_claims, table_put = wake_claims_update,
     insert_refused = (\<lambda>d r. False),
     update_refused = assignment_update_refused,
     row_checks = assignment_checks,
     row_conflict = (\<lambda>r r'. asg_id r = asg_id r' \<or>
       (asg_recipient_lookup r = asg_recipient_lookup r' \<and> asg_wire_seq r = asg_wire_seq r')),
     row_references = (\<lambda>d r. has_participant d (asg_recipient_lookup r) \<and>
       (case asg_execution r of None \<Rightarrow> True | Some x \<Rightarrow> has_execution d x)),
     after_refused = (\<lambda>d r. False)\<rparr>"

definition link_insert_refused :: "coordination \<Rightarrow> link \<Rightarrow> bool" where
  "link_insert_refused d new \<longleftrightarrow>
     \<not> (\<exists>e \<in> set (executions d). exec_id e = link_execution new \<and> unstarted (exec_status e)) \<or>
     link_ordinal new \<noteq> int (length (links_of d (link_execution new))) \<or>
     \<not> (\<exists>e \<in> set (executions d). \<exists>c \<in> set (wake_claims d).
          exec_id e = link_execution new \<and> asg_execution c = Some (exec_id e) \<and>
          asg_id c = link_assignment new \<and> asg_target c \<noteq> None \<and>
          asg_recipient_lookup c = exec_owner e)"

definition execution_claims_table :: "(coordination, link) table_spec" where
  "execution_claims_table = \<lparr>table_name = ''execution_claims'',
     table_rows = execution_claims, table_put = execution_claims_update,
     insert_refused = link_insert_refused,
     update_refused = (\<lambda>d old new. True),
     row_checks = (\<lambda>r. 0 \<le> link_ordinal r),
     row_conflict = (\<lambda>r r'. link_assignment r = link_assignment r' \<or>
       (link_execution r = link_execution r' \<and> link_ordinal r = link_ordinal r')),
     row_references = (\<lambda>d r. has_execution d (link_execution r) \<and>
       (\<exists>c \<in> set (wake_claims d). asg_id c = link_assignment r \<and>
          asg_execution c = Some (link_execution r))),
     after_refused = (\<lambda>d r. False)\<rparr>"

subsection \<open>Replay assessments\<close>

definition replay_update_refused :: "coordination \<Rightarrow> replay \<Rightarrow> replay \<Rightarrow> bool" where
  "replay_update_refused d old new \<longleftrightarrow>
     incrementing_violated rep_revision old new \<or>
     non_decreasing_violated (Some \<circ> rep_effects) old new \<or>
     non_increasing_violated (Some \<circ> rep_safe) old new \<or>
     accumulating_violated rep_facts old new \<or>
     frozen_violated rep_execution old new"

definition replay_checks :: "replay \<Rightarrow> bool" where
  "replay_checks r \<longleftrightarrow>
     0 \<le> rep_facts r \<and> rep_facts r \<le> 1023 \<and> 0 < rep_revision r \<and> (rep_facts r = 0 \<or> \<not> rep_safe r)"

definition replay_assessments_table :: "(coordination, replay) table_spec" where
  "replay_assessments_table = \<lparr>table_name = ''replay_assessments'',
     table_rows = replay_assessments, table_put = replay_assessments_update,
     insert_refused = (\<lambda>d r. False),
     update_refused = replay_update_refused,
     row_checks = replay_checks,
     row_conflict = (\<lambda>r r'. rep_execution r = rep_execution r'),
     row_references = (\<lambda>d r. has_execution d (rep_execution r)),
     after_refused = (\<lambda>d r. retry_partition_violated d (rep_execution r))\<rparr>"

subsection \<open>Obligations\<close>

abbreviation response_edges :: "(response_kind \<times> response_kind list) list" where
  "response_edges \<equiv> transition_table response_members response_successors (=)"

text \<open>An obligation belongs to a wire execution one of whose claims has its target.\<close>

definition wire_route :: "coordination \<Rightarrow> string \<Rightarrow> string \<Rightarrow> bool" where
  "wire_route d x t \<longleftrightarrow>
     (\<exists>e \<in> set (executions d). \<exists>c \<in> set (wake_claims d).
        exec_id e = x \<and> asg_execution c = Some x \<and> exec_origin e = WireOrigin \<and> asg_target c = Some t)"

definition obligation_insert_refused :: "coordination \<Rightarrow> obligation \<Rightarrow> bool" where
  "obligation_insert_refused d new \<longleftrightarrow>
     \<not> wire_route d (obl_execution new) (obl_target new) \<or> requires_intent (obl_state new)"

definition published_receipt :: "coordination \<Rightarrow> obligation \<Rightarrow> bool" where
  "published_receipt d new \<longleftrightarrow>
     (\<exists>r \<in> set (publication_receipts d). evi_execution r = obl_execution new \<and>
        evi_target r = obl_target new \<and>
        published_reference (obl_lifecycle new) = Some (evi_message_id r, evi_seq r))"

definition obligation_update_refused :: "coordination \<Rightarrow> obligation \<Rightarrow> obligation \<Rightarrow> bool" where
  "obligation_update_refused d old new \<longleftrightarrow>
     transitions_violated response_edges (\<lambda>r. obl_state r) old new \<or>
     changes_violated (\<lambda>r. obl_state r) old new \<or>
     incrementing_violated obl_revision old new \<or>
     non_decreasing_violated (Some \<circ> obl_updated) old new \<or>
     (requires_intent (obl_state new) \<and>
      (intent_at d (obl_execution new) (obl_target new) = None \<or>
       (obl_state new = PublishedResponse \<and> \<not> published_receipt d new))) \<or>
     (receipt_at d (obl_execution old) (obl_target old) \<noteq> None \<and> obl_state new \<noteq> PublishedResponse) \<or>
     (intent_at d (obl_execution old) (obl_target old) \<noteq> None \<and> \<not> allows_intent (obl_state new)) \<or>
     frozen_violated obl_execution old new \<or> frozen_violated obl_target old new \<or>
     frozen_violated obl_created old new"

definition obligation_checks :: "obligation \<Rightarrow> bool" where
  "obligation_checks r \<longleftrightarrow>
     text_within 256 (obl_target r) \<and> reason_check (obl_reason r) \<and> 0 \<le> obl_created r \<and>
     obl_created r \<le> obl_updated r \<and> 0 < obl_revision r \<and>
     (case published_reference (obl_lifecycle r) of None \<Rightarrow> True | Some (_, seq) \<Rightarrow> 0 < seq)"

definition obligations_table :: "(coordination, obligation) table_spec" where
  "obligations_table = \<lparr>table_name = ''obligations'',
     table_rows = obligations, table_put = obligations_update,
     insert_refused = obligation_insert_refused,
     update_refused = obligation_update_refused,
     row_checks = obligation_checks,
     row_conflict = (\<lambda>r r'. obl_execution r = obl_execution r' \<and> obl_target r = obl_target r'),
     row_references = (\<lambda>d r. has_execution d (obl_execution r)),
     after_refused = (\<lambda>d r. retry_partition_violated d (obl_execution r))\<rparr>"

subsection \<open>Publication intents and receipts\<close>

definition intent_insert_refused :: "(message \<Rightarrow> string) \<Rightarrow> coordination \<Rightarrow> intent \<Rightarrow> bool" where
  "intent_insert_refused mid d new \<longleftrightarrow>
     \<not> (\<exists>ob \<in> set (obligations d). obl_execution ob = int_execution new \<and>
          obl_target ob = int_target new \<and> obl_state ob = PendingResponse) \<or>
     intent_valid mid new \<noteq> Inr ()"

definition publication_intents_table :: "(message \<Rightarrow> string) \<Rightarrow> (coordination, intent) table_spec" where
  "publication_intents_table mid = \<lparr>table_name = ''publication_intents'',
     table_rows = publication_intents, table_put = publication_intents_update,
     insert_refused = intent_insert_refused mid,
     update_refused = (\<lambda>d old new. True),
     row_checks = (\<lambda>r. execution_id_check (int_execution r) \<and> text_within 256 (int_target r) \<and>
       text_within 256 (int_key r)),
     row_conflict = (\<lambda>r r'. (int_execution r = int_execution r' \<and> int_target r = int_target r') \<or>
       int_key r = int_key r' \<or> int_expected r = int_expected r'),
     row_references = (\<lambda>d r. has_execution d (int_execution r)),
     after_refused = (\<lambda>d r. False)\<rparr>"

definition receipt_insert_refused :: "coordination \<Rightarrow> evidence \<Rightarrow> bool" where
  "receipt_insert_refused d new \<longleftrightarrow>
     (\<exists>e \<in> set (executions d). exec_id e = evi_execution new \<and> exec_status e = FailedExecution) \<or>
     (case intent_at d (evi_execution new) (evi_target new) of
        Some i \<Rightarrow> evi_message_id new \<noteq> int_expected i | None \<Rightarrow> False) \<or>
     \<not> (\<exists>ob \<in> set (obligations d). obl_execution ob = evi_execution new \<and>
          obl_target ob = evi_target new \<and> obl_state ob = PublishingResponse)"

definition publication_receipts_table :: "(coordination, evidence) table_spec" where
  "publication_receipts_table = \<lparr>table_name = ''publication_receipts'',
     table_rows = publication_receipts, table_put = publication_receipts_update,
     insert_refused = receipt_insert_refused,
     update_refused = (\<lambda>d old new. True),
     row_checks = (\<lambda>r. execution_id_check (evi_execution r) \<and> text_within 256 (evi_target r) \<and>
       0 < evi_seq r \<and> 0 \<le> evi_received r),
     row_conflict = (\<lambda>r r'. (evi_execution r = evi_execution r' \<and> evi_target r = evi_target r') \<or>
       evi_seq r = evi_seq r' \<or> evi_message_id r = evi_message_id r'),
     row_references = (\<lambda>d r. intent_at d (evi_execution r) (evi_target r) \<noteq> None),
     after_refused = (\<lambda>d r. False)\<rparr>"

subsection \<open>Recovery audits\<close>

definition recovery_audits_table :: "(coordination, audit) table_spec" where
  "recovery_audits_table = \<lparr>table_name = ''recovery_audit'',
     table_rows = recovery_audits, table_put = recovery_audits_update,
     insert_refused = (\<lambda>d r. False),
     update_refused = (\<lambda>d old new. True),
     row_checks = (\<lambda>r. text_within 64 (aud_reason r) \<and>
       (case aud_detail r of None \<Rightarrow> True | Some t \<Rightarrow> length t \<le> 512) \<and>
       0 < aud_attempt r \<and> 0 \<le> aud_elapsed r \<and> 0 \<le> aud_observed r),
     row_conflict = (\<lambda>r r'. aud_id r = aud_id r'),
     row_references = (\<lambda>d r. has_execution d (aud_execution r) \<and>
       (\<exists>a \<in> set (attempts d). att_execution a = aud_execution r \<and> att_ordinal a = aud_attempt r)),
     after_refused = (\<lambda>d r. False)\<rparr>"

subsection \<open>The tables as stored tables\<close>

interpretation participants_t: stored_table participants_table
  by unfold_locales (simp_all add: participants_table_def)

interpretation owner_generations_t: stored_table owner_generations_table
  by unfold_locales (simp_all add: owner_generations_table_def)

interpretation current_executions_t: stored_table current_executions_table
  by unfold_locales (simp_all add: current_executions_table_def)

interpretation executions_t: stored_table executions_table
  by unfold_locales (simp_all add: executions_table_def)

interpretation attempts_t: stored_table attempts_table
  by unfold_locales (simp_all add: attempts_table_def)

interpretation wake_claims_t: stored_table wake_claims_table
  by unfold_locales (simp_all add: wake_claims_table_def)

interpretation execution_claims_t: stored_table execution_claims_table
  by unfold_locales (simp_all add: execution_claims_table_def)

interpretation replay_assessments_t: stored_table replay_assessments_table
  by unfold_locales (simp_all add: replay_assessments_table_def)

interpretation obligations_t: stored_table obligations_table
  by unfold_locales (simp_all add: obligations_table_def)

interpretation publication_intents_t: stored_table "publication_intents_table mid" for mid
  by unfold_locales (simp_all add: publication_intents_table_def)

interpretation publication_receipts_t: stored_table publication_receipts_table
  by unfold_locales (simp_all add: publication_receipts_table_def)

interpretation recovery_audits_t: stored_table recovery_audits_table
  by unfold_locales (simp_all add: recovery_audits_table_def)

lemmas table_defs = participants_table_def owner_generations_table_def current_executions_table_def
  executions_table_def attempts_table_def wake_claims_table_def execution_claims_table_def
  replay_assessments_table_def obligations_table_def publication_intents_table_def
  publication_receipts_table_def recovery_audits_table_def

subsection \<open>Deferred foreign keys\<close>

text \<open>The foreign keys declared \<open>DEFERRABLE INITIALLY DEFERRED\<close>, checked when a transaction commits.
  A key with a \<open>NULL\<close> column is not checked.\<close>

definition attempt_supported :: "coordination \<Rightarrow> attempt \<Rightarrow> bool" where
  "attempt_supported d a \<longleftrightarrow>
     (\<not> terminal_attempt (att_phase a) \<longrightarrow>
      (\<exists>e \<in> set (executions d). exec_id e = att_execution a \<and> exec_ordinal e = Some (att_ordinal a) \<and>
         exec_owner e = att_owner a \<and> exec_status e = ActiveExecution))"

definition pointer_supported :: "coordination \<Rightarrow> current_execution \<Rightarrow> bool" where
  "pointer_supported d p \<longleftrightarrow>
     (case (ptr_execution p, ptr_attempt p) of
        (Some x, Some n) \<Rightarrow>
          (\<exists>e \<in> set (executions d). exec_id e = x \<and> exec_ordinal e = Some n \<and>
             exec_owner e = ptr_owner p \<and> exec_status e = ActiveExecution) \<and>
          (\<exists>a \<in> set (attempts d). att_execution a = x \<and> att_ordinal a = n \<and>
             att_owner a = ptr_owner p \<and> \<not> terminal_attempt (att_phase a))
      | _ \<Rightarrow> True)"

definition execution_supported :: "coordination \<Rightarrow> execution \<Rightarrow> bool" where
  "execution_supported d e \<longleftrightarrow>
     (exec_status e = ActiveExecution \<longrightarrow>
        (\<exists>a \<in> set (attempts d). att_execution a = exec_id e \<and> Some (att_ordinal a) = exec_ordinal e \<and>
           att_owner a = exec_owner e \<and> \<not> terminal_attempt (att_phase a)) \<and>
        (\<exists>p \<in> set (current_executions d). ptr_owner p = exec_owner e \<and>
           ptr_execution p = Some (exec_id e) \<and> ptr_attempt p = exec_ordinal e)) \<and>
     (exec_status e = CompletedExecution \<longrightarrow>
        (\<exists>a \<in> set (attempts d). att_execution a = exec_id e \<and> Some (att_ordinal a) = exec_ordinal e \<and>
           att_owner a = exec_owner e \<and> att_phase a = TerminalPhase Succeeded)) \<and>
     (exec_origin e = WireOrigin \<longrightarrow>
        (\<exists>l \<in> set (execution_claims d). link_execution l = exec_id e \<and> link_ordinal l = 0)) \<and>
     (exec_status e = DeferredExecution \<longrightarrow> exec_ordinal e \<noteq> None \<longrightarrow>
        (\<exists>r \<in> set (replay_assessments d). rep_execution r = exec_id e \<and> replay_allows_retry r))"

definition claim_status_kind :: "execution_kind \<Rightarrow> assignment_kind" where
  "claim_status_kind k =
     (if engaged_execution k then EngagedAssignment
      else if k = CompletedExecution then CompletedAssignment
      else if k = DeferredExecution then DeferredAssignment else FailedAssignment)"

definition claim_supported :: "coordination \<Rightarrow> assignment \<Rightarrow> bool" where
  "claim_supported d c \<longleftrightarrow>
     (case asg_execution c of
        None \<Rightarrow> True
      | Some x \<Rightarrow>
          (case asg_target c of None \<Rightarrow> True
           | Some t \<Rightarrow> \<exists>ob \<in> set (obligations d). obl_execution ob = x \<and> obl_target ob = t) \<and>
          (\<exists>l \<in> set (execution_claims d). link_execution l = x \<and> link_assignment l = asg_id c) \<and>
          (\<exists>e \<in> set (executions d). exec_id e = x \<and> claim_status_kind (exec_status e) = asg_kind c))"

definition intent_supported :: "coordination \<Rightarrow> intent \<Rightarrow> bool" where
  "intent_supported d i \<longleftrightarrow>
     (\<exists>ob \<in> set (obligations d). obl_execution ob = int_execution i \<and> obl_target ob = int_target i \<and>
        allows_intent (obl_state ob))"

definition receipt_supported :: "coordination \<Rightarrow> evidence \<Rightarrow> bool" where
  "receipt_supported d r \<longleftrightarrow>
     (\<exists>ob \<in> set (obligations d). obl_execution ob = evi_execution r \<and> obl_target ob = evi_target r \<and>
        obl_state ob = PublishedResponse)"

definition deferred_ok :: "coordination \<Rightarrow> bool" where
  "deferred_ok d \<longleftrightarrow>
     (\<forall>a \<in> set (attempts d). attempt_supported d a) \<and>
     (\<forall>p \<in> set (current_executions d). pointer_supported d p) \<and>
     (\<forall>e \<in> set (executions d). execution_supported d e) \<and>
     (\<forall>c \<in> set (wake_claims d). claim_supported d c) \<and>
     (\<forall>i \<in> set (publication_intents d). intent_supported d i) \<and>
     (\<forall>r \<in> set (publication_receipts d). receipt_supported d r)"

lemma claim_status_kind_eq [simp]: "claim_status_kind k = execution_assignment_state k"
  by (cases k) (simp_all add: claim_status_kind_def engaged_execution_def)

lemma deferred_ok_empty: "deferred_ok empty_coordination"
  by (simp add: deferred_ok_def empty_coordination_def)

end
