(* ===== verification/Coordinator_Steps.thy ===== *)
theory Coordinator_Steps
  imports Coordinator_Schema
begin

text \<open>
  The coordinator as a state machine.  \<open>statement\<close> has one rule per INSERT or UPDATE the Python
  code issues on a coordinator table: the row write must be accepted by the schema, and the extra
  premises are what the code at every call site of that statement provides (a new execution is
  queued, a new claim is unbound, a new obligation is pending and belongs to a queued execution, a
  completed or failed execution is not written again, and so on).  A transaction is a sequence of statements whose end satisfies the deferred foreign
  keys; \<open>reachable\<close> are the committed states.  The last part shows that stored history only grows:
  identities are frozen, a row that changes has a greater revision, terminal rows never change and
  evidence is never removed.
\<close>

subsection \<open>Statements\<close>

definition unstarted_execution_row :: "coordination \<Rightarrow> string \<Rightarrow> bool" where
  "unstarted_execution_row d x \<longleftrightarrow>
     (\<forall>e \<in> set (executions d). exec_id e = x \<longrightarrow> exec_lifecycle e = QueuedE)"

text \<open>An obligation of an execution deferred after an attempt is only rewritten to a retryable
  state.\<close>

definition obligation_scope :: "coordination \<Rightarrow> obligation \<Rightarrow> bool" where
  "obligation_scope d new \<longleftrightarrow>
     retryable (obl_state new) \<or>
     (\<forall>e \<in> set (executions d). exec_id e = obl_execution new \<longrightarrow> exec_status e \<noteq> DeferredExecution)"

definition registered_owner :: "coordination \<Rightarrow> string \<Rightarrow> bool" where
  "registered_owner d p \<longleftrightarrow>
     (\<exists>g \<in> set (owner_generations d). gen_owner g = p) \<and>
     (\<exists>q \<in> set (current_executions d). ptr_owner q = p)"

abbreviation closed_execution :: "execution \<Rightarrow> bool" where
  "closed_execution e \<equiv> has_capability execution_capabilities (exec_status e) Terminal"

inductive statement :: "(message \<Rightarrow> string) \<Rightarrow> coordination \<Rightarrow> coordination \<Rightarrow> bool"
  for mid :: "message \<Rightarrow> string" where
  insert_participant: "insert_row participants_table r d = Inr d' \<Longrightarrow> statement mid d d'"
| update_participant: "i < length (participants d) \<Longrightarrow>
    update_row participants_table i r d = Inr d' \<Longrightarrow> statement mid d d'"
| insert_generation: "generation r = 1 \<Longrightarrow>
    insert_row owner_generations_table r d = Inr d' \<Longrightarrow> statement mid d d'"
| update_generation: "i < length (owner_generations d) \<Longrightarrow>
    update_row owner_generations_table i r d = Inr d' \<Longrightarrow> statement mid d d'"
| insert_pointer: "ptr_execution r = None \<Longrightarrow>
    insert_row current_executions_table r d = Inr d' \<Longrightarrow> statement mid d d'"
| update_pointer: "i < length (current_executions d) \<Longrightarrow>
    update_row current_executions_table i r d = Inr d' \<Longrightarrow> statement mid d d'"
| insert_execution: "exec_lifecycle r = QueuedE \<Longrightarrow> registered_owner d (exec_owner r) \<Longrightarrow>
    insert_row executions_table r d = Inr d' \<Longrightarrow> statement mid d d'"
| update_execution: "i < length (executions d) \<Longrightarrow> \<not> closed_execution (executions d ! i) \<Longrightarrow>
    update_row executions_table i r d = Inr d' \<Longrightarrow> statement mid d d'"
| insert_attempt: "insert_row attempts_table r d = Inr d' \<Longrightarrow> statement mid d d'"
| update_attempt: "i < length (attempts d) \<Longrightarrow>
    update_row attempts_table i r d = Inr d' \<Longrightarrow> statement mid d d'"
| insert_claim: "assignment_row_valid r = Inr () \<Longrightarrow> asg_execution r = None \<Longrightarrow>
    insert_row wake_claims_table r d = Inr d' \<Longrightarrow> statement mid d d'"
| update_claim: "i < length (wake_claims d) \<Longrightarrow> assignment_valid (asg_lifecycle r) \<Longrightarrow>
    update_row wake_claims_table i r d = Inr d' \<Longrightarrow> statement mid d d'"
| insert_link: "insert_row execution_claims_table r d = Inr d' \<Longrightarrow> statement mid d d'"
| insert_replay: "insert_row replay_assessments_table r d = Inr d' \<Longrightarrow> statement mid d d'"
| update_replay: "i < length (replay_assessments d) \<Longrightarrow>
    update_row replay_assessments_table i r d = Inr d' \<Longrightarrow> statement mid d d'"
| insert_obligation: "obl_lifecycle r = PendingR \<Longrightarrow> unstarted_execution_row d (obl_execution r) \<Longrightarrow>
    insert_row obligations_table r d = Inr d' \<Longrightarrow> statement mid d d'"
| update_obligation: "i < length (obligations d) \<Longrightarrow> obligation_scope d r \<Longrightarrow>
    update_row obligations_table i r d = Inr d' \<Longrightarrow> statement mid d d'"
| insert_intent: "insert_row (publication_intents_table mid) r d = Inr d' \<Longrightarrow> statement mid d d'"
| insert_receipt: "insert_row publication_receipts_table r d = Inr d' \<Longrightarrow> statement mid d d'"
| insert_audit: "insert_row recovery_audits_table r d = Inr d' \<Longrightarrow> statement mid d d'"

text \<open>A transaction runs statements and commits when no deferred foreign key is violated.\<close>

inductive reachable :: "(message \<Rightarrow> string) \<Rightarrow> coordination \<Rightarrow> bool"
  for mid :: "message \<Rightarrow> string" where
  initial: "reachable mid empty_coordination"
| commit: "reachable mid d \<Longrightarrow> (statement mid)\<^sup>*\<^sup>* d d' \<Longrightarrow> deferred_ok d' \<Longrightarrow> reachable mid d'"

lemma reachable_deferred_ok: "reachable mid d \<Longrightarrow> deferred_ok d"
  by (induction rule: reachable.induct) (simp_all add: deferred_ok_empty)

text \<open>An invariant of the statements that holds of the empty database holds of every committed one.\<close>

lemma reachable_invariant:
  assumes "reachable mid d" "P empty_coordination"
    and step: "\<And>d d'. statement mid d d' \<Longrightarrow> P d \<Longrightarrow> P d'"
  shows "P d"
  using assms(1)
proof (induction rule: reachable.induct)
  case initial
  show ?case by (rule assms(2))
next
  case (commit d d')
  from commit(2,4) show ?case
    by (induction rule: rtranclp_induct) (auto intro: step)
qed

subsection \<open>Evolving rows\<close>

text \<open>Rows are never deleted: each stored row persists, related by \<open>V\<close> to what it was.\<close>

definition evolves :: "('r \<Rightarrow> 'r \<Rightarrow> bool) \<Rightarrow> 'r list \<Rightarrow> 'r list \<Rightarrow> bool" where
  "evolves V rows rows' \<longleftrightarrow>
     length rows \<le> length rows' \<and> (\<forall>i < length rows. V (rows ! i) (rows' ! i))"

lemma evolves_refl: "(\<And>r. V r r) \<Longrightarrow> evolves V rows rows"
  by (simp add: evolves_def)

lemma evolves_append: "(\<And>r. V r r) \<Longrightarrow> evolves V rows (rows @ [r])"
  by (simp add: evolves_def nth_append)

lemma evolves_update: "(\<And>r. V r r) \<Longrightarrow> V (rows ! i) r \<Longrightarrow> evolves V rows (rows[i := r])"
  unfolding evolves_def by (metis le_refl length_list_update nth_list_update nth_list_update_neq)

lemma evolves_trans: "transp V \<Longrightarrow> evolves V xs ys \<Longrightarrow> evolves V ys zs \<Longrightarrow> evolves V xs zs"
  unfolding evolves_def transp_def by (meson le_trans less_le_trans)

lemma evolves_persist:
  assumes "evolves V rows rows'" "r \<in> set rows"
  shows "\<exists>r' \<in> set rows'. V r r'"
  using assms by (metis evolves_def in_set_conv_nth less_le_trans)

lemma evolves_eq_subset: "evolves (=) rows rows' \<Longrightarrow> set rows \<subseteq> set rows'"
  using evolves_persist by fastforce

text \<open>A row that is not as it was has a greater revision.\<close>

definition revised :: "('r \<Rightarrow> int) \<Rightarrow> 'r \<Rightarrow> 'r \<Rightarrow> bool" where
  "revised revision r r' \<longleftrightarrow> r' = r \<or> revision r < revision r'"

lemma revised_refl [simp]: "revised revision r r"
  by (simp add: revised_def)

lemma revised_trans: "revised revision r1 r2 \<Longrightarrow> revised revision r2 r3 \<Longrightarrow> revised revision r1 r3"
  by (auto simp: revised_def)

lemma revised_next: "\<not> incrementing_violated revision old new \<Longrightarrow> revised revision old new"
  by (simp add: revised_def incrementing_violated_def)

definition progressed :: "int option \<Rightarrow> int option \<Rightarrow> bool" where
  "progressed t t' \<longleftrightarrow> (case t of None \<Rightarrow> True | Some n \<Rightarrow> (case t' of None \<Rightarrow> False | Some m \<Rightarrow> n \<le> m))"

lemma progressed_refl [simp]: "progressed t t"
  by (simp add: progressed_def split: option.split)

lemma progressed_trans: "progressed t1 t2 \<Longrightarrow> progressed t2 t3 \<Longrightarrow> progressed t1 t3"
  by (auto simp: progressed_def split: option.splits)

definition participant_kept :: "participant \<Rightarrow> participant \<Rightarrow> bool" where
  "participant_kept r r' \<longleftrightarrow> participant_lookup r' = participant_lookup r \<and> (committed r \<longrightarrow> committed r')"

definition generation_kept :: "owner_generation \<Rightarrow> owner_generation \<Rightarrow> bool" where
  "generation_kept r r' \<longleftrightarrow> gen_owner r' = gen_owner r \<and> generation r \<le> generation r'"

definition pointer_kept :: "current_execution \<Rightarrow> current_execution \<Rightarrow> bool" where
  "pointer_kept r r' \<longleftrightarrow> ptr_owner r' = ptr_owner r \<and> revised ptr_revision r r'"

definition execution_kept :: "execution \<Rightarrow> execution \<Rightarrow> bool" where
  "execution_kept r r' \<longleftrightarrow>
     exec_id r' = exec_id r \<and> exec_origin r' = exec_origin r \<and> exec_owner r' = exec_owner r \<and>
     exec_max_attempts r' = exec_max_attempts r \<and> exec_created r' = exec_created r \<and>
     revised exec_revision r r' \<and> exec_updated r \<le> exec_updated r' \<and>
     ordinal_or_zero (exec_ordinal r) \<le> ordinal_or_zero (exec_ordinal r') \<and>
     (exec_status r' = QueuedExecution \<longrightarrow> exec_status r = QueuedExecution) \<and>
     (closed_execution r \<longrightarrow> r' = r)"

definition attempt_kept :: "attempt \<Rightarrow> attempt \<Rightarrow> bool" where
  "attempt_kept r r' \<longleftrightarrow>
     att_execution r' = att_execution r \<and> att_ordinal r' = att_ordinal r \<and>
     att_owner r' = att_owner r \<and> att_generation r' = att_generation r \<and>
     att_digest r' = att_digest r \<and> att_created r' = att_created r \<and>
     revised att_revision r r' \<and> att_updated r \<le> att_updated r' \<and>
     progressed (att_progress r) (att_progress r') \<and>
     (backend_done (att_lifecycle r) \<longrightarrow> backend_done (att_lifecycle r')) \<and>
     (process_dead (att_lifecycle r) \<longrightarrow> process_dead (att_lifecycle r')) \<and>
     (terminal_attempt (att_phase r) \<longrightarrow> r' = r)"

definition claim_kept :: "assignment \<Rightarrow> assignment \<Rightarrow> bool" where
  "claim_kept r r' \<longleftrightarrow>
     asg_id r' = asg_id r \<and> asg_recipient r' = asg_recipient r \<and>
     asg_recipient_lookup r' = asg_recipient_lookup r \<and> asg_wire_seq r' = asg_wire_seq r \<and>
     asg_message_id r' = asg_message_id r \<and> asg_audience r' = asg_audience r \<and>
     asg_accepted r' = asg_accepted r \<and> asg_resolver r' = asg_resolver r \<and>
     asg_policy r' = asg_policy r \<and> revised asg_revision r r' \<and> asg_updated r \<le> asg_updated r' \<and>
     assignment_mode (asg_lifecycle r') = assignment_mode (asg_lifecycle r) \<and>
     (asg_execution r \<noteq> None \<longrightarrow> asg_execution r' = asg_execution r) \<and>
     (asg_target r \<noteq> None \<longrightarrow> asg_target r' = asg_target r) \<and>
     (has_capability assignment_capabilities (asg_kind r) Terminal \<longrightarrow> r' = r)"

definition replay_kept :: "replay \<Rightarrow> replay \<Rightarrow> bool" where
  "replay_kept r r' \<longleftrightarrow>
     rep_execution r' = rep_execution r \<and> revised rep_revision r r' \<and> or (rep_facts r') (rep_facts r) = rep_facts r' \<and>
     (rep_safe r' \<longrightarrow> rep_safe r) \<and> (rep_effects r \<longrightarrow> rep_effects r')"

definition obligation_kept :: "obligation \<Rightarrow> obligation \<Rightarrow> bool" where
  "obligation_kept r r' \<longleftrightarrow>
     obl_execution r' = obl_execution r \<and> obl_target r' = obl_target r \<and>
     obl_created r' = obl_created r \<and> revised obl_revision r r' \<and> obl_updated r \<le> obl_updated r' \<and>
     (has_capability response_capabilities (obl_state r) Terminal \<longrightarrow> r' = r)"

definition history_kept :: "coordination \<Rightarrow> coordination \<Rightarrow> bool" where
  "history_kept d d' \<longleftrightarrow>
     evolves participant_kept (participants d) (participants d') \<and>
     evolves generation_kept (owner_generations d) (owner_generations d') \<and>
     evolves pointer_kept (current_executions d) (current_executions d') \<and>
     evolves execution_kept (executions d) (executions d') \<and>
     evolves attempt_kept (attempts d) (attempts d') \<and>
     evolves claim_kept (wake_claims d) (wake_claims d') \<and>
     evolves (=) (execution_claims d) (execution_claims d') \<and>
     evolves replay_kept (replay_assessments d) (replay_assessments d') \<and>
     evolves obligation_kept (obligations d) (obligations d') \<and>
     evolves (=) (publication_intents d) (publication_intents d') \<and>
     evolves (=) (publication_receipts d) (publication_receipts d') \<and>
     evolves (=) (recovery_audits d) (recovery_audits d')"

lemmas kept_defs = participant_kept_def generation_kept_def pointer_kept_def execution_kept_def
  attempt_kept_def claim_kept_def replay_kept_def obligation_kept_def

lemma kept_refl [simp]:
  "participant_kept a a" "generation_kept b b" "pointer_kept c c" "execution_kept e e"
  "attempt_kept f f" "claim_kept g g" "replay_kept h h" "obligation_kept k k"
  by (simp_all add: kept_defs)

lemma kept_transp:
  "transp participant_kept" "transp generation_kept" "transp pointer_kept"
  by (auto simp: kept_defs transp_def intro: revised_trans)

lemma execution_kept_transp: "transp execution_kept"
proof (rule transpI)
  fix e1 e2 e3
  assume 1: "execution_kept e1 e2" and 2: "execution_kept e2 e3"
  have "exec_updated e1 \<le> exec_updated e3" "revised exec_revision e1 e3"
    "ordinal_or_zero (exec_ordinal e1) \<le> ordinal_or_zero (exec_ordinal e3)"
    using 1 2 revised_trans [of exec_revision e1 e2 e3] unfolding execution_kept_def by linarith+
  with 1 2 show "execution_kept e1 e3" unfolding execution_kept_def by metis
qed

lemma attempt_kept_transp: "transp attempt_kept"
proof (rule transpI)
  fix a1 a2 a3
  assume 1: "attempt_kept a1 a2" and 2: "attempt_kept a2 a3"
  have "revised att_revision a1 a3" "att_updated a1 \<le> att_updated a3"
    "progressed (att_progress a1) (att_progress a3)"
    using 1 2 revised_trans [of att_revision a1 a2 a3] progressed_trans [of "att_progress a1"]
    unfolding attempt_kept_def by (blast intro: order_trans)+
  with 1 2 show "attempt_kept a1 a3" unfolding attempt_kept_def by metis
qed

lemma claim_kept_transp: "transp claim_kept"
proof (rule transpI)
  fix c1 c2 c3
  assume 1: "claim_kept c1 c2" and 2: "claim_kept c2 c3"
  have "revised asg_revision c1 c3" "asg_updated c1 \<le> asg_updated c3"
    using 1 2 revised_trans [of asg_revision c1 c2 c3] unfolding claim_kept_def by (blast intro: order_trans)+
  with 1 2 show "claim_kept c1 c3" unfolding claim_kept_def by metis
qed

lemma obligation_kept_transp: "transp obligation_kept"
proof (rule transpI)
  fix k1 k2 k3
  assume 1: "obligation_kept k1 k2" and 2: "obligation_kept k2 k3"
  have "revised obl_revision k1 k3" "obl_updated k1 \<le> obl_updated k3"
    using 1 2 revised_trans [of obl_revision k1 k2 k3] unfolding obligation_kept_def by (blast intro: order_trans)+
  with 1 2 show "obligation_kept k1 k3" unfolding obligation_kept_def by metis
qed

lemma replay_kept_transp: "transp replay_kept"
proof (rule transpI)
  fix h1 h2 h3
  assume 1: "replay_kept h1 h2" and 2: "replay_kept h2 h3"
  have "or (rep_facts h3) (rep_facts h1) = or (or (rep_facts h3) (rep_facts h2)) (rep_facts h1)"
    using 2 by (simp add: replay_kept_def)
  also have "\<dots> = or (rep_facts h3) (or (rep_facts h2) (rep_facts h1))" by (rule or.assoc)
  also have "\<dots> = rep_facts h3" using 1 2 by (simp add: replay_kept_def)
  finally show "replay_kept h1 h3"
    using 1 2 revised_trans [of rep_revision h1 h2 h3] by (auto simp: replay_kept_def)
qed

lemma eq_transp: "transp (=)"
  by (simp add: transp_def)

lemma history_refl: "history_kept d d"
  by (simp add: history_kept_def evolves_refl)

lemma history_trans: "history_kept d1 d2 \<Longrightarrow> history_kept d2 d3 \<Longrightarrow> history_kept d1 d3"
  unfolding history_kept_def
  by (elim conjE, intro conjI)
     (erule (1) evolves_trans [rotated], simp add: kept_transp execution_kept_transp
       attempt_kept_transp claim_kept_transp replay_kept_transp obligation_kept_transp eq_transp)+

subsection \<open>What the triggers admit\<close>

lemma execution_update_kept:
  assumes "\<not> execution_update_refused d old new" "\<not> closed_execution old"
  shows "execution_kept old new"
proof -
  have edge: "exec_status old = exec_status new \<or>
      may_become execution_successors (=) (exec_status old) (exec_status new)"
    and ordinal: "accepts_previous (exec_lifecycle new) (exec_lifecycle old)"
    using assms(1)
    by (auto simp: execution_update_refused_def transitions_violated_def ordinal_violated_def
          executions.table_edge_iff)
  have queued: "exec_status new = QueuedExecution \<longrightarrow> exec_status old = QueuedExecution"
    using edge by (cases "exec_status old") (auto simp: may_become_def)
  have "ordinal_or_zero (exec_ordinal old) \<le> ordinal_or_zero (exec_ordinal new)"
    using accepted_ordinal_steps [OF ordinal] by simp
  moreover have "revised exec_revision old new" "exec_updated old \<le> exec_updated new"
    "exec_id new = exec_id old" "exec_origin new = exec_origin old" "exec_owner new = exec_owner old"
    "exec_max_attempts new = exec_max_attempts old" "exec_created new = exec_created old"
    using assms(1) by (simp_all add: execution_update_refused_def trigger_defs revised_def)
  ultimately show ?thesis using queued assms(2) unfolding execution_kept_def by blast
qed

text \<open>A closed execution has no successor, so a row that is open after the write was open before.\<close>

lemma execution_update_open:
  assumes "\<not> execution_update_refused d old new" "\<not> closed_execution new"
  shows "\<not> closed_execution old"
  using assms executions.terminal_no_edge
  by (auto simp: execution_update_refused_def transitions_violated_def executions.table_edge_iff)

lemma attempt_update_kept:
  assumes "\<not> attempt_update_refused d old new"
  shows "attempt_kept old new \<and> \<not> terminal_attempt (att_phase old)"
proof -
  have "\<not> terminal_attempt (att_phase old)"
  proof
    assume t: "terminal_attempt (att_phase old)"
    then have "table_closed attempt_edges (att_phase old)"
      by (simp add: attempts.table_closed_iff terminal_attempt_def del: terminal_attempt_iff)
    moreover have "\<not> table_edge attempt_edges (att_phase old) (att_phase new)"
      using t attempts.terminal_no_edge
      by (simp add: attempts.table_edge_iff terminal_attempt_def del: terminal_attempt_iff)
    ultimately show False
      using assms by (auto simp: attempt_update_refused_def finalized_violated_def transitions_violated_def)
  qed
  with assms show ?thesis
    by (auto simp: attempt_kept_def attempt_update_refused_def trigger_defs revised_def progressed_def
        split: option.splits)
qed

lemma claim_update_kept:
  assumes "\<not> assignment_update_refused d old new"
  shows "claim_kept old new \<and> asg_kind new \<in> set (assignment_successors (asg_kind old))"
proof -
  have edge: "may_become assignment_successors (=) (asg_kind old) (asg_kind new)"
    using assms
    by (auto simp: assignment_update_refused_def transitions_violated_def changes_violated_def
          assignments.table_edge_iff)
  then have "\<not> has_capability assignment_capabilities (asg_kind old) Terminal"
    using assignments.terminal_no_edge by blast
  with assms edge show ?thesis
    by (auto simp: claim_kept_def assignment_update_refused_def trigger_defs may_become_def revised_def)
qed

lemma replay_update_kept: "\<not> replay_update_refused d old new \<Longrightarrow> replay_kept old new"
  by (auto simp: replay_kept_def replay_update_refused_def trigger_defs revised_def)

lemma obligation_update_kept:
  assumes "\<not> obligation_update_refused d old new"
  shows "obligation_kept old new \<and> obl_state new \<in> set (response_successors (obl_state old))"
proof -
  have edge: "may_become response_successors (=) (obl_state old) (obl_state new)"
    using assms
    unfolding obligation_update_refused_def transitions_violated_def changes_violated_def
      responses.table_edge_iff by blast
  then have "\<not> has_capability response_capabilities (obl_state old) Terminal"
    using responses.terminal_no_edge by blast
  with assms edge show ?thesis
    by (auto simp: obligation_kept_def obligation_update_refused_def trigger_defs revised_def)
qed

lemma statement_history:
  assumes "statement mid d d'"
  shows "history_kept d d'"
  using assms
proof cases
  case (update_execution i r)
  then show ?thesis
    using execution_update_kept [of d "executions d ! i" r]
    by (auto simp: update_row_Inr executions_table_def history_kept_def evolves_refl evolves_update)
next
  case (update_attempt i r)
  then show ?thesis
    using attempt_update_kept [of d "attempts d ! i" r]
    by (auto simp: update_row_Inr attempts_table_def history_kept_def evolves_refl evolves_update)
next
  case (update_claim i r)
  then show ?thesis
    using claim_update_kept [of d "wake_claims d ! i" r]
    by (auto simp: update_row_Inr wake_claims_table_def history_kept_def evolves_refl evolves_update)
next
  case (update_replay i r)
  then show ?thesis
    using replay_update_kept [of d "replay_assessments d ! i" r]
    by (auto simp: update_row_Inr replay_assessments_table_def history_kept_def evolves_refl
          evolves_update)
next
  case (update_obligation i r)
  then show ?thesis
    using obligation_update_kept [of d "obligations d ! i" r]
    by (auto simp: update_row_Inr obligations_table_def history_kept_def evolves_refl evolves_update)
next
  case (update_participant i r)
  then show ?thesis
    by (auto simp: update_row_Inr participants_table_def history_kept_def evolves_refl
          participant_kept_def trigger_defs intro!: evolves_update)
next
  case (update_generation i r)
  then show ?thesis
    by (auto simp: update_row_Inr owner_generations_table_def history_kept_def evolves_refl
          generation_kept_def trigger_defs intro!: evolves_update)
next
  case (update_pointer i r)
  then show ?thesis
    by (auto simp: update_row_Inr current_executions_table_def history_kept_def evolves_refl
          pointer_kept_def trigger_defs revised_def intro!: evolves_update)
qed (auto simp: insert_row_Inr table_defs history_kept_def evolves_refl evolves_append)

lemma statements_history:
  assumes "(statement mid)\<^sup>*\<^sup>* d d'"
  shows "history_kept d d'"
  using assms
  by (induction rule: rtranclp_induct) (auto intro: history_refl history_trans statement_history)

end
