(* ===== verification/Coordinator_Invariants.thy ===== *)
theory Coordinator_Invariants
  imports Coordinator_Steps
begin

text \<open>
  What holds in every state the coordinator can reach, statement by statement: stored rows satisfy
  their constraints, references point at rows, attempts are numbered without gaps and chained by
  failed predecessors, links are numbered in order, publication evidence agrees with the frozen
  intents, and the terminal states of executions agree with their obligations and attempts.  Every
  invariant is shown on its own; \<open>coordinator_sound\<close> is their conjunction and the theorems at the
  end collect what follows for committed databases.
\<close>

subsection \<open>Which statement changes a table\<close>

lemma participants_change:
  assumes "statement mid d d'"
  shows "participants d' = participants d \<or>
    (\<exists>r. insert_row participants_table r d = Inr d') \<or>
    (\<exists>i r. i < length (participants d) \<and> update_row participants_table i r d = Inr d')"
  using assms by cases (blast | simp add: insert_row_Inr update_row_Inr table_defs)+

lemma generations_change:
  assumes "statement mid d d'"
  shows "owner_generations d' = owner_generations d \<or>
    (\<exists>r. generation r = 1 \<and> insert_row owner_generations_table r d = Inr d') \<or>
    (\<exists>i r. i < length (owner_generations d) \<and> update_row owner_generations_table i r d = Inr d')"
  using assms by cases (blast | simp add: insert_row_Inr update_row_Inr table_defs)+

lemma pointers_change:
  assumes "statement mid d d'"
  shows "current_executions d' = current_executions d \<or>
    (\<exists>r. ptr_execution r = None \<and> insert_row current_executions_table r d = Inr d') \<or>
    (\<exists>i r. i < length (current_executions d) \<and> update_row current_executions_table i r d = Inr d')"
  using assms by cases (blast | simp add: insert_row_Inr update_row_Inr table_defs)+

lemma executions_change:
  assumes "statement mid d d'"
  shows "executions d' = executions d \<or>
    (\<exists>r. exec_lifecycle r = QueuedE \<and> registered_owner d (exec_owner r) \<and>
       insert_row executions_table r d = Inr d') \<or>
    (\<exists>i r. i < length (executions d) \<and> \<not> closed_execution (executions d ! i) \<and>
       update_row executions_table i r d = Inr d')"
  using assms by cases (blast | simp add: insert_row_Inr update_row_Inr table_defs)+

lemma attempts_change:
  assumes "statement mid d d'"
  shows "attempts d' = attempts d \<or>
    (\<exists>r. insert_row attempts_table r d = Inr d') \<or>
    (\<exists>i r. i < length (attempts d) \<and> update_row attempts_table i r d = Inr d')"
  using assms by cases (blast | simp add: insert_row_Inr update_row_Inr table_defs)+

lemma claims_change:
  assumes "statement mid d d'"
  shows "wake_claims d' = wake_claims d \<or>
    (\<exists>r. assignment_row_valid r = Inr () \<and> asg_execution r = None \<and>
       insert_row wake_claims_table r d = Inr d') \<or>
    (\<exists>i r. i < length (wake_claims d) \<and> assignment_valid (asg_lifecycle r) \<and>
       update_row wake_claims_table i r d = Inr d')"
  using assms by cases (blast | simp add: insert_row_Inr update_row_Inr table_defs)+

lemma links_change:
  assumes "statement mid d d'"
  shows "execution_claims d' = execution_claims d \<or>
    (\<exists>r. insert_row execution_claims_table r d = Inr d')"
  using assms by cases (blast | simp add: insert_row_Inr update_row_Inr table_defs)+

lemma replays_change:
  assumes "statement mid d d'"
  shows "replay_assessments d' = replay_assessments d \<or>
    (\<exists>r. insert_row replay_assessments_table r d = Inr d') \<or>
    (\<exists>i r. i < length (replay_assessments d) \<and> update_row replay_assessments_table i r d = Inr d')"
  using assms by cases (blast | simp add: insert_row_Inr update_row_Inr table_defs)+

lemma obligations_change:
  assumes "statement mid d d'"
  shows "obligations d' = obligations d \<or>
    (\<exists>r. obl_lifecycle r = PendingR \<and> unstarted_execution_row d (obl_execution r) \<and>
       insert_row obligations_table r d = Inr d') \<or>
    (\<exists>i r. i < length (obligations d) \<and> obligation_scope d r \<and>
       update_row obligations_table i r d = Inr d')"
  using assms by cases (blast | simp add: insert_row_Inr update_row_Inr table_defs)+

lemma intents_change:
  assumes "statement mid d d'"
  shows "publication_intents d' = publication_intents d \<or>
    (\<exists>r. insert_row (publication_intents_table mid) r d = Inr d')"
  using assms by cases (blast | simp add: insert_row_Inr update_row_Inr table_defs)+

lemma receipts_change:
  assumes "statement mid d d'"
  shows "publication_receipts d' = publication_receipts d \<or>
    (\<exists>r. insert_row publication_receipts_table r d = Inr d')"
  using assms by cases (blast | simp add: insert_row_Inr update_row_Inr table_defs)+

lemma audits_change:
  assumes "statement mid d d'"
  shows "recovery_audits d' = recovery_audits d \<or>
    (\<exists>r. insert_row recovery_audits_table r d = Inr d')"
  using assms by cases (blast | simp add: insert_row_Inr update_row_Inr table_defs)+

subsection \<open>Constraints\<close>

definition tables_sound :: "(message \<Rightarrow> string) \<Rightarrow> coordination \<Rightarrow> bool" where
  "tables_sound mid d \<longleftrightarrow>
     rows_sound participants_table d \<and> rows_sound owner_generations_table d \<and>
     rows_sound current_executions_table d \<and> rows_sound executions_table d \<and>
     rows_sound attempts_table d \<and> rows_sound wake_claims_table d \<and>
     rows_sound execution_claims_table d \<and> rows_sound replay_assessments_table d \<and>
     rows_sound obligations_table d \<and> rows_sound (publication_intents_table mid) d \<and>
     rows_sound publication_receipts_table d \<and> rows_sound recovery_audits_table d"

lemma rows_sound_same: "table_rows T d' = table_rows T d \<Longrightarrow> rows_sound T d \<Longrightarrow> rows_sound T d'"
  by (simp add: rows_sound_def)

lemma conflict_sym:
  "row_conflict participants_table a1 b1 = row_conflict participants_table b1 a1"
  "row_conflict owner_generations_table a2 b2 = row_conflict owner_generations_table b2 a2"
  "row_conflict current_executions_table a3 b3 = row_conflict current_executions_table b3 a3"
  "row_conflict executions_table a4 b4 = row_conflict executions_table b4 a4"
  "row_conflict attempts_table a5 b5 = row_conflict attempts_table b5 a5"
  "row_conflict wake_claims_table a6 b6 = row_conflict wake_claims_table b6 a6"
  "row_conflict execution_claims_table a7 b7 = row_conflict execution_claims_table b7 a7"
  "row_conflict replay_assessments_table a8 b8 = row_conflict replay_assessments_table b8 a8"
  "row_conflict obligations_table a9 b9 = row_conflict obligations_table b9 a9"
  "row_conflict (publication_intents_table mid) a10 b10 = row_conflict (publication_intents_table mid) b10 a10"
  "row_conflict publication_receipts_table a11 b11 = row_conflict publication_receipts_table b11 a11"
  "row_conflict recovery_audits_table a12 b12 = row_conflict recovery_audits_table b12 a12"
  by (auto simp: table_defs)

lemma table_rows_simps [simp]:
  "table_rows participants_table = participants"
  "table_rows owner_generations_table = owner_generations"
  "table_rows current_executions_table = current_executions"
  "table_rows executions_table = executions"
  "table_rows attempts_table = attempts"
  "table_rows wake_claims_table = wake_claims"
  "table_rows execution_claims_table = execution_claims"
  "table_rows replay_assessments_table = replay_assessments"
  "table_rows obligations_table = obligations"
  "table_rows (publication_intents_table mid) = publication_intents"
  "table_rows publication_receipts_table = publication_receipts"
  "table_rows recovery_audits_table = recovery_audits"
  by (simp_all add: table_defs)

lemma tables_sound_step:
  assumes "statement mid d d'" "tables_sound mid d"
  shows "tables_sound mid d'"
proof -
  note old = assms(2) [unfolded tables_sound_def]
  have "rows_sound participants_table d'"
    using participants_change [OF assms(1)] old participants_t.insert_sound participants_t.update_sound
      conflict_sym(1) rows_sound_same by (metis table_rows_simps(1))
  moreover have "rows_sound owner_generations_table d'"
    using generations_change [OF assms(1)] old owner_generations_t.insert_sound
      owner_generations_t.update_sound conflict_sym(2) rows_sound_same by (metis table_rows_simps(2))
  moreover have "rows_sound current_executions_table d'"
    using pointers_change [OF assms(1)] old current_executions_t.insert_sound
      current_executions_t.update_sound conflict_sym(3) rows_sound_same by (metis table_rows_simps(3))
  moreover have "rows_sound executions_table d'"
    using executions_change [OF assms(1)] old executions_t.insert_sound
      executions_t.update_sound conflict_sym(4) rows_sound_same by (metis table_rows_simps(4))
  moreover have "rows_sound attempts_table d'"
    using attempts_change [OF assms(1)] old attempts_t.insert_sound
      attempts_t.update_sound conflict_sym(5) rows_sound_same by (metis table_rows_simps(5))
  moreover have "rows_sound wake_claims_table d'"
    using claims_change [OF assms(1)] old wake_claims_t.insert_sound
      wake_claims_t.update_sound conflict_sym(6) rows_sound_same by (metis table_rows_simps(6))
  moreover have "rows_sound execution_claims_table d'"
    using links_change [OF assms(1)] old execution_claims_t.insert_sound conflict_sym(7)
      rows_sound_same by (metis table_rows_simps(7))
  moreover have "rows_sound replay_assessments_table d'"
    using replays_change [OF assms(1)] old replay_assessments_t.insert_sound
      replay_assessments_t.update_sound conflict_sym(8) rows_sound_same by (metis table_rows_simps(8))
  moreover have "rows_sound obligations_table d'"
    using obligations_change [OF assms(1)] old obligations_t.insert_sound
      obligations_t.update_sound conflict_sym(9) rows_sound_same by (metis table_rows_simps(9))
  moreover have "rows_sound (publication_intents_table mid) d'"
    using intents_change [OF assms(1)] old publication_intents_t.insert_sound [of mid] conflict_sym(10)
      rows_sound_same by (metis table_rows_simps(10))
  moreover have "rows_sound publication_receipts_table d'"
    using receipts_change [OF assms(1)] old publication_receipts_t.insert_sound conflict_sym(11)
      rows_sound_same by (metis table_rows_simps(11))
  moreover have "rows_sound recovery_audits_table d'"
    using audits_change [OF assms(1)] old recovery_audits_t.insert_sound conflict_sym(12)
      rows_sound_same by (metis table_rows_simps(12))
  ultimately show ?thesis by (simp add: tables_sound_def)
qed

subsection \<open>Foreign keys\<close>

lemma history_participant: "history_kept d d' \<Longrightarrow> has_participant d p \<Longrightarrow> has_participant d' p"
  using evolves_persist [of participant_kept "participants d" "participants d'"]
  by (fastforce simp: history_kept_def has_participant_def participant_kept_def)

lemma history_execution: "history_kept d d' \<Longrightarrow> e \<in> set (executions d) \<Longrightarrow>
    \<exists>e' \<in> set (executions d'). execution_kept e e'"
  unfolding history_kept_def by (meson evolves_persist)

lemma history_attempt: "history_kept d d' \<Longrightarrow> a \<in> set (attempts d) \<Longrightarrow>
    \<exists>a' \<in> set (attempts d'). attempt_kept a a'"
  unfolding history_kept_def by (meson evolves_persist)

lemma history_claim: "history_kept d d' \<Longrightarrow> c \<in> set (wake_claims d) \<Longrightarrow>
    \<exists>c' \<in> set (wake_claims d'). claim_kept c c'"
  unfolding history_kept_def by (meson evolves_persist)

lemma history_intents: "history_kept d d' \<Longrightarrow> set (publication_intents d) \<subseteq> set (publication_intents d')"
  unfolding history_kept_def by (meson evolves_eq_subset)

lemma history_receipts: "history_kept d d' \<Longrightarrow> set (publication_receipts d) \<subseteq> set (publication_receipts d')"
  unfolding history_kept_def by (meson evolves_eq_subset)

lemma history_has_execution: "history_kept d d' \<Longrightarrow> has_execution d x \<Longrightarrow> has_execution d' x"
  using history_execution [of d d'] by (fastforce simp: has_execution_def execution_kept_def)

lemma intent_at_iff: "intent_at d x t \<noteq> None \<longleftrightarrow>
    (\<exists>i \<in> set (publication_intents d). int_execution i = x \<and> int_target i = t)"
  by (auto simp: intent_at_def find_None_iff)

lemma receipt_at_iff: "receipt_at d x t \<noteq> None \<longleftrightarrow>
    (\<exists>r \<in> set (publication_receipts d). evi_execution r = x \<and> evi_target r = t)"
  by (auto simp: receipt_at_def find_None_iff)

definition rows_referenced :: "(coordination, 'r) table_spec \<Rightarrow> coordination \<Rightarrow> bool" where
  "rows_referenced T d \<longleftrightarrow> (\<forall>r \<in> set (table_rows T d). row_references T d r)"

definition references_hold :: "(message \<Rightarrow> string) \<Rightarrow> coordination \<Rightarrow> bool" where
  "references_hold mid d \<longleftrightarrow>
     rows_referenced owner_generations_table d \<and> rows_referenced current_executions_table d \<and>
     rows_referenced executions_table d \<and> rows_referenced attempts_table d \<and>
     rows_referenced wake_claims_table d \<and> rows_referenced execution_claims_table d \<and>
     rows_referenced replay_assessments_table d \<and> rows_referenced obligations_table d \<and>
     rows_referenced (publication_intents_table mid) d \<and>
     rows_referenced publication_receipts_table d \<and> rows_referenced recovery_audits_table d"

lemma references_mono:
  assumes "history_kept d d'"
  shows "row_references owner_generations_table d r1 \<Longrightarrow> row_references owner_generations_table d' r1"
    "row_references current_executions_table d r2 \<Longrightarrow> row_references current_executions_table d' r2"
    "row_references executions_table d r3 \<Longrightarrow> row_references executions_table d' r3"
    "row_references attempts_table d r4 \<Longrightarrow> row_references attempts_table d' r4"
    "row_references wake_claims_table d r5 \<Longrightarrow> row_references wake_claims_table d' r5"
    "row_references replay_assessments_table d r7 \<Longrightarrow> row_references replay_assessments_table d' r7"
    "row_references obligations_table d r8 \<Longrightarrow> row_references obligations_table d' r8"
    "row_references (publication_intents_table mid) d r9 \<Longrightarrow>
       row_references (publication_intents_table mid) d' r9"
  using assms
  by (auto simp: table_defs split: option.splits intro: history_participant history_has_execution)

lemma references_mono_link:
  assumes "history_kept d d'" "row_references execution_claims_table d l"
  shows "row_references execution_claims_table d' l"
proof -
  from assms(2) obtain c where "c \<in> set (wake_claims d)" "asg_id c = link_assignment l"
    "asg_execution c = Some (link_execution l)" "has_execution d (link_execution l)"
    by (auto simp: execution_claims_table_def)
  moreover from history_claim [OF assms(1) this(1)] obtain c' where
    "c' \<in> set (wake_claims d')" "claim_kept c c'" by blast
  ultimately show ?thesis
    using history_has_execution [OF assms(1)] by (auto simp: execution_claims_table_def claim_kept_def)
qed

lemma references_mono_receipt:
  "history_kept d d' \<Longrightarrow> row_references publication_receipts_table d r \<Longrightarrow>
   row_references publication_receipts_table d' r"
  using history_intents [of d d']
  by (auto simp: publication_receipts_table_def intent_at_iff simp del: not_None_eq)

lemma references_mono_audit:
  assumes "history_kept d d'" "row_references recovery_audits_table d r"
  shows "row_references recovery_audits_table d' r"
proof -
  from assms(2) obtain a where "a \<in> set (attempts d)" "att_execution a = aud_execution r"
    "att_ordinal a = aud_attempt r" "has_execution d (aud_execution r)"
    by (auto simp: recovery_audits_table_def)
  moreover from history_attempt [OF assms(1) this(1)] obtain a' where
    "a' \<in> set (attempts d')" "attempt_kept a a'" by blast
  ultimately show ?thesis
    using history_has_execution [OF assms(1)] by (auto simp: recovery_audits_table_def attempt_kept_def)
qed

lemma references_hold_step:
  assumes step: "statement mid d d'" and "references_hold mid d"
  shows "references_hold mid d'"
proof -
  note history = statement_history [OF step]
  note old = assms(2) [unfolded references_hold_def rows_referenced_def]
  note mono = references_mono [OF history]
  have "rows_referenced owner_generations_table d'"
    unfolding rows_referenced_def
    by (rule owner_generations_t.references_kept [of _ d])
       (use generations_change [OF step] old mono(1) in auto)
  moreover have "rows_referenced current_executions_table d'"
    unfolding rows_referenced_def
    by (rule current_executions_t.references_kept [of _ d])
       (use pointers_change [OF step] old mono(2) in auto)
  moreover have "rows_referenced executions_table d'"
    unfolding rows_referenced_def
    by (rule executions_t.references_kept [of _ d])
       (use executions_change [OF step] old mono(3) in auto)
  moreover have "rows_referenced attempts_table d'"
    unfolding rows_referenced_def
    by (rule attempts_t.references_kept [of _ d])
       (use attempts_change [OF step] old mono(4) in auto)
  moreover have "rows_referenced wake_claims_table d'"
    unfolding rows_referenced_def
    by (rule wake_claims_t.references_kept [of _ d])
       (use claims_change [OF step] old mono(5) in auto)
  moreover have "rows_referenced execution_claims_table d'"
    unfolding rows_referenced_def
    by (rule execution_claims_t.references_kept [of _ d])
       (use links_change [OF step] old references_mono_link [OF history] in auto)
  moreover have "rows_referenced replay_assessments_table d'"
    unfolding rows_referenced_def
    by (rule replay_assessments_t.references_kept [of _ d])
       (use replays_change [OF step] old mono(6) in auto)
  moreover have "rows_referenced obligations_table d'"
    unfolding rows_referenced_def
    by (rule obligations_t.references_kept [of _ d])
       (use obligations_change [OF step] old mono(7) in auto)
  moreover have "rows_referenced (publication_intents_table mid) d'"
    unfolding rows_referenced_def
    by (rule publication_intents_t.references_kept [of _ _ d])
       (use intents_change [OF step] old mono(8) in auto)
  moreover have "rows_referenced publication_receipts_table d'"
    unfolding rows_referenced_def
    by (rule publication_receipts_t.references_kept [of _ d])
       (use receipts_change [OF step] old references_mono_receipt [OF history] in auto)
  moreover have "rows_referenced recovery_audits_table d'"
    unfolding rows_referenced_def
    by (rule recovery_audits_t.references_kept [of _ d])
       (use audits_change [OF step] old references_mono_audit [OF history] in auto)
  ultimately show ?thesis by (simp add: references_hold_def)
qed

end
