(* ===== verification/Coordinator_Consistency.thy ===== *)
theory Coordinator_Consistency
  imports Coordinator_Invariants
begin

text \<open>
  The invariants that tie the lifecycles together.  Each is preserved by every statement; the
  proofs ask, for a row of the state after a statement, where it comes from: it was there before,
  it was inserted, or it was rewritten under the triggers of its table.
\<close>

subsection \<open>Where a row comes from\<close>

lemma execution_origin:
  assumes "statement mid d d'" "e \<in> set (executions d')"
  obtains (kept) "e \<in> set (executions d)"
  | (inserted) "exec_lifecycle e = QueuedE" "registered_owner d (exec_owner e)"
      "insert_row executions_table e d = Inr d'"
  | (updated) old where "old \<in> set (executions d)" "execution_kept old e"
      "\<not> execution_update_refused d old e" "\<exists>i. d' = executions_update (\<lambda>rows. rows[i := e]) d"
  using executions_change [OF assms(1)]
proof (elim disjE exE conjE)
  assume "executions d' = executions d"
  with assms(2) kept show ?thesis by simp
next
  fix r assume r: "exec_lifecycle r = QueuedE" "registered_owner d (exec_owner r)"
    "insert_row executions_table r d = Inr d'"
  with executions_t.insert_rows [OF r(3)] assms(2) kept inserted show ?thesis by auto
next
  fix i r assume i: "i < length (executions d)" "\<not> closed_execution (executions d ! i)"
    and u: "update_row executions_table i r d = Inr d'"
  from executions_t.update_rows [OF u] assms(2) have "e = r \<or> e \<in> set (executions d)"
    using set_update_subset_insert [of "executions d" i r] by auto
  moreover have "\<not> execution_update_refused d (executions d ! i) r"
    "d' = executions_update (\<lambda>rows. rows[i := r]) d"
    using u by (simp_all add: update_row_Inr executions_table_def)
  ultimately show ?thesis
    using kept updated [of "executions d ! i"] execution_update_kept i by (metis nth_mem)
qed

lemma attempt_origin:
  assumes "statement mid d d'" "a \<in> set (attempts d')"
  obtains (kept) "a \<in> set (attempts d)"
  | (inserted) "\<not> attempt_insert_refused d a" "d' = attempts_update (\<lambda>rows. rows @ [a]) d"
  | (updated) old where "old \<in> set (attempts d)" "attempt_kept old a"
      "\<not> terminal_attempt (att_phase old)" "\<not> attempt_update_refused d old a"
      "\<exists>i. d' = attempts_update (\<lambda>rows. rows[i := a]) d"
  using attempts_change [OF assms(1)]
proof (elim disjE exE conjE)
  assume "attempts d' = attempts d"
  with assms(2) kept show ?thesis by simp
next
  fix r assume r: "insert_row attempts_table r d = Inr d'"
  then have "\<not> attempt_insert_refused d r" "d' = attempts_update (\<lambda>rows. rows @ [r]) d"
    by (simp_all add: insert_row_Inr attempts_table_def)
  with attempts_t.insert_rows [OF r] assms(2) kept inserted show ?thesis by auto
next
  fix i r assume i: "i < length (attempts d)" and u: "update_row attempts_table i r d = Inr d'"
  from attempts_t.update_rows [OF u] assms(2) have "a = r \<or> a \<in> set (attempts d)"
    using set_update_subset_insert [of "attempts d" i r] by auto
  moreover have "\<not> attempt_update_refused d (attempts d ! i) r"
    "d' = attempts_update (\<lambda>rows. rows[i := r]) d"
    using u by (simp_all add: update_row_Inr attempts_table_def)
  ultimately show ?thesis
    using kept updated [of "attempts d ! i"] attempt_update_kept i by (metis nth_mem)
qed

lemma claim_origin:
  assumes "statement mid d d'" "c \<in> set (wake_claims d')"
  obtains (kept) "c \<in> set (wake_claims d)"
  | (inserted) "assignment_row_valid c = Inr ()" "asg_execution c = None"
      "d' = wake_claims_update (\<lambda>rows. rows @ [c]) d"
  | (updated) old where "old \<in> set (wake_claims d)" "claim_kept old c"
      "assignment_valid (asg_lifecycle c)" "assignment_checks c"
      "case asg_execution c of None \<Rightarrow> True | Some x \<Rightarrow> has_execution d' x"
  using claims_change [OF assms(1)]
proof (elim disjE exE conjE)
  assume "wake_claims d' = wake_claims d"
  with assms(2) kept show ?thesis by simp
next
  fix r assume r: "insert_row wake_claims_table r d = Inr d'" "assignment_row_valid r = Inr ()"
    "asg_execution r = None"
  then have "d' = wake_claims_update (\<lambda>rows. rows @ [r]) d"
    by (simp add: insert_row_Inr wake_claims_table_def)
  with wake_claims_t.insert_rows [OF r(1)] r assms(2) kept inserted show ?thesis by auto
next
  fix i r assume i: "i < length (wake_claims d)" and u: "update_row wake_claims_table i r d = Inr d'"
    and v: "assignment_valid (asg_lifecycle r)"
  from wake_claims_t.update_rows [OF u] assms(2) have "c = r \<or> c \<in> set (wake_claims d)"
    using set_update_subset_insert [of "wake_claims d" i r] by auto
  moreover have "\<not> assignment_update_refused d (wake_claims d ! i) r" "assignment_checks r"
    "case asg_execution r of None \<Rightarrow> True | Some x \<Rightarrow> has_execution d' x"
    using u by (simp_all add: update_row_Inr wake_claims_table_def)
  ultimately show ?thesis
    using kept updated [of "wake_claims d ! i"] claim_update_kept i v by (metis nth_mem)
qed

lemma obligation_origin:
  assumes "statement mid d d'" "ob \<in> set (obligations d')"
  obtains (kept) "ob \<in> set (obligations d)"
  | (inserted) "obl_lifecycle ob = PendingR" "unstarted_execution_row d (obl_execution ob)"
      "\<not> obligation_insert_refused d ob" "d' = obligations_update (\<lambda>rows. rows @ [ob]) d"
  | (updated) old where "old \<in> set (obligations d)" "obligation_kept old ob"
      "obl_state ob \<in> set (response_successors (obl_state old))" "obligation_scope d ob"
      "\<not> obligation_update_refused d old ob" "\<exists>i. d' = obligations_update (\<lambda>rows. rows[i := ob]) d"
  using obligations_change [OF assms(1)]
proof (elim disjE exE conjE)
  assume "obligations d' = obligations d"
  with assms(2) kept show ?thesis by simp
next
  fix r assume r: "insert_row obligations_table r d = Inr d'" "obl_lifecycle r = PendingR"
    "unstarted_execution_row d (obl_execution r)"
  then have "\<not> obligation_insert_refused d r" "d' = obligations_update (\<lambda>rows. rows @ [r]) d"
    by (simp_all add: insert_row_Inr obligations_table_def)
  with obligations_t.insert_rows [OF r(1)] r assms(2) kept inserted show ?thesis by auto
next
  fix i r assume i: "i < length (obligations d)" and u: "update_row obligations_table i r d = Inr d'"
    and v: "obligation_scope d r"
  from obligations_t.update_rows [OF u] assms(2) have "ob = r \<or> ob \<in> set (obligations d)"
    using set_update_subset_insert [of "obligations d" i r] by auto
  moreover have "\<not> obligation_update_refused d (obligations d ! i) r"
    "d' = obligations_update (\<lambda>rows. rows[i := r]) d"
    using u by (simp_all add: update_row_Inr obligations_table_def)
  ultimately show ?thesis
    using kept updated [of "obligations d ! i"] obligation_update_kept i v by (metis nth_mem)
qed

lemma link_origin:
  assumes "statement mid d d'" "l \<in> set (execution_claims d')"
  obtains (kept) "l \<in> set (execution_claims d)"
  | (inserted) "\<not> link_insert_refused d l" "d' = execution_claims_update (\<lambda>rows. rows @ [l]) d"
  using links_change [OF assms(1)] assms(2) execution_claims_t.insert_rows
  by (auto simp: insert_row_Inr execution_claims_table_def)

lemma intent_origin:
  assumes "statement mid d d'" "i \<in> set (publication_intents d')"
  obtains (kept) "i \<in> set (publication_intents d)" | (inserted) "intent_valid mid i = Inr ()"
  using intents_change [OF assms(1)] assms(2)
  by (auto simp: insert_row_Inr publication_intents_table_def intent_insert_refused_def)

lemma receipt_origin:
  assumes "statement mid d d'" "r \<in> set (publication_receipts d')"
  obtains (kept) "r \<in> set (publication_receipts d)"
  | (inserted) "\<not> receipt_insert_refused d r" "intent_at d (evi_execution r) (evi_target r) \<noteq> None"
      "d' = publication_receipts_update (\<lambda>rows. rows @ [r]) d"
proof -
  from receipts_change [OF assms(1)] show thesis
  proof (elim disjE exE)
    assume "publication_receipts d' = publication_receipts d"
    with assms(2) kept show thesis by simp
  next
    fix x assume x: "insert_row publication_receipts_table x d = Inr d'"
    then have d': "d' = publication_receipts_update (\<lambda>rows. rows @ [x]) d"
      and "\<not> receipt_insert_refused d x" "intent_at d' (evi_execution x) (evi_target x) \<noteq> None"
      by (auto simp: insert_row_Inr publication_receipts_table_def)
    moreover have "intent_at d' = intent_at d" by (simp add: d' intent_at_def fun_eq_iff)
    ultimately show thesis using assms(2) kept inserted by auto
  qed
qed

subsection \<open>Unique keys\<close>

lemma execution_unique:
  "tables_sound mid d \<Longrightarrow> e \<in> set (executions d) \<Longrightarrow> e' \<in> set (executions d) \<Longrightarrow>
   exec_id e' = exec_id e \<Longrightarrow> e' = e"
  using rows_sound_unique [of executions_table d e e']
  by (simp add: tables_sound_def executions_table_def)

lemma obligation_unique:
  "tables_sound mid d \<Longrightarrow> ob \<in> set (obligations d) \<Longrightarrow> ob' \<in> set (obligations d) \<Longrightarrow>
   obl_execution ob' = obl_execution ob \<Longrightarrow> obl_target ob' = obl_target ob \<Longrightarrow> ob' = ob"
  using rows_sound_unique [of obligations_table d ob ob']
  by (simp add: tables_sound_def obligations_table_def)

lemma attempt_unique:
  "tables_sound mid d \<Longrightarrow> a \<in> set (attempts d) \<Longrightarrow> a' \<in> set (attempts d) \<Longrightarrow>
   att_execution a' = att_execution a \<Longrightarrow> att_ordinal a' = att_ordinal a \<Longrightarrow> a' = a"
  using rows_sound_unique [of attempts_table d a a']
  by (simp add: tables_sound_def attempts_table_def)

lemma pointer_unique:
  "tables_sound mid d \<Longrightarrow> p \<in> set (current_executions d) \<Longrightarrow> p' \<in> set (current_executions d) \<Longrightarrow>
   ptr_owner p' = ptr_owner p \<Longrightarrow> p' = p"
  using rows_sound_unique [of current_executions_table d p p']
  by (simp add: tables_sound_def current_executions_table_def)

lemma claim_unique:
  "tables_sound mid d \<Longrightarrow> c \<in> set (wake_claims d) \<Longrightarrow> c' \<in> set (wake_claims d) \<Longrightarrow>
   asg_id c' = asg_id c \<Longrightarrow> c' = c"
  using rows_sound_unique [of wake_claims_table d c c']
  by (simp add: tables_sound_def wake_claims_table_def)

lemma generation_unique:
  "tables_sound mid d \<Longrightarrow> g \<in> set (owner_generations d) \<Longrightarrow> g' \<in> set (owner_generations d) \<Longrightarrow>
   gen_owner g' = gen_owner g \<Longrightarrow> g' = g"
  using rows_sound_unique [of owner_generations_table d g g']
  by (simp add: tables_sound_def owner_generations_table_def)

subsection \<open>Routes and links\<close>

definition obligations_routed :: "coordination \<Rightarrow> bool" where
  "obligations_routed d \<longleftrightarrow>
     (\<forall>ob \<in> set (obligations d). wire_route d (obl_execution ob) (obl_target ob))"

lemma wire_route_mono:
  assumes "history_kept d d'" "wire_route d x t"
  shows "wire_route d' x t"
proof -
  from assms(2) obtain e c where ec: "e \<in> set (executions d)" "c \<in> set (wake_claims d)"
    "exec_id e = x" "asg_execution c = Some x" "exec_origin e = WireOrigin" "asg_target c = Some t"
    by (auto simp: wire_route_def)
  obtain e' c' where "e' \<in> set (executions d')" "execution_kept e e'"
    "c' \<in> set (wake_claims d')" "claim_kept c c'"
    using history_execution [OF assms(1) ec(1)] history_claim [OF assms(1) ec(2)] by blast
  with ec show ?thesis by (auto simp: wire_route_def execution_kept_def claim_kept_def)
qed

lemma obligations_routed_step:
  assumes "statement mid d d'" "obligations_routed d"
  shows "obligations_routed d'"
  unfolding obligations_routed_def
proof
  note history = statement_history [OF assms(1)]
  fix ob assume "ob \<in> set (obligations d')"
  with assms(1) show "wire_route d' (obl_execution ob) (obl_target ob)"
  proof (cases rule: obligation_origin)
    case kept
    with assms(2) wire_route_mono [OF history] show ?thesis by (simp add: obligations_routed_def)
  next
    case inserted
    with wire_route_mono [OF history] show ?thesis by (simp add: obligation_insert_refused_def)
  next
    case (updated old)
    with assms(2) wire_route_mono [OF history, of "obl_execution old" "obl_target old"] show ?thesis
      by (simp add: obligations_routed_def obligation_kept_def)
  qed
qed

definition link_bound :: "coordination \<Rightarrow> link \<Rightarrow> bool" where
  "link_bound d l \<longleftrightarrow>
     (\<exists>e \<in> set (executions d). \<exists>c \<in> set (wake_claims d).
        exec_id e = link_execution l \<and> asg_id c = link_assignment l \<and>
        asg_execution c = Some (link_execution l) \<and> asg_target c \<noteq> None \<and>
        asg_recipient_lookup c = exec_owner e)"

definition links_bound :: "coordination \<Rightarrow> bool" where
  "links_bound d \<longleftrightarrow> (\<forall>l \<in> set (execution_claims d). link_bound d l)"

lemma link_bound_mono:
  assumes "history_kept d d'" "link_bound d l"
  shows "link_bound d' l"
proof -
  from assms(2) obtain e c where ec: "e \<in> set (executions d)" "c \<in> set (wake_claims d)"
    "exec_id e = link_execution l" "asg_id c = link_assignment l"
    "asg_execution c = Some (link_execution l)" "asg_target c \<noteq> None"
    "asg_recipient_lookup c = exec_owner e"
    by (auto simp: link_bound_def)
  obtain e' c' where e': "e' \<in> set (executions d')" "execution_kept e e'"
    and c': "c' \<in> set (wake_claims d')" "claim_kept c c'"
    using history_execution [OF assms(1) ec(1)] history_claim [OF assms(1) ec(2)] by blast
  have "exec_id e' = link_execution l" "exec_owner e' = exec_owner e"
    using e'(2) ec(3) by (simp_all add: execution_kept_def)
  moreover have "asg_id c' = link_assignment l" "asg_execution c' = Some (link_execution l)"
    "asg_target c' \<noteq> None" "asg_recipient_lookup c' = exec_owner e"
    using c'(2) ec(4-7) by (auto simp: claim_kept_def)
  ultimately show ?thesis unfolding link_bound_def using e'(1) c'(1) by metis
qed

lemma links_bound_step:
  assumes "statement mid d d'" "links_bound d"
  shows "links_bound d'"
  unfolding links_bound_def
proof
  note mono = link_bound_mono [OF statement_history [OF assms(1)]]
  fix l assume "l \<in> set (execution_claims d')"
  with assms(1) show "link_bound d' l"
  proof (cases rule: link_origin)
    case kept
    with assms(2) mono show ?thesis by (simp add: links_bound_def)
  next
    case inserted
    then have "link_bound d l" unfolding link_insert_refused_def link_bound_def by metis
    then show ?thesis by (rule mono)
  qed
qed

definition links_ordered :: "coordination \<Rightarrow> bool" where
  "links_ordered d \<longleftrightarrow>
     (\<forall>x. map link_ordinal (links_of d x) = map int [0..<length (links_of d x)])"

lemma links_ordered_step:
  assumes "statement mid d d'" "links_ordered d"
  shows "links_ordered d'"
  using links_change [OF assms(1)]
proof (elim disjE exE)
  assume "execution_claims d' = execution_claims d"
  with assms(2) show ?thesis by (simp add: links_ordered_def links_of_def)
next
  fix r assume r: "insert_row execution_claims_table r d = Inr d'"
  then have "link_ordinal r = int (length (links_of d (link_execution r)))"
    by (simp add: insert_row_Inr execution_claims_table_def link_insert_refused_def)
  moreover have "links_of d' x = links_of d x @ (if link_execution r = x then [r] else [])" for x
    using execution_claims_t.insert_rows [OF r] by (simp add: links_of_def)
  ultimately show ?thesis using assms(2) by (simp add: links_ordered_def)
qed

definition owners_registered :: "coordination \<Rightarrow> bool" where
  "owners_registered d \<longleftrightarrow> (\<forall>e \<in> set (executions d). registered_owner d (exec_owner e))"

lemma registered_owner_mono:
  assumes "history_kept d d'" "registered_owner d p"
  shows "registered_owner d' p"
proof -
  from assms(2) obtain g q where "g \<in> set (owner_generations d)" "gen_owner g = p"
    "q \<in> set (current_executions d)" "ptr_owner q = p"
    by (auto simp: registered_owner_def)
  moreover from assms(1) this(1,3) obtain g' q' where
    "g' \<in> set (owner_generations d')" "generation_kept g g'"
    "q' \<in> set (current_executions d')" "pointer_kept q q'"
    using evolves_persist unfolding history_kept_def by metis
  ultimately show ?thesis
    by (auto simp: registered_owner_def generation_kept_def pointer_kept_def)
qed

lemma owners_registered_step:
  assumes "statement mid d d'" "owners_registered d"
  shows "owners_registered d'"
  unfolding owners_registered_def
proof
  note mono = registered_owner_mono [OF statement_history [OF assms(1)]]
  fix e assume "e \<in> set (executions d')"
  with assms(1) show "registered_owner d' (exec_owner e)"
  proof (cases rule: execution_origin)
    case kept
    with assms(2) mono show ?thesis by (simp add: owners_registered_def)
  next
    case inserted
    with mono show ?thesis by simp
  next
    case (updated old)
    with assms(2) mono show ?thesis by (simp add: owners_registered_def execution_kept_def)
  qed
qed

subsection \<open>Attempts\<close>

text \<open>Attempts of an execution are numbered from one without a gap, within the execution's budget and
  for its owner.\<close>

definition attempts_counted :: "coordination \<Rightarrow> bool" where
  "attempts_counted d \<longleftrightarrow>
     (\<forall>x. map att_ordinal (attempts_of d x) = map int [1..<Suc (length (attempts_of d x))])"

lemma foldr_max_upto: "foldr max (map int [1..<Suc n]) 0 = int n"
proof -
  have "foldr max (map int [1..<Suc n]) m = max (int n) m" if "0 \<le> m" for m
    using that
  proof (induction n arbitrary: m)
    case (Suc n)
    have "foldr max (map int [1..<Suc (Suc n)]) m = foldr max (map int [1..<Suc n]) (max (int (Suc n)) m)"
      by simp
    also have "\<dots> = max (int n) (max (int (Suc n)) m)" using Suc by simp
    finally show ?case by simp
  qed simp
  from this [of 0] show ?thesis by simp
qed

lemma last_ordinal_counted: "attempts_counted d \<Longrightarrow> last_ordinal d x = int (length (attempts_of d x))"
  using foldr_max_upto [of "length (attempts_of d x)"]
  by (simp add: attempts_counted_def last_ordinal_def del: upt_Suc)

lemma attempts_counted_step:
  assumes "statement mid d d'" "attempts_counted d"
  shows "attempts_counted d'"
  using attempts_change [OF assms(1)]
proof (elim disjE exE conjE)
  assume "attempts d' = attempts d"
  with assms(2) show ?thesis by (simp add: attempts_counted_def attempts_of_def)
next
  fix r assume r: "insert_row attempts_table r d = Inr d'"
  then have "att_ordinal r = 1 + last_ordinal d (att_execution r)"
    by (auto simp: insert_row_Inr attempts_table_def attempt_insert_refused_def)
  moreover have "attempts_of d' x = attempts_of d x @ (if att_execution r = x then [r] else [])" for x
    using attempts_t.insert_rows [OF r] by (simp add: attempts_of_def)
  ultimately show ?thesis
    using assms(2) last_ordinal_counted [OF assms(2)] by (simp add: attempts_counted_def)
next
  fix i r assume i: "i < length (attempts d)" and u: "update_row attempts_table i r d = Inr d'"
  then have "attempt_kept (attempts d ! i) r"
    using attempt_update_kept [of d "attempts d ! i" r] by (simp add: update_row_Inr attempts_table_def)
  then have same: "map att_ordinal (attempts_of d' x) = map att_ordinal (attempts_of d x)" for x
    using attempts_t.update_rows [OF u] i
    by (simp add: attempts_of_def attempt_kept_def map_filter_update_same)
  then have "length (attempts_of d' x) = length (attempts_of d x)" for x
    by (metis length_map)
  with assms(2) same show ?thesis by (simp add: attempts_counted_def)
qed

definition attempt_budgeted :: "coordination \<Rightarrow> attempt \<Rightarrow> bool" where
  "attempt_budgeted d a \<longleftrightarrow>
     (\<exists>e \<in> set (executions d). exec_id e = att_execution a \<and> exec_owner e = att_owner a \<and>
        att_ordinal a \<le> exec_max_attempts e)"

definition attempts_budgeted :: "coordination \<Rightarrow> bool" where
  "attempts_budgeted d \<longleftrightarrow> (\<forall>a \<in> set (attempts d). attempt_budgeted d a)"

lemma attempt_budgeted_mono:
  assumes "history_kept d d'" "attempt_budgeted d a"
  shows "attempt_budgeted d' a"
  using assms history_execution [OF assms(1)]
  unfolding attempt_budgeted_def execution_kept_def by metis

lemma attempts_budgeted_step:
  assumes "statement mid d d'" "attempts_budgeted d"
  shows "attempts_budgeted d'"
  unfolding attempts_budgeted_def
proof
  note mono = attempt_budgeted_mono [OF statement_history [OF assms(1)]]
  fix a assume "a \<in> set (attempts d')"
  with assms(1) show "attempt_budgeted d' a"
  proof (cases rule: attempt_origin)
    case kept
    with assms(2) mono show ?thesis by (simp add: attempts_budgeted_def)
  next
    case inserted
    then have "attempt_budgeted d a"
      by (auto simp: attempt_insert_refused_def attempt_budgeted_def)
    then show ?thesis by (rule mono)
  next
    case (updated old)
    with assms(2) have "attempt_budgeted d a"
      by (simp add: attempts_budgeted_def attempt_budgeted_def attempt_kept_def)
    then show ?thesis by (rule mono)
  qed
qed

text \<open>Every attempt after the first follows a failed one of the same execution, under a strictly
  newer owner generation.\<close>

definition attempt_follows :: "coordination \<Rightarrow> attempt \<Rightarrow> bool" where
  "attempt_follows d a \<longleftrightarrow>
     (1 < att_ordinal a \<longrightarrow>
      (\<exists>b \<in> set (attempts d). att_execution b = att_execution a \<and>
         att_ordinal b = att_ordinal a - 1 \<and> att_lifecycle b = Ended AttemptFailed \<and>
         att_generation b < att_generation a))"

definition attempts_chained :: "coordination \<Rightarrow> bool" where
  "attempts_chained d \<longleftrightarrow> (\<forall>a \<in> set (attempts d). attempt_follows d a)"

lemma attempt_follows_mono:
  assumes "history_kept d d'" "attempt_follows d a"
  shows "attempt_follows d' a"
  unfolding attempt_follows_def
proof
  assume "1 < att_ordinal a"
  with assms(2) obtain b where b: "b \<in> set (attempts d)" "att_execution b = att_execution a"
    "att_ordinal b = att_ordinal a - 1" "att_lifecycle b = Ended AttemptFailed"
    "att_generation b < att_generation a"
    by (auto simp: attempt_follows_def)
  from history_attempt [OF assms(1) b(1)] b(4) have "b \<in> set (attempts d')"
    by (auto simp: attempt_kept_def)
  with b show "\<exists>b \<in> set (attempts d'). att_execution b = att_execution a \<and>
      att_ordinal b = att_ordinal a - 1 \<and> att_lifecycle b = Ended AttemptFailed \<and>
      att_generation b < att_generation a" by metis
qed

lemma attempts_chained_step:
  assumes "statement mid d d'" "attempts_chained d"
  shows "attempts_chained d'"
  unfolding attempts_chained_def
proof
  note mono = attempt_follows_mono [OF statement_history [OF assms(1)]]
  fix a assume "a \<in> set (attempts d')"
  with assms(1) show "attempt_follows d' a"
  proof (cases rule: attempt_origin)
    case kept
    with assms(2) mono show ?thesis by (simp add: attempts_chained_def)
  next
    case inserted
    then have "attempt_follows d a"
      by (auto simp: attempt_insert_refused_def attempt_follows_def permits_retry_def)
    then show ?thesis by (rule mono)
  next
    case (updated old)
    with assms(2) have "attempt_follows d a"
      by (simp add: attempts_chained_def attempt_follows_def attempt_kept_def)
    then show ?thesis by (rule mono)
  qed
qed

text \<open>A live attempt holds the current generation of its owner.\<close>

definition generations_current :: "coordination \<Rightarrow> bool" where
  "generations_current d \<longleftrightarrow>
     (\<forall>a \<in> set (attempts d). \<not> terminal_attempt (att_phase a) \<longrightarrow>
        (\<exists>g \<in> set (owner_generations d). gen_owner g = att_owner a \<and> generation g = att_generation a))"

lemma generation_held:
  assumes "statement mid d d'" "g \<in> set (owner_generations d)" "live_dependents d g"
  shows "\<exists>g' \<in> set (owner_generations d'). gen_owner g' = gen_owner g \<and> generation g' = generation g"
  using generations_change [OF assms(1)]
proof (elim disjE exE conjE)
  assume "owner_generations d' = owner_generations d"
  with assms(2) show ?thesis by auto
next
  fix r assume r: "insert_row owner_generations_table r d = Inr d'"
  with assms(2) owner_generations_t.insert_rows [OF r] show ?thesis by auto
next
  fix i r assume i: "i < length (owner_generations d)"
    and u: "update_row owner_generations_table i r d = Inr d'"
  note rows = owner_generations_t.update_rows [OF u, simplified]
  obtain j where j: "j < length (owner_generations d)" "g = owner_generations d ! j"
    using assms(2) by (metis in_set_conv_nth)
  show ?thesis
  proof (cases "j = i")
    case True
    with u j assms(3) have "gen_owner r = gen_owner g \<and> generation r = generation g"
      by (auto simp: update_row_Inr owner_generations_table_def trigger_defs)
    moreover have "r \<in> set (owner_generations d')" using rows i by (simp add: set_update_memI)
    ultimately show ?thesis by blast
  next
    case False
    then have "owner_generations d' ! j = g" "j < length (owner_generations d')"
      using rows j by simp_all
    then show ?thesis by (metis nth_mem)
  qed
qed

lemma generations_current_step:
  assumes "statement mid d d'" "generations_current d"
  shows "generations_current d'"
  unfolding generations_current_def
proof (intro ballI impI)
  fix a assume "a \<in> set (attempts d')" and live: "\<not> terminal_attempt (att_phase a)"
  from assms(1) this(1)
  show "\<exists>g \<in> set (owner_generations d'). gen_owner g = att_owner a \<and> generation g = att_generation a"
  proof (cases rule: attempt_origin)
    case kept
    with assms(2) live obtain g where g: "g \<in> set (owner_generations d)" "gen_owner g = att_owner a"
      "generation g = att_generation a" by (auto simp: generations_current_def)
    then have "live_dependents d g" using kept live by (auto simp: live_dependents_def)
    from generation_held [OF assms(1) g(1) this] g show ?thesis by auto
  next
    case inserted
    then show ?thesis by (auto simp: attempt_insert_refused_def)
  next
    case (updated old)
    with assms(2) show ?thesis by (auto simp: generations_current_def attempt_kept_def)
  qed
qed

text \<open>An execution interrupted after an attempt names a failed attempt of its own.\<close>

definition failed_attempt_of :: "coordination \<Rightarrow> execution \<Rightarrow> bool" where
  "failed_attempt_of d e \<longleftrightarrow>
     (\<exists>a \<in> set (attempts d). att_execution a = exec_id e \<and> Some (att_ordinal a) = exec_ordinal e \<and>
        att_owner a = exec_owner e \<and> failed_attempt (att_phase a))"

definition interruptions_recorded :: "coordination \<Rightarrow> bool" where
  "interruptions_recorded d \<longleftrightarrow>
     (\<forall>e \<in> set (executions d). interrupted_execution (exec_status e) \<longrightarrow> exec_ordinal e \<noteq> None \<longrightarrow>
        failed_attempt_of d e)"

lemma failed_attempt_of_mono:
  assumes "history_kept d d'" "failed_attempt_of d e"
  shows "failed_attempt_of d' e"
proof -
  from assms(2) obtain a where a: "a \<in> set (attempts d)" "att_execution a = exec_id e"
    "Some (att_ordinal a) = exec_ordinal e" "att_owner a = exec_owner e" "failed_attempt (att_phase a)"
    by (auto simp: failed_attempt_of_def)
  from history_attempt [OF assms(1) a(1)] a(5) have "a \<in> set (attempts d')"
    by (auto simp: attempt_kept_def)
  with a show ?thesis unfolding failed_attempt_of_def by metis
qed

lemma interruptions_recorded_step:
  assumes "statement mid d d'" "interruptions_recorded d"
  shows "interruptions_recorded d'"
  unfolding interruptions_recorded_def
proof (intro ballI impI)
  note mono = failed_attempt_of_mono [OF statement_history [OF assms(1)]]
  fix e assume "e \<in> set (executions d')" and i: "interrupted_execution (exec_status e)" "exec_ordinal e \<noteq> None"
  from assms(1) this(1) show "failed_attempt_of d' e"
  proof (cases rule: execution_origin)
    case kept
    with assms(2) i mono show ?thesis by (simp add: interruptions_recorded_def)
  next
    case inserted
    with i show ?thesis by (simp add: interrupted_execution_def)
  next
    case (updated old)
    then have "\<not> execution_guard d e" by (simp add: execution_update_refused_def)
    with i have "failed_attempt_of d e" unfolding execution_guard_def failed_attempt_of_def by blast
    then show ?thesis by (rule mono)
  qed
qed

subsection \<open>Terminal executions\<close>

lemma obligation_of_wire:
  assumes "tables_sound mid d" "obligations_routed d" "e \<in> set (executions d)"
    "ob \<in> set (obligations d)" "obl_execution ob = exec_id e"
  shows "exec_origin e = WireOrigin"
proof -
  from assms(2,4) obtain e' where "e' \<in> set (executions d)" "exec_id e' = obl_execution ob"
    "exec_origin e' = WireOrigin"
    by (auto simp: obligations_routed_def wire_route_def)
  with execution_unique [OF assms(1,3)] assms(5) show ?thesis by metis
qed

text \<open>A completed execution has only successful obligations.\<close>

definition completions_settled :: "coordination \<Rightarrow> bool" where
  "completions_settled d \<longleftrightarrow>
     (\<forall>e \<in> set (executions d). exec_status e = CompletedExecution \<longrightarrow>
        (\<forall>ob \<in> set (obligations d). obl_execution ob = exec_id e \<longrightarrow> success_terminal (obl_state ob)))"

lemma success_no_successor: "success_terminal k \<Longrightarrow> response_successors k = []"
  by auto

lemma completions_settled_step:
  assumes "statement mid d d'" "completions_settled d" "tables_sound mid d" "obligations_routed d"
  shows "completions_settled d'"
  unfolding completions_settled_def
proof (intro ballI impI)
  fix e ob assume e: "e \<in> set (executions d')" and ob: "ob \<in> set (obligations d')"
    and c: "exec_status e = CompletedExecution" and of: "obl_execution ob = exec_id e"
  from assms(1) e show "success_terminal (obl_state ob)"
  proof (cases rule: execution_origin)
    case kept
    note ek = this
    from assms(1) ob show ?thesis
    proof (cases rule: obligation_origin)
      case kept
      with assms(2) ek c of show ?thesis by (simp add: completions_settled_def)
    next
      case inserted
      with ek c of show ?thesis by (auto simp: unstarted_execution_row_def)
    next
      case (updated old)
      then have "obl_execution old = exec_id e" using of by (simp add: obligation_kept_def)
      with assms(2) ek c updated(1) have "success_terminal (obl_state old)"
        by (simp add: completions_settled_def)
      with updated(3) success_no_successor show ?thesis by fastforce
    qed
  next
    case inserted
    with c show ?thesis by simp
  next
    case (updated old)
    then have guard: "\<not> execution_guard d e" by (simp add: execution_update_refused_def)
    from updated(4) have obs: "obligations d' = obligations d" by auto
    have "exec_origin old = WireOrigin"
      using obligation_of_wire [OF assms(3,4) updated(1)] ob of obs updated(2)
      by (simp add: execution_kept_def)
    then have "exec_origin e = WireOrigin" using updated(2) by (simp add: execution_kept_def)
    moreover have "ob \<in> set (obligations_of d (exec_id e))" using ob of obs by (simp add: obligations_of_def)
    ultimately show ?thesis using guard c unfolding execution_guard_def by blast
  qed
qed

text \<open>An execution deferred after an attempt has only retryable obligations.\<close>

definition deferrals_retryable :: "coordination \<Rightarrow> bool" where
  "deferrals_retryable d \<longleftrightarrow>
     (\<forall>e \<in> set (executions d). exec_status e = DeferredExecution \<longrightarrow> exec_ordinal e \<noteq> None \<longrightarrow>
        (\<forall>ob \<in> set (obligations d). obl_execution ob = exec_id e \<longrightarrow> retryable (obl_state ob)))"

lemma deferrals_retryable_step:
  assumes "statement mid d d'" "deferrals_retryable d" "tables_sound mid d" "obligations_routed d"
  shows "deferrals_retryable d'"
  unfolding deferrals_retryable_def
proof (intro ballI impI)
  fix e ob assume e: "e \<in> set (executions d')" and ob: "ob \<in> set (obligations d')"
    and c: "exec_status e = DeferredExecution" "exec_ordinal e \<noteq> None" and of: "obl_execution ob = exec_id e"
  from assms(1) e show "retryable (obl_state ob)"
  proof (cases rule: execution_origin)
    case kept
    note ek = this
    from assms(1) ob show ?thesis
    proof (cases rule: obligation_origin)
      case kept
      with assms(2) ek c of show ?thesis by (simp add: deferrals_retryable_def)
    next
      case inserted
      then show ?thesis by (simp add: retryable_def)
    next
      case (updated old)
      with ek c of show ?thesis by (auto simp: obligation_scope_def)
    qed
  next
    case inserted
    with c show ?thesis by simp
  next
    case (updated old)
    then have guard: "\<not> execution_guard d e" by (simp add: execution_update_refused_def)
    from updated(4) have obs: "obligations d' = obligations d" by auto
    have "exec_origin old = WireOrigin"
      using obligation_of_wire [OF assms(3,4) updated(1)] ob of obs updated(2)
      by (simp add: execution_kept_def)
    then have "exec_origin e = WireOrigin" using updated(2) by (simp add: execution_kept_def)
    moreover have "ob \<in> set (obligations_of d (exec_id e))" using ob of obs by (simp add: obligations_of_def)
    ultimately show ?thesis using guard c unfolding execution_guard_def by blast
  qed
qed

text \<open>A failed execution has no publication receipt.\<close>

definition failures_unpublished :: "coordination \<Rightarrow> bool" where
  "failures_unpublished d \<longleftrightarrow>
     (\<forall>e \<in> set (executions d). exec_status e = FailedExecution \<longrightarrow>
        (\<forall>r \<in> set (publication_receipts d). evi_execution r \<noteq> exec_id e))"

lemma failures_unpublished_step:
  assumes "statement mid d d'" "failures_unpublished d"
  shows "failures_unpublished d'"
  unfolding failures_unpublished_def
proof (intro ballI impI)
  fix e r assume e: "e \<in> set (executions d')" and r: "r \<in> set (publication_receipts d')"
    and c: "exec_status e = FailedExecution"
  from assms(1) e show "evi_execution r \<noteq> exec_id e"
  proof (cases rule: execution_origin)
    case kept
    note ek = this
    from assms(1) r show ?thesis
    proof (cases rule: receipt_origin)
      case kept
      with assms(2) ek c show ?thesis by (simp add: failures_unpublished_def)
    next
      case inserted
      with ek c show ?thesis by (auto simp: receipt_insert_refused_def)
    qed
  next
    case inserted
    with c show ?thesis by simp
  next
    case (updated old)
    then have "\<not> execution_guard d e" by (simp add: execution_update_refused_def)
    with c have "receipts_of d (exec_id e) = []" unfolding execution_guard_def by blast
    moreover from updated(4) have "publication_receipts d' = publication_receipts d" by auto
    ultimately show ?thesis using r by (auto simp: receipts_of_def filter_empty_conv)
  qed
qed

text \<open>An execution that failed after an attempt has no basis for a retry.\<close>

definition failures_final :: "coordination \<Rightarrow> bool" where
  "failures_final d \<longleftrightarrow>
     (\<forall>e \<in> set (executions d). exec_status e = FailedExecution \<longrightarrow> exec_ordinal e \<noteq> None \<longrightarrow>
        \<not> basis_authorized d e)"

lemma basis_authorized_cong:
  assumes "exec_id e' = exec_id e" "exec_origin e' = exec_origin e"
    "exec_max_attempts e' = exec_max_attempts e" "exec_ordinal e' = exec_ordinal e"
    "\<And>r. rep_execution r = exec_id e \<Longrightarrow> r \<in> set (replay_assessments d') \<Longrightarrow>
      r \<in> set (replay_assessments d)"
    "obligations_of d' (exec_id e) = obligations_of d (exec_id e)"
    "basis_authorized d' e'"
  shows "basis_authorized d e"
  using assms by (auto simp: basis_authorized_def has_retry_budget_def)

lemma failures_final_step:
  assumes "statement mid d d'" "failures_final d"
  shows "failures_final d'"
  unfolding failures_final_def
proof (intro ballI impI)
  fix e assume e: "e \<in> set (executions d')" and c: "exec_status e = FailedExecution" "exec_ordinal e \<noteq> None"
  have partition: "\<not> basis_authorized d' e" if "\<not> retry_partition_violated d' (exec_id e)"
    using that e c by (auto simp: retry_partition_violated_def)
  from assms(1) e show "\<not> basis_authorized d' e"
  proof (cases rule: execution_origin)
    case kept
    with assms(2) c have old: "\<not> basis_authorized d e" by (simp add: failures_final_def)
    show ?thesis
    proof
      assume new: "basis_authorized d' e"
      with partition have violated: "retry_partition_violated d' (exec_id e)" by blast
      have "r \<in> set (replay_assessments d)"
        if "rep_execution r = exec_id e" "r \<in> set (replay_assessments d')" for r
        using replays_change [OF assms(1)]
      proof (elim disjE exE conjE)
        fix s assume s: "insert_row replay_assessments_table s d = Inr d'"
        then have "rep_execution s \<noteq> exec_id e"
          using violated by (auto simp: insert_row_Inr replay_assessments_table_def)
        with that replay_assessments_t.insert_rows [OF s] show ?thesis by auto
      next
        fix i s assume s: "update_row replay_assessments_table i s d = Inr d'"
        then have "rep_execution s \<noteq> exec_id e"
          using violated by (auto simp: update_row_Inr replay_assessments_table_def)
        with that replay_assessments_t.update_rows [OF s]
          set_update_subset_insert [of "replay_assessments d" i s] show ?thesis by auto
      qed (use that in simp)
      moreover have "obligations_of d' (exec_id e) = obligations_of d (exec_id e)"
        using obligations_change [OF assms(1)]
      proof (elim disjE exE conjE)
        fix s assume s: "insert_row obligations_table s d = Inr d'"
        then have "obl_execution s \<noteq> exec_id e"
          using violated by (auto simp: insert_row_Inr obligations_table_def)
        with obligations_t.insert_rows [OF s] show ?thesis by (simp add: obligations_of_def)
      next
        fix i s assume i: "i < length (obligations d)" and s: "update_row obligations_table i s d = Inr d'"
        then have "obl_execution s \<noteq> exec_id e" "obl_execution (obligations d ! i) = obl_execution s"
          using violated by (auto simp: update_row_Inr obligations_table_def
              obligation_update_refused_def frozen_violated_def)
        with obligations_t.update_rows [OF s] i show ?thesis
          by (simp add: obligations_of_def filter_update_neither)
      qed (simp add: obligations_of_def)
      ultimately have "basis_authorized d e" using basis_authorized_cong [OF _ _ _ _ _ _ new] by simp
      with old show False by simp
    qed
  next
    case inserted
    with c show ?thesis by simp
  next
    case (updated old)
    then have guard: "\<not> execution_guard d e"
      and ordinal: "accepts_previous (exec_lifecycle e) (exec_lifecycle old)"
      by (simp_all add: execution_update_refused_def ordinal_violated_def)
    have "exec_ordinal e = exec_ordinal old"
      using ordinal c by (cases "exec_lifecycle e"; cases "exec_ordinal old")
        (auto simp: ordinal_or_zero_def nonzero_ordinal_def split: if_splits)
    moreover have "\<not> basis_authorized d old"
      using guard c updated(1,2) unfolding execution_guard_def execution_kept_def by metis
    moreover have "replay_assessments d' = replay_assessments d" "obligations_of d' = obligations_of d"
      using updated(4) by (auto simp: obligations_of_def fun_eq_iff)
    ultimately show ?thesis
      using basis_authorized_cong [of e old d' d] updated(2) by (auto simp: execution_kept_def)
  qed
qed

subsection \<open>Publication evidence\<close>

definition intents_present :: "coordination \<Rightarrow> bool" where
  "intents_present d \<longleftrightarrow>
     (\<forall>ob \<in> set (obligations d). requires_intent (obl_state ob) \<longrightarrow>
        intent_at d (obl_execution ob) (obl_target ob) \<noteq> None)"

lemma intent_at_mono: "history_kept d d' \<Longrightarrow> intent_at d x t \<noteq> None \<Longrightarrow> intent_at d' x t \<noteq> None"
  using history_intents [of d d'] unfolding intent_at_iff by blast

lemma intents_present_step:
  assumes "statement mid d d'" "intents_present d"
  shows "intents_present d'"
  unfolding intents_present_def
proof (intro ballI impI)
  note mono = intent_at_mono [OF statement_history [OF assms(1)]]
  fix ob assume ob: "ob \<in> set (obligations d')" and req: "requires_intent (obl_state ob)"
  from assms(1) ob show "intent_at d' (obl_execution ob) (obl_target ob) \<noteq> None"
  proof (cases rule: obligation_origin)
    case kept
    with assms(2) req mono show ?thesis unfolding intents_present_def by blast
  next
    case inserted
    with req show ?thesis by (simp add: requires_intent_def)
  next
    case (updated old)
    from updated(5) req have "intent_at d (obl_execution ob) (obl_target ob) \<noteq> None"
      by (simp add: obligation_update_refused_def)
    then show ?thesis by (rule mono)
  qed
qed

definition publications_received :: "coordination \<Rightarrow> bool" where
  "publications_received d \<longleftrightarrow>
     (\<forall>ob \<in> set (obligations d). obl_state ob = PublishedResponse \<longrightarrow> published_receipt d ob)"

lemma published_receipt_mono: "history_kept d d' \<Longrightarrow> published_receipt d ob \<Longrightarrow> published_receipt d' ob"
  using history_receipts [of d d'] unfolding published_receipt_def by blast

lemma publications_received_step:
  assumes "statement mid d d'" "publications_received d"
  shows "publications_received d'"
  unfolding publications_received_def
proof (intro ballI impI)
  note mono = published_receipt_mono [OF statement_history [OF assms(1)]]
  fix ob assume ob: "ob \<in> set (obligations d')" and pub: "obl_state ob = PublishedResponse"
  from assms(1) ob show "published_receipt d' ob"
  proof (cases rule: obligation_origin)
    case kept
    with assms(2) pub mono show ?thesis unfolding publications_received_def by blast
  next
    case inserted
    with pub show ?thesis by simp
  next
    case (updated old)
    then have "published_receipt d ob"
      using pub unfolding obligation_update_refused_def by (auto simp: requires_intent_def)
    then show ?thesis by (rule mono)
  qed
qed

text \<open>Every receipt names the message its frozen intent expects.\<close>

definition receipt_expected :: "coordination \<Rightarrow> evidence \<Rightarrow> bool" where
  "receipt_expected d r \<longleftrightarrow>
     (\<exists>i \<in> set (publication_intents d). int_execution i = evi_execution r \<and>
        int_target i = evi_target r \<and> int_expected i = evi_message_id r)"

definition receipts_expected :: "coordination \<Rightarrow> bool" where
  "receipts_expected d \<longleftrightarrow> (\<forall>r \<in> set (publication_receipts d). receipt_expected d r)"

lemma receipts_expected_step:
  assumes "statement mid d d'" "receipts_expected d"
  shows "receipts_expected d'"
  unfolding receipts_expected_def
proof
  note intents = history_intents [OF statement_history [OF assms(1)]]
  fix r assume "r \<in> set (publication_receipts d')"
  with assms(1) show "receipt_expected d' r"
  proof (cases rule: receipt_origin)
    case kept
    with assms(2) intents show ?thesis unfolding receipts_expected_def receipt_expected_def by blast
  next
    case inserted
    then obtain i where i: "intent_at d (evi_execution r) (evi_target r) = Some i" by blast
    with inserted(1) have "evi_message_id r = int_expected i" by (simp add: receipt_insert_refused_def)
    with i intents show ?thesis
      using find_Some_in [OF i [unfolded intent_at_def]] unfolding receipt_expected_def by auto
  qed
qed

definition intents_sound :: "(message \<Rightarrow> string) \<Rightarrow> coordination \<Rightarrow> bool" where
  "intents_sound mid d \<longleftrightarrow> (\<forall>i \<in> set (publication_intents d). intent_valid mid i = Inr ())"

lemma intents_sound_step:
  assumes "statement mid d d'" "intents_sound mid d"
  shows "intents_sound mid d'"
  unfolding intents_sound_def
proof
  fix i assume "i \<in> set (publication_intents d')"
  with assms(1) show "intent_valid mid i = Inr ()"
    by (cases rule: intent_origin) (use assms(2) in \<open>simp_all add: intents_sound_def\<close>)
qed

subsection \<open>Claims\<close>

definition claims_valid :: "coordination \<Rightarrow> bool" where
  "claims_valid d \<longleftrightarrow> (\<forall>c \<in> set (wake_claims d). assignment_row_valid c = Inr ())"

lemma execution_id_stored:
  "tables_sound mid d \<Longrightarrow> has_execution d x \<Longrightarrow> execution_id_check x"
  using rows_sound_checks [of executions_table d]
  by (auto simp: tables_sound_def has_execution_def executions_table_def execution_checks_def)

lemma claims_valid_step:
  assumes "statement mid d d'" "claims_valid d" "tables_sound mid d'"
  shows "claims_valid d'"
  unfolding claims_valid_def
proof
  fix c assume "c \<in> set (wake_claims d')"
  with assms(1) show "assignment_row_valid c = Inr ()"
  proof (cases rule: claim_origin)
    case kept
    with assms(2) show ?thesis by (simp add: claims_valid_def)
  next
    case (updated old)
    have bound: "case asg_execution c of None \<Rightarrow> True | Some x \<Rightarrow> execution_id_check x"
      using updated(5) execution_id_stored [OF assms(3)] by (auto split: option.splits)
    have "assignment_row_valid old = Inr ()" using assms(2) updated(1) by (simp add: claims_valid_def)
    with updated(2-4) bound show ?thesis
      by (auto simp: assignment_row_valid_def claim_kept_def assignment_checks_def split: option.splits)
  qed
qed

subsection \<open>All invariants together\<close>

definition coordinator_sound :: "(message \<Rightarrow> string) \<Rightarrow> coordination \<Rightarrow> bool" where
  "coordinator_sound mid d \<longleftrightarrow>
     tables_sound mid d \<and> references_hold mid d \<and> obligations_routed d \<and> links_bound d \<and>
     links_ordered d \<and> owners_registered d \<and> attempts_counted d \<and> attempts_budgeted d \<and>
     attempts_chained d \<and> generations_current d \<and> interruptions_recorded d \<and>
     completions_settled d \<and> deferrals_retryable d \<and> failures_unpublished d \<and> failures_final d \<and>
     intents_present d \<and> publications_received d \<and> receipts_expected d \<and> intents_sound mid d \<and>
     claims_valid d"

lemma coordinator_sound_step:
  assumes "statement mid d d'" "coordinator_sound mid d"
  shows "coordinator_sound mid d'"
proof -
  note old = assms(2) [unfolded coordinator_sound_def]
  have "tables_sound mid d'" using old tables_sound_step [OF assms(1)] by blast
  moreover from this old claims_valid_step [OF assms(1)] have "claims_valid d'" by blast
  ultimately show ?thesis
    using old references_hold_step [OF assms(1)] obligations_routed_step [OF assms(1)]
      links_bound_step [OF assms(1)] links_ordered_step [OF assms(1)]
      owners_registered_step [OF assms(1)] attempts_counted_step [OF assms(1)]
      attempts_budgeted_step [OF assms(1)] attempts_chained_step [OF assms(1)]
      generations_current_step [OF assms(1)] interruptions_recorded_step [OF assms(1)]
      completions_settled_step [OF assms(1)] deferrals_retryable_step [OF assms(1)]
      failures_unpublished_step [OF assms(1)] failures_final_step [OF assms(1)]
      intents_present_step [OF assms(1)] publications_received_step [OF assms(1)]
      receipts_expected_step [OF assms(1)] intents_sound_step [OF assms(1)]
    unfolding coordinator_sound_def by blast
qed

lemma coordinator_sound_empty: "coordinator_sound mid empty_coordination"
  by (simp add: coordinator_sound_def empty_coordination_def tables_sound_def rows_sound_def
        table_defs references_hold_def rows_referenced_def obligations_routed_def links_bound_def
        links_ordered_def links_of_def owners_registered_def attempts_counted_def attempts_of_def
        attempts_budgeted_def attempts_chained_def generations_current_def
        interruptions_recorded_def completions_settled_def deferrals_retryable_def
        failures_unpublished_def failures_final_def intents_present_def publications_received_def
        receipts_expected_def intents_sound_def claims_valid_def)

lemma reachable_sound: "reachable mid d \<Longrightarrow> coordinator_sound mid d"
  by (erule reachable_invariant) (auto intro: coordinator_sound_empty coordinator_sound_step)

subsection \<open>Live attempts\<close>

text \<open>The pointer of an owner names its active execution; two live attempts of one owner are the
  same attempt.\<close>

lemma live_attempt_pointed:
  assumes "deferred_ok d" "a \<in> set (attempts d)" "\<not> terminal_attempt (att_phase a)"
  obtains e p where "e \<in> set (executions d)" "exec_id e = att_execution a"
    "exec_lifecycle e = ActiveE (att_ordinal a)" "exec_owner e = att_owner a"
    "p \<in> set (current_executions d)" "ptr_owner p = att_owner a"
    "ptr_execution p = Some (att_execution a)" "ptr_attempt p = Some (att_ordinal a)"
proof -
  from assms have "attempt_supported d a" by (simp add: deferred_ok_def)
  with assms(3) obtain e where e: "e \<in> set (executions d)" "exec_id e = att_execution a"
    "exec_ordinal e = Some (att_ordinal a)" "exec_owner e = att_owner a"
    "exec_status e = ActiveExecution"
    unfolding attempt_supported_def by blast
  from assms(1) e(1) have "execution_supported d e" by (simp add: deferred_ok_def)
  with e(5) obtain p where "p \<in> set (current_executions d)" "ptr_owner p = exec_owner e"
    "ptr_execution p = Some (exec_id e)" "ptr_attempt p = exec_ordinal e"
    unfolding execution_supported_def by blast
  moreover have "exec_lifecycle e = ActiveE (att_ordinal a)"
    using e(3,5) by (cases "exec_lifecycle e") simp_all
  ultimately show thesis using that e by simp
qed

end
