(* ===== verification/Recovery_Snapshot.thy ===== *)
theory Recovery_Snapshot
  imports Coordinator_Schema
begin

text \<open>
  \<open>coordination/snapshot.py\<close> and \<open>recovery_reader.py\<close>: the aggregate of everything stored about one
  execution, the agreement its constructor requires between the parts, and the reader that builds
  it from the tables.  A reader's refusal is the exception the source raises.
\<close>

subsection \<open>Participants\<close>

record participant_snapshot =
  ps_lookup :: string
  ps_committed :: bool
  ps_generation :: owner_generation
  ps_pointer :: current_execution

definition read_participant :: "coordination \<Rightarrow> string \<Rightarrow> participant_snapshot result" where
  "read_participant d p =
     rbind (require_row (\<lambda>_. Inr ()) (\<lambda>r. participant_lookup r = p)
              (ParticipantNotRegistered p) (participants d)) (\<lambda>person.
     rbind (require_row (\<lambda>_. Inr ()) (\<lambda>r. gen_owner r = p)
              (ParticipantNotRegistered p) (owner_generations d)) (\<lambda>gen.
     rbind (require_row pointer_valid (\<lambda>r. ptr_owner r = p)
              (ParticipantNotRegistered p) (current_executions d)) (\<lambda>pointer.
     Inr \<lparr>ps_lookup = p, ps_committed = committed person, ps_generation = gen, ps_pointer = pointer\<rparr>)))"

subsection \<open>Snapshots\<close>

record snapshot =
  snap_execution :: execution
  snap_attempt :: "attempt option"
  snap_assignments :: "assignment list"
  snap_links :: "link list"
  snap_replay :: "replay option"
  snap_obligations :: "obligation list"
  snap_intents :: "intent list"
  snap_evidence :: "evidence list"
  snap_recovery :: "audit option"
  snap_current_execution :: "string option"
  snap_current_ordinal :: "int option"
  snap_pointer_revision :: int
  snap_is_current :: bool

definition response_record :: "('r \<Rightarrow> string) \<Rightarrow> 'r list \<Rightarrow> string \<Rightarrow> 'r option" where
  "response_record target records t = find (\<lambda>r. target r = t) records"

definition snapshot_retry_authorized :: "snapshot \<Rightarrow> bool" where
  "snapshot_retry_authorized s \<longleftrightarrow>
     has_retry_budget (exec_lifecycle (snap_execution s)) (exec_max_attempts (snap_execution s)) \<and>
     (case snap_replay s of None \<Rightarrow> False | Some r \<Rightarrow> replay_allows_retry r) \<and>
     origin_retry_authorized (exec_origin (snap_execution s)) (snap_obligations s)"

definition snapshot_can_retry :: "snapshot \<Rightarrow> bool" where
  "snapshot_can_retry s \<longleftrightarrow>
     execution_can_retry (exec_lifecycle (snap_execution s)) (snapshot_retry_authorized s)
       (map_option att_lifecycle (snap_attempt s)) (snap_is_current s)"

subsection \<open>Validation\<close>

definition validate_membership :: "snapshot \<Rightarrow> unit result" where
  "validate_membership s =
     (let e = snap_execution s; x = exec_id e in
      rbind (require (case snap_replay s of None \<Rightarrow> True | Some r \<Rightarrow> rep_execution r = x)
               (IntegrityViolationError ''snapshot records belong to another execution'')) (\<lambda>_.
      rbind (require
               (list_all (\<lambda>ob. obl_execution ob = x) (snap_obligations s) \<and>
                list_all (\<lambda>i. int_execution i = x) (snap_intents s) \<and>
                list_all (\<lambda>r. evi_execution r = x) (snap_evidence s) \<and>
                (case snap_recovery s of None \<Rightarrow> True | Some r \<Rightarrow> aud_execution r = x) \<and>
                list_all (\<lambda>c. asg_execution c = Some x) (snap_assignments s))
               (IntegrityViolationError ''snapshot records belong to another execution'')) (\<lambda>_.
      rbind (require
               (map link_assignment (snap_links s) = map asg_id (snap_assignments s) \<and>
                map link_ordinal (snap_links s) = map int [0..<length (snap_assignments s)] \<and>
                list_all (\<lambda>l. link_execution l = x) (snap_links s))
               (IntegrityViolationError ''snapshot execution-claim links disagree with ordered claims'')) (\<lambda>_.
      rbind (require
               (distinct (map asg_id (snap_assignments s)) \<and>
                list_all (\<lambda>c. asg_recipient_lookup c = exec_owner e) (snap_assignments s))
               (IntegrityViolationError ''snapshot claims have duplicate IDs or wrong owner'')) (\<lambda>_.
      require (list_all (\<lambda>c. asg_kind c = execution_assignment_state (exec_status e)) (snap_assignments s))
        (IntegrityViolationError ''snapshot claims disagree with execution disposition''))))))"

definition validate_attempt_identity :: "snapshot \<Rightarrow> unit result" where
  "validate_attempt_identity s =
     (let e = snap_execution s in
      rbind (require ((exec_ordinal e = None) = (snap_attempt s = None))
               (IntegrityViolationError ''snapshot attempt does not match execution reference'')) (\<lambda>_.
      case snap_attempt s of
        None \<Rightarrow> Inr ()
      | Some a \<Rightarrow>
          rbind (require (att_execution a = exec_id e \<and> Some (att_ordinal a) = exec_ordinal e \<and>
                    att_owner a = exec_owner e)
                   (IntegrityViolationError ''snapshot attempt identity/owner mismatch'')) (\<lambda>_.
          require (accepts_attempt (exec_lifecycle e) (att_lifecycle a))
            (IntegrityViolationError ''snapshot status/attempt phase mismatch''))))"

definition validate_current_pointer :: "snapshot \<Rightarrow> unit result" where
  "validate_current_pointer s =
     (let e = snap_execution s in
      rbind (require ((snap_current_execution s = None) = (snap_current_ordinal s = None))
               (IntegrityViolationError ''snapshot pointer tuple is incomplete'')) (\<lambda>_.
      require (snap_is_current s =
          (snap_current_execution s = Some (exec_id e) \<and>
           snap_current_ordinal s = exec_ordinal e \<and>
           has_capability execution_capabilities (exec_status e) Active \<and>
           (case snap_attempt s of None \<Rightarrow> False
            | Some a \<Rightarrow> accepts_active_execution (att_lifecycle a))))
        (IntegrityViolationError ''snapshot current pointer is inconsistent'')))"

definition validate_routes :: "origin \<Rightarrow> assignment list \<Rightarrow> obligation list \<Rightarrow> unit result" where
  "validate_routes origin claims obls =
     (if origin = WireOrigin
      then require (claims \<noteq> [] \<and> obls \<noteq> [])
             (IntegrityViolationError ''wire snapshots require original obligations'')
      else require (claims = [] \<and> obls = [])
             (IntegrityViolationError ''claimless snapshots cannot have claims or obligations''))"

definition claim_targets :: "assignment list \<Rightarrow> string option set" where
  "claim_targets claims = set (map (\<lambda>c. asg_target c) claims)"

definition validate_response_route :: "snapshot \<Rightarrow> unit result" where
  "validate_response_route s =
     (let expected = claim_targets (snap_assignments s); targets = map obl_target (snap_obligations s) in
      rbind (validate_routes (exec_origin (snap_execution s)) (snap_assignments s) (snap_obligations s)) (\<lambda>_.
      rbind (require (distinct targets \<and> Some ` set targets = expected)
               (IntegrityViolationError ''response obligations differ from original claim routes'')) (\<lambda>_.
      rbind (require (distinct (map int_target (snap_intents s)) \<and>
                 Some ` set (map int_target (snap_intents s)) \<subseteq> expected)
               (IntegrityViolationError ''publication routes differ from original obligations'')) (\<lambda>_.
      require (distinct (map evi_target (snap_evidence s)) \<and>
          Some ` set (map evi_target (snap_evidence s)) \<subseteq> expected)
        (IntegrityViolationError ''publication routes differ from original obligations'')))))"

definition validate_publication ::
  "response_state \<Rightarrow> intent option \<Rightarrow> evidence option \<Rightarrow> unit result" where
  "validate_publication st i ack =
     rbind (require (i = None \<or> allows_intent (response_kind_of st))
              (IntegrityViolationError ''publication intent is invalid for obligation state'')) (\<lambda>_.
     rbind (require (i \<noteq> None \<or> \<not> requires_intent (response_kind_of st))
              (IntegrityViolationError ''publishing and published obligations require intent'')) (\<lambda>_.
     rbind (validate_acknowledgement st (map_option (\<lambda>r. (evi_message_id r, evi_seq r)) ack)) (\<lambda>_.
     case (ack, i) of
       (None, _) \<Rightarrow> Inr ()
     | (Some r, Some frozen) \<Rightarrow> validate_intent_acknowledgement frozen r
     | (Some r, None) \<Rightarrow> Inl (ValueError ''acknowledgement without intent''))))"

definition validate_publication_receipt :: "snapshot \<Rightarrow> unit result" where
  "validate_publication_receipt s =
     rforeach (snap_obligations s) (\<lambda>ob.
       validate_publication (obl_lifecycle ob)
         (response_record int_target (snap_intents s) (obl_target ob))
         (response_record evi_target (snap_evidence s) (obl_target ob)))"

text \<open>The state-specific rules: \<open>validate_snapshot\<close> of each execution state.\<close>

fun validate_execution_state :: "execution_state \<Rightarrow> snapshot \<Rightarrow> unit result" where
  "validate_execution_state (ActiveE n) s =
     require (snap_is_current s)
       (IntegrityViolationError ''active snapshot must carry exact owner pointer'')"
| "validate_execution_state (CompletedE n) s =
     rforeach (snap_obligations s) (\<lambda>ob.
       require_capability response_capabilities (obl_state ob) Successful
         (IntegrityViolationError ''completed wire execution requires terminal obligation''))"
| "validate_execution_state (DeferredE n) s =
     require (snap_attempt s = None \<or> snapshot_retry_authorized s)
       (IntegrityViolationError ''post-attempt deferral requires authorized retry'')"
| "validate_execution_state (FailedE n) s =
     rbind (require (snap_evidence s = [])
              (IntegrityViolationError ''failed execution cannot erase a publication acknowledgement'')) (\<lambda>_.
     require (snap_attempt s = None \<or> \<not> snapshot_retry_authorized s)
       (IntegrityViolationError ''authorized retry cannot settle failed''))"
| "validate_execution_state _ s = Inr ()"

definition snapshot_valid :: "snapshot \<Rightarrow> unit result" where
  "snapshot_valid s =
     rbind (require (0 \<le> snap_pointer_revision s) (ValueError ''pointer_revision cannot be negative'')) (\<lambda>_.
     rbind (validate_membership s) (\<lambda>_.
     rbind (validate_attempt_identity s) (\<lambda>_.
     rbind (validate_current_pointer s) (\<lambda>_.
     rbind (validate_response_route s) (\<lambda>_.
     rbind (validate_publication_receipt s) (\<lambda>_.
     validate_execution_state (exec_lifecycle (snap_execution s)) s))))))"

subsection \<open>The reader\<close>

definition get_assignment :: "coordination \<Rightarrow> string \<Rightarrow> assignment result" where
  "get_assignment d claim =
     require_row assignment_row_valid (\<lambda>c. asg_id c = claim) (IdentityConflict ''unknown claim'')
       (wake_claims d)"

definition last_audit :: "coordination \<Rightarrow> string \<Rightarrow> audit option result" where
  "last_audit d x =
     rbind (decode_rows audit_valid
              (take 1 (rev (sort_key aud_id (filter (\<lambda>r. aud_execution r = x) (recovery_audits d)))))) (\<lambda>rows.
     Inr (case rows of [] \<Rightarrow> None | r # _ \<Rightarrow> Some r))"

definition get :: "(message \<Rightarrow> string) \<Rightarrow> coordination \<Rightarrow> string \<Rightarrow> snapshot result" where
  "get mid d x =
     rbind (require_row execution_valid (\<lambda>e. exec_id e = x) (IdentityConflict ''unknown execution'')
              (executions d)) (\<lambda>e.
     rbind (case exec_ordinal e of
              None \<Rightarrow> Inr None
            | Some n \<Rightarrow> one_row attempt_valid (\<lambda>a. att_execution a = x \<and> att_ordinal a = n) (attempts d)) (\<lambda>attempt.
     rbind (decode_rows link_valid (sort_key link_ordinal (links_of d x))) (\<lambda>links.
     rbind (rmap (\<lambda>l. get_assignment d (link_assignment l)) links) (\<lambda>claims.
     rbind (one_row replay_valid (\<lambda>r. rep_execution r = x) (replay_assessments d)) (\<lambda>replay.
     rbind (decode_rows obligation_valid (sort_key obl_target (obligations_of d x))) (\<lambda>obls.
     rbind (decode_rows (intent_valid mid) (sort_key int_target (intents_of d x))) (\<lambda>intents.
     rbind (decode_rows (\<lambda>_. Inr ()) (sort_key evi_target (receipts_of d x))) (\<lambda>receipts.
     rbind (last_audit d x) (\<lambda>audit.
     rbind (read_participant d (exec_owner e)) (\<lambda>person.
     let pointer = ps_pointer person;
         s = \<lparr>snap_execution = e, snap_attempt = attempt, snap_assignments = claims,
              snap_links = links, snap_replay = replay, snap_obligations = obls,
              snap_intents = intents, snap_evidence = receipts, snap_recovery = audit,
              snap_current_execution = ptr_execution pointer,
              snap_current_ordinal = ptr_attempt pointer,
              snap_pointer_revision = ptr_revision pointer,
              snap_is_current = (ptr_execution pointer = Some x)\<rparr>
     in rbind (snapshot_valid s) (\<lambda>_. Inr s)))))))))))"

subsection \<open>Requirements on a snapshot\<close>

definition require_attempt :: "snapshot \<Rightarrow> attempt result" where
  "require_attempt s =
     (case snap_attempt s of Some a \<Rightarrow> Inr a
      | None \<Rightarrow> Inl (StaleFence ''execution has no authorized attempt''))"

definition require_current_attempt :: "snapshot \<Rightarrow> attempt result" where
  "require_current_attempt s =
     (if snap_is_current s then require_attempt s else Inl (StaleFence ''attempt fence is not current''))"

definition require_wire_responses :: "snapshot \<Rightarrow> obligation list result" where
  "require_wire_responses s =
     (if snap_assignments s = [] \<or> snap_obligations s = []
      then Inl (IdentityConflict ''wire response requires original claims and obligations'')
      else Inr (snap_obligations s))"

definition require_wire_response :: "snapshot \<Rightarrow> string \<Rightarrow> obligation result" where
  "require_wire_response s t =
     rbind (require_wire_responses s) (\<lambda>obls.
       case response_record obl_target obls t of
         Some ob \<Rightarrow> Inr ob
       | None \<Rightarrow> Inl (IdentityConflict ''response route is absent from original obligations''))"

definition snapshot_require_final_response :: "snapshot \<Rightarrow> string \<Rightarrow> string \<Rightarrow> obligation result" where
  "snapshot_require_final_response s recipient t =
     rbind (require (exec_owner (snap_execution s) = recipient)
              (StaleFence ''response turn belongs to a different SQL recipient'')) (\<lambda>_.
     rbind (execution_require_final_response (exec_lifecycle (snap_execution s))) (\<lambda>_.
     rbind (require_attempt s) (\<lambda>a.
     rbind (attempt_require_final_response (att_lifecycle a)) (\<lambda>_.
     require_wire_response s t))))"

definition snapshot_require_preparation :: "snapshot \<Rightarrow> string \<Rightarrow> obligation result" where
  "snapshot_require_preparation s t =
     rbind (require_wire_response s t) (\<lambda>ob.
     rbind (require_preparation (obl_lifecycle ob)) (\<lambda>_. Inr ob))"

definition require_nonpublication_response :: "snapshot \<Rightarrow> unit result" where
  "require_nonpublication_response s =
     rforeach (snap_obligations s) (\<lambda>ob. require_nonpublication (obl_lifecycle ob))"

definition completed_response :: "snapshot \<Rightarrow> bool" where
  "completed_response s \<longleftrightarrow>
     has_capability execution_capabilities (exec_status (snap_execution s)) Complete"

text \<open>\<open>disposition\<close> of the terminal attempts: what an outcome makes of the execution and of its
  obligations.\<close>

fun disposition :: "terminal_phase \<Rightarrow> snapshot \<Rightarrow> attempt \<Rightarrow> (execution_state \<times> response_state) result" where
  "disposition Succeeded s a =
     rbind (require_silent_completion (att_lifecycle a)) (\<lambda>_.
     rbind (require_nonpublication_response s) (\<lambda>_.
     Inr (CompletedE (att_ordinal a), SilentR)))"
| "disposition AttemptFailed s a =
     (if snapshot_retry_authorized s then Inr (DeferredE (Some (att_ordinal a)), DeferredR)
      else Inr (FailedE (Some (att_ordinal a)), FailedR))"
| "disposition UnknownOutcome s a = Inr (FailedE (Some (att_ordinal a)), FailedR)"

end
