(* ===== verification/Recovery_Reads.thy ===== *)
theory Recovery_Reads
  imports Coordinator_Consistency Recovery_Snapshot
begin

text \<open>
  Reading a committed database never fails: for every stored execution of a reachable database the
  reader builds a snapshot, and every agreement the snapshot's constructor demands holds.  The
  value it returns is given in closed form.
\<close>

subsection \<open>Stored rows pass their constructors\<close>

lemma sound_tables: "coordinator_sound mid d \<Longrightarrow> tables_sound mid d"
  by (simp add: coordinator_sound_def)

lemma execution_row_valid:
  assumes "tables_sound mid d" "e \<in> set (executions d)"
  shows "execution_valid e = Inr ()"
proof -
  have c: "execution_checks e"
    using assms rows_sound_checks [of executions_table d e]
    by (simp add: tables_sound_def executions_table_def)
  have "execution_state_valid (exec_lifecycle e)"
    using c by (cases "exec_lifecycle e") (simp_all add: execution_checks_def within_budget_def)
  moreover have "validate_budget (exec_lifecycle e) (exec_max_attempts e) = Inr ()"
    using c by (cases "exec_lifecycle e") (auto simp: execution_checks_def)
  ultimately show ?thesis using c by (simp add: execution_valid_def execution_checks_def)
qed

lemma attempt_row_valid:
  assumes "tables_sound mid d" "references_hold mid d" "a \<in> set (attempts d)"
  shows "attempt_valid a = Inr ()"
proof -
  have c: "attempt_checks a"
    using assms rows_sound_checks [of attempts_table d a]
    by (simp add: tables_sound_def attempts_table_def)
  have "has_execution d (att_execution a)"
    using assms(2,3) by (simp add: references_hold_def rows_referenced_def attempts_table_def)
  then have "execution_id_check (att_execution a)" by (rule execution_id_stored [OF assms(1)])
  moreover have "attempt_state_valid (att_lifecycle a)"
    using c by (cases "att_lifecycle a") (simp_all add: attempt_checks_def)
  ultimately show ?thesis using c by (simp add: attempt_valid_def attempt_checks_def)
qed

lemma replay_row_valid:
  assumes "tables_sound mid d" "references_hold mid d" "r \<in> set (replay_assessments d)"
  shows "replay_valid r = Inr ()"
proof -
  have c: "replay_checks r"
    using assms rows_sound_checks [of replay_assessments_table d r]
    by (simp add: tables_sound_def replay_assessments_table_def)
  have "has_execution d (rep_execution r)"
    using assms(2,3) by (simp add: references_hold_def rows_referenced_def replay_assessments_table_def)
  then have "execution_id_check (rep_execution r)" by (rule execution_id_stored [OF assms(1)])
  then show ?thesis
    using c approved_bits_iff [of "rep_facts r"] by (auto simp: replay_valid_def replay_checks_def)
qed

lemma obligation_row_valid:
  assumes "tables_sound mid d" "references_hold mid d" "ob \<in> set (obligations d)"
  shows "obligation_valid ob = Inr ()"
proof -
  have c: "obligation_checks ob"
    using assms rows_sound_checks [of obligations_table d ob]
    by (simp add: tables_sound_def obligations_table_def)
  have "has_execution d (obl_execution ob)"
    using assms(2,3) by (simp add: references_hold_def rows_referenced_def obligations_table_def)
  then have "execution_id_check (obl_execution ob)" by (rule execution_id_stored [OF assms(1)])
  moreover have "response_state_valid (obl_lifecycle ob)"
    using c by (cases "obl_lifecycle ob") (simp_all add: obligation_checks_def)
  ultimately show ?thesis using c by (simp add: obligation_valid_def obligation_checks_def)
qed

lemma audit_row_valid:
  assumes "tables_sound mid d" "references_hold mid d" "r \<in> set (recovery_audits d)"
  shows "audit_valid r = Inr ()"
proof -
  have "row_checks recovery_audits_table r"
    using assms rows_sound_checks [of recovery_audits_table d r] by (simp add: tables_sound_def)
  moreover have "has_execution d (aud_execution r)"
    using assms(2,3) by (simp add: references_hold_def rows_referenced_def recovery_audits_table_def)
  then have "execution_id_check (aud_execution r)" by (rule execution_id_stored [OF assms(1)])
  ultimately show ?thesis by (simp add: audit_valid_def recovery_audits_table_def)
qed

lemma link_row_valid:
  assumes "coordinator_sound mid d" "l \<in> set (execution_claims d)"
  shows "link_valid l = Inr ()"
proof -
  note t = sound_tables [OF assms(1)]
  have "0 \<le> link_ordinal l"
    using t assms(2) rows_sound_checks [of execution_claims_table d l]
    by (simp add: tables_sound_def execution_claims_table_def)
  moreover have "has_execution d (link_execution l)"
    using assms by (simp add: coordinator_sound_def references_hold_def rows_referenced_def
        execution_claims_table_def)
  then have "execution_id_check (link_execution l)" by (rule execution_id_stored [OF t])
  moreover obtain c where "c \<in> set (wake_claims d)" "asg_id c = link_assignment l"
    using assms by (auto simp: coordinator_sound_def links_bound_def link_bound_def)
  then have "text_within 256 (link_assignment l)"
    using assms(1) by (auto simp: coordinator_sound_def claims_valid_def assignment_row_valid_def)
  ultimately show ?thesis by (simp add: link_valid_def)
qed

lemma pointer_row_valid:
  assumes "coordinator_sound mid d" "deferred_ok d" "p \<in> set (current_executions d)"
  shows "pointer_valid p = Inr ()"
proof -
  note t = sound_tables [OF assms(1)]
  have c: "0 \<le> ptr_revision p" "(ptr_execution p = None) = (ptr_attempt p = None)"
    using t assms(3) rows_sound_checks [of current_executions_table d p]
    by (simp_all add: tables_sound_def current_executions_table_def)
  have s: "pointer_supported d p" using assms(2,3) by (simp add: deferred_ok_def)
  show ?thesis
  proof (cases "ptr_execution p")
    case None
    with c show ?thesis by (simp add: pointer_valid_def)
  next
    case (Some x)
    with c obtain n where n: "ptr_attempt p = Some n" by auto
    with s Some obtain e a where "e \<in> set (executions d)" "exec_id e = x"
      "a \<in> set (attempts d)" "att_ordinal a = n"
      by (auto simp: pointer_supported_def)
    then have "execution_id_check x" "0 < n"
      using execution_row_valid [OF t] rows_sound_checks [of attempts_table d a] t
      by (auto simp: execution_valid_def tables_sound_def attempts_table_def attempt_checks_def)
    with c Some n show ?thesis by (simp add: pointer_valid_def)
  qed
qed

subsection \<open>The attempt an execution refers to\<close>

lemma committed_attempt:
  assumes "coordinator_sound mid d" "deferred_ok d" "e \<in> set (executions d)" "exec_ordinal e = Some n"
  shows "\<exists>a \<in> set (attempts d). att_execution a = exec_id e \<and> att_ordinal a = n \<and>
    att_owner a = exec_owner e \<and> accepts_attempt (exec_lifecycle e) (att_lifecycle a)"
proof (cases "interrupted_execution (exec_status e)")
  case True
  with assms obtain a where "a \<in> set (attempts d)" "att_execution a = exec_id e"
    "att_ordinal a = n" "att_owner a = exec_owner e" "failed_attempt (att_phase a)"
    by (auto simp: coordinator_sound_def interruptions_recorded_def failed_attempt_of_def)
  moreover have "accepts_attempt (exec_lifecycle e) (att_lifecycle a)"
    using True calculation(5) by (cases "exec_lifecycle e") (auto simp: interrupted_execution_def)
  ultimately show ?thesis by blast
next
  case False
  have s: "execution_supported d e" using assms(2,3) by (simp add: deferred_ok_def)
  have live: "accepts_active_execution (att_lifecycle a)" if "\<not> terminal_attempt (att_phase a)" for a
    using that by (cases "att_lifecycle a") auto
  have ended: "att_lifecycle a = Ended t" if "att_phase a = TerminalPhase t" for a t
    using that by (cases "att_lifecycle a") auto
  show ?thesis
  proof (cases "exec_lifecycle e")
    case (ActiveE m)
    with s assms(4) obtain a where "a \<in> set (attempts d)" "att_execution a = exec_id e"
      "att_ordinal a = n" "att_owner a = exec_owner e" "\<not> terminal_attempt (att_phase a)"
      unfolding execution_supported_def by auto
    with ActiveE live show ?thesis by auto
  next
    case (CompletedE m)
    with s assms(4) obtain a where "a \<in> set (attempts d)" "att_execution a = exec_id e"
      "att_ordinal a = n" "att_owner a = exec_owner e" "att_phase a = TerminalPhase Succeeded"
      unfolding execution_supported_def by auto
    with CompletedE ended show ?thesis by auto
  qed (use assms(4) False in \<open>auto simp: interrupted_execution_def\<close>)
qed

subsection \<open>The snapshot of a committed execution\<close>

definition claim_of_link :: "coordination \<Rightarrow> link \<Rightarrow> assignment" where
  "claim_of_link d l = hd (filter (\<lambda>c. asg_id c = link_assignment l) (wake_claims d))"

definition pointer_of :: "coordination \<Rightarrow> string \<Rightarrow> current_execution" where
  "pointer_of d p = hd (filter (\<lambda>q. ptr_owner q = p) (current_executions d))"

definition committed_snapshot :: "coordination \<Rightarrow> execution \<Rightarrow> snapshot" where
  "committed_snapshot d e =
     (let x = exec_id e; pointer = pointer_of d (exec_owner e) in
      \<lparr>snap_execution = e,
       snap_attempt = (case exec_ordinal e of None \<Rightarrow> None
         | Some n \<Rightarrow> find (\<lambda>a. att_execution a = x \<and> att_ordinal a = n) (attempts d)),
       snap_assignments = map (claim_of_link d) (links_of d x),
       snap_links = links_of d x,
       snap_replay = find (\<lambda>r. rep_execution r = x) (replay_assessments d),
       snap_obligations = sort_key obl_target (obligations_of d x),
       snap_intents = sort_key int_target (intents_of d x),
       snap_evidence = sort_key evi_target (receipts_of d x),
       snap_recovery = (case rev (sort_key aud_id (filter (\<lambda>r. aud_execution r = x) (recovery_audits d))) of
         [] \<Rightarrow> None | r # _ \<Rightarrow> Some r),
       snap_current_execution = ptr_execution pointer,
       snap_current_ordinal = ptr_attempt pointer,
       snap_pointer_revision = ptr_revision pointer,
       snap_is_current = (ptr_execution pointer = Some x)\<rparr>)"

lemma one_row_find:
  assumes "rows_sound T d" "\<And>x y. P x \<Longrightarrow> P y \<Longrightarrow> row_conflict T x y"
    "\<And>r. r \<in> set (table_rows T d) \<Longrightarrow> check r = Inr ()"
  shows "one_row check P (table_rows T d) = Inr (find P (table_rows T d))"
proof (cases "find P (table_rows T d)")
  case None
  then have "filter P (table_rows T d) = []" by (simp add: find_None_iff filter_empty_conv)
  with None show ?thesis by (simp add: one_row_def)
next
  case (Some r)
  then have r: "r \<in> set (table_rows T d)" "P r" using find_Some_in by fast+
  have "filter P (table_rows T d) = [r]"
    using rows_sound_filter [of T d r P] assms(1,2) r by blast
  with Some assms(3) [OF r(1)] show ?thesis by (simp add: one_row_unique)
qed

lemma find_filter_hd: "filter P xs = [r] \<Longrightarrow> find P xs = Some r"
  by (induction xs) (auto split: if_splits)

lemma claim_of_link_eq:
  assumes "tables_sound mid d" "c \<in> set (wake_claims d)" "asg_id c = link_assignment l"
  shows "filter (\<lambda>c. asg_id c = link_assignment l) (wake_claims d) = [c]" "claim_of_link d l = c"
proof -
  show "filter (\<lambda>c. asg_id c = link_assignment l) (wake_claims d) = [c]"
    using rows_sound_filter [of wake_claims_table d c "\<lambda>c. asg_id c = link_assignment l"] assms
    by (simp add: tables_sound_def wake_claims_table_def)
  then show "claim_of_link d l = c" by (simp add: claim_of_link_def)
qed

lemma claim_of_link_bound:
  assumes "coordinator_sound mid d" "l \<in> set (execution_claims d)"
  obtains c e where "claim_of_link d l = c" "c \<in> set (wake_claims d)" "asg_id c = link_assignment l"
    "asg_execution c = Some (link_execution l)" "asg_target c \<noteq> None"
    "e \<in> set (executions d)" "exec_id e = link_execution l" "asg_recipient_lookup c = exec_owner e"
    "get_assignment d (link_assignment l) = Inr c"
proof -
  from assms obtain e c where ec: "e \<in> set (executions d)" "c \<in> set (wake_claims d)"
    "exec_id e = link_execution l" "asg_id c = link_assignment l"
    "asg_execution c = Some (link_execution l)" "asg_target c \<noteq> None"
    "asg_recipient_lookup c = exec_owner e"
    by (auto simp: coordinator_sound_def links_bound_def link_bound_def)
  note eq = claim_of_link_eq [OF sound_tables [OF assms(1)] ec(2,4)]
  have "assignment_row_valid c = Inr ()"
    using assms(1) ec(2) by (simp add: coordinator_sound_def claims_valid_def)
  then have "get_assignment d (link_assignment l) = Inr c"
    using one_row_unique [OF eq(1)] by (simp add: get_assignment_def require_row_def)
  with ec eq that show thesis by blast
qed

lemma pointer_of_eq:
  assumes "coordinator_sound mid d" "e \<in> set (executions d)"
  obtains p where "pointer_of d (exec_owner e) = p" "p \<in> set (current_executions d)"
    "ptr_owner p = exec_owner e" "filter (\<lambda>q. ptr_owner q = exec_owner e) (current_executions d) = [p]"
proof -
  from assms obtain p where p: "p \<in> set (current_executions d)" "ptr_owner p = exec_owner e"
    by (auto simp: coordinator_sound_def owners_registered_def registered_owner_def)
  have "filter (\<lambda>q. ptr_owner q = exec_owner e) (current_executions d) = [p]"
    using rows_sound_filter [of current_executions_table d p "\<lambda>q. ptr_owner q = exec_owner e"] p
      sound_tables [OF assms(1)]
    by (simp add: tables_sound_def current_executions_table_def)
  with p that show thesis by (simp add: pointer_of_def)
qed

lemma read_participant_committed:
  assumes "coordinator_sound mid d" "deferred_ok d" "e \<in> set (executions d)"
  shows "\<exists>person. read_participant d (exec_owner e) = Inr person \<and>
    ps_pointer person = pointer_of d (exec_owner e) \<and> ps_lookup person = exec_owner e"
proof -
  note t = sound_tables [OF assms(1)]
  obtain p where p: "pointer_of d (exec_owner e) = p" "p \<in> set (current_executions d)"
    "filter (\<lambda>q. ptr_owner q = exec_owner e) (current_executions d) = [p]"
    using pointer_of_eq [OF assms(1,3)] by metis
  from assms obtain g where g: "g \<in> set (owner_generations d)" "gen_owner g = exec_owner e"
    by (auto simp: coordinator_sound_def owners_registered_def registered_owner_def)
  have "has_participant d (exec_owner e)"
    using assms by (simp add: coordinator_sound_def references_hold_def rows_referenced_def
        executions_table_def)
  then obtain r where r: "r \<in> set (participants d)" "participant_lookup r = exec_owner e"
    by (auto simp: has_participant_def)
  have "filter (\<lambda>r. participant_lookup r = exec_owner e) (participants d) = [r]"
    using rows_sound_filter [of participants_table d r "\<lambda>r. participant_lookup r = exec_owner e"] r t
    by (simp add: tables_sound_def participants_table_def)
  moreover have "filter (\<lambda>r. gen_owner r = exec_owner e) (owner_generations d) = [g]"
    using rows_sound_filter [of owner_generations_table d g "\<lambda>r. gen_owner r = exec_owner e"] g t
    by (simp add: tables_sound_def owner_generations_table_def)
  ultimately show ?thesis
    using p pointer_row_valid [OF assms(1,2) p(2)]
    by (simp add: read_participant_def require_row_def one_row_unique)
qed

lemma distinct_map_nth:
  assumes "\<And>i j. i < j \<Longrightarrow> j < length rows \<Longrightarrow> Q (rows ! i) \<Longrightarrow> Q (rows ! j) \<Longrightarrow> f (rows ! i) \<noteq> f (rows ! j)"
  shows "distinct (map f (filter Q rows))"
  using assms
proof (induction rows)
  case (Cons r rows)
  have "distinct (map f (filter Q rows))"
  proof (rule Cons.IH)
    fix i j
    assume "i < j" "j < length rows" "Q (rows ! i)" "Q (rows ! j)"
    then show "f (rows ! i) \<noteq> f (rows ! j)" using Cons.prems [of "Suc i" "Suc j"] by simp
  qed
  moreover have "f r \<noteq> f y" if y: "y \<in> set rows" "Q y" "Q r" for y
  proof -
    obtain j where "j < length rows" "rows ! j = y" using y(1) by (auto simp: in_set_conv_nth)
    then show ?thesis using Cons.prems [of 0 "Suc j"] y(2,3) by simp
  qed
  ultimately show ?case by auto
next
  case Nil
  show ?case by simp
qed

lemma distinct_key:
  assumes "rows_sound T d" "\<And>x y. Q x \<Longrightarrow> Q y \<Longrightarrow> f x = f y \<Longrightarrow> row_conflict T x y"
  shows "distinct (map f (filter Q (table_rows T d)))"
proof (rule distinct_map_nth)
  fix i j
  assume "i < j" "j < length (table_rows T d)" "Q (table_rows T d ! i)" "Q (table_rows T d ! j)"
  moreover from this(1,2) have "\<not> row_conflict T (table_rows T d ! i) (table_rows T d ! j)"
    using assms(1) unfolding rows_sound_def by simp
  ultimately show "f (table_rows T d ! i) \<noteq> f (table_rows T d ! j)" using assms(2) by blast
qed

lemma snapshot_links_distinct:
  assumes "tables_sound mid d"
  shows "distinct (map link_assignment (links_of d x))"
  using distinct_key [of execution_claims_table d "\<lambda>l. link_execution l = x" link_assignment] assms
  by (simp add: tables_sound_def execution_claims_table_def links_of_def)

text \<open>What the stored claims of an execution are.\<close>

lemma committed_claims:
  assumes "coordinator_sound mid d" "deferred_ok d" "e \<in> set (executions d)"
    "l \<in> set (links_of d (exec_id e))"
  shows "asg_id (claim_of_link d l) = link_assignment l"
    "asg_execution (claim_of_link d l) = Some (exec_id e)"
    "asg_recipient_lookup (claim_of_link d l) = exec_owner e"
    "asg_kind (claim_of_link d l) = execution_assignment_state (exec_status e)"
    "asg_target (claim_of_link d l) \<noteq> None" "claim_of_link d l \<in> set (wake_claims d)"
    "get_assignment d (link_assignment l) = Inr (claim_of_link d l)"
proof -
  note unique = execution_unique [OF sound_tables [OF assms(1)] assms(3)]
  have l: "l \<in> set (execution_claims d)" "link_execution l = exec_id e"
    using assms(4) by (simp_all add: links_of_def)
  obtain c e' where c: "claim_of_link d l = c" "c \<in> set (wake_claims d)" "asg_id c = link_assignment l"
    "asg_execution c = Some (link_execution l)" "asg_target c \<noteq> None" "e' \<in> set (executions d)"
    "exec_id e' = link_execution l" "asg_recipient_lookup c = exec_owner e'"
    "get_assignment d (link_assignment l) = Inr c"
    by (rule claim_of_link_bound [OF assms(1) l(1)]) blast
  have "e' = e" using unique [OF c(6)] c(7) l(2) by simp
  have "claim_supported d c" using assms(2) c(2) by (simp add: deferred_ok_def)
  then obtain e2 where "e2 \<in> set (executions d)" "exec_id e2 = exec_id e"
    "execution_assignment_state (exec_status e2) = asg_kind c"
    using c(4) l(2) by (auto simp: claim_supported_def)
  then have "asg_kind c = execution_assignment_state (exec_status e)" using unique by metis
  with c l \<open>e' = e\<close> show "asg_id (claim_of_link d l) = link_assignment l"
    "asg_execution (claim_of_link d l) = Some (exec_id e)"
    "asg_recipient_lookup (claim_of_link d l) = exec_owner e"
    "asg_kind (claim_of_link d l) = execution_assignment_state (exec_status e)"
    "asg_target (claim_of_link d l) \<noteq> None" "claim_of_link d l \<in> set (wake_claims d)"
    "get_assignment d (link_assignment l) = Inr (claim_of_link d l)" by simp_all
qed

lemma snapshot_selectors:
  "snap_execution (committed_snapshot d e) = e"
  "snap_assignments (committed_snapshot d e) = map (claim_of_link d) (links_of d (exec_id e))"
  "snap_links (committed_snapshot d e) = links_of d (exec_id e)"
  "snap_replay (committed_snapshot d e) = find (\<lambda>r. rep_execution r = exec_id e) (replay_assessments d)"
  "snap_obligations (committed_snapshot d e) = sort_key obl_target (obligations_of d (exec_id e))"
  "snap_intents (committed_snapshot d e) = sort_key int_target (intents_of d (exec_id e))"
  "snap_evidence (committed_snapshot d e) = sort_key evi_target (receipts_of d (exec_id e))"
  "snap_current_execution (committed_snapshot d e) = ptr_execution (pointer_of d (exec_owner e))"
  "snap_current_ordinal (committed_snapshot d e) = ptr_attempt (pointer_of d (exec_owner e))"
  "snap_pointer_revision (committed_snapshot d e) = ptr_revision (pointer_of d (exec_owner e))"
  "snap_is_current (committed_snapshot d e) =
     (ptr_execution (pointer_of d (exec_owner e)) = Some (exec_id e))"
  by (simp_all add: committed_snapshot_def Let_def)

lemma snapshot_attempt_None: "exec_ordinal e = None \<Longrightarrow> snap_attempt (committed_snapshot d e) = None"
  by (simp add: committed_snapshot_def Let_def)

lemma snapshot_attempt_Some:
  assumes "coordinator_sound mid d" "deferred_ok d" "e \<in> set (executions d)" "exec_ordinal e = Some n"
  obtains a where "snap_attempt (committed_snapshot d e) = Some a" "a \<in> set (attempts d)"
    "att_execution a = exec_id e" "att_ordinal a = n" "att_owner a = exec_owner e"
    "accepts_attempt (exec_lifecycle e) (att_lifecycle a)"
proof -
  from committed_attempt [OF assms] obtain a where a: "a \<in> set (attempts d)"
    "att_execution a = exec_id e" "att_ordinal a = n" "att_owner a = exec_owner e"
    "accepts_attempt (exec_lifecycle e) (att_lifecycle a)" by blast
  have "filter (\<lambda>a. att_execution a = exec_id e \<and> att_ordinal a = n) (attempts d) = [a]"
    using rows_sound_filter [of attempts_table d a "\<lambda>a. att_execution a = exec_id e \<and> att_ordinal a = n"]
      a sound_tables [OF assms(1)] by (simp add: tables_sound_def attempts_table_def)
  then have "snap_attempt (committed_snapshot d e) = Some a"
    using assms(4) by (simp add: committed_snapshot_def Let_def find_filter_hd)
  with a that show thesis by blast
qed

lemma snapshot_recovery_member:
  "case snap_recovery (committed_snapshot d e) of None \<Rightarrow> True | Some r \<Rightarrow> aud_execution r = exec_id e"
proof -
  let ?rows = "rev (sort_key aud_id (filter (\<lambda>r. aud_execution r = exec_id e) (recovery_audits d)))"
  have "\<forall>r \<in> set ?rows. aud_execution r = exec_id e" by auto
  then show ?thesis
    by (cases ?rows) (simp_all add: committed_snapshot_def Let_def)
qed

subsection \<open>The snapshot of a committed execution is valid\<close>

lemma membership_committed:
  assumes "coordinator_sound mid d" "deferred_ok d" "e \<in> set (executions d)"
  shows "validate_membership (committed_snapshot d e) = Inr ()"
proof -
  let ?x = "exec_id e" and ?links = "links_of d (exec_id e)"
  note claims = committed_claims [OF assms]
  have replay: "case find (\<lambda>r. rep_execution r = ?x) (replay_assessments d) of
      None \<Rightarrow> True | Some r \<Rightarrow> rep_execution r = ?x"
    by (auto split: option.split dest: find_Some_in)
  have ordered: "map link_ordinal ?links = map int [0..<length ?links]"
    using assms(1) by (simp add: coordinator_sound_def links_ordered_def)
  have ids: "map (\<lambda>l. asg_id (claim_of_link d l)) ?links = map link_assignment ?links"
    using claims(1) by simp
  have members: "\<forall>l \<in> set ?links. link_execution l = ?x" by (simp add: links_of_def)
  have distinct: "distinct (map (\<lambda>l. asg_id (claim_of_link d l)) ?links)"
    unfolding ids by (rule snapshot_links_distinct [OF sound_tables [OF assms(1)]])
  show ?thesis
    using replay ordered ids members distinct claims snapshot_recovery_member [of e d]
    by (simp add: validate_membership_def Let_def snapshot_selectors list_all_iff obligations_of_def
        intents_of_def receipts_of_def comp_def)
qed

lemma attempt_identity_committed:
  assumes "coordinator_sound mid d" "deferred_ok d" "e \<in> set (executions d)"
  shows "validate_attempt_identity (committed_snapshot d e) = Inr ()"
proof (cases "exec_ordinal e")
  case None
  then show ?thesis
    by (simp add: validate_attempt_identity_def Let_def snapshot_selectors snapshot_attempt_None)
next
  case (Some n)
  with assms obtain a where "snap_attempt (committed_snapshot d e) = Some a"
    "att_execution a = exec_id e" "att_ordinal a = n" "att_owner a = exec_owner e"
    "accepts_attempt (exec_lifecycle e) (att_lifecycle a)"
    by (rule snapshot_attempt_Some)
  with Some show ?thesis
    by (simp add: validate_attempt_identity_def Let_def snapshot_selectors)
qed

lemma committed_pointer:
  assumes "coordinator_sound mid d" "deferred_ok d" "e \<in> set (executions d)"
  shows "pointer_of d (exec_owner e) \<in> set (current_executions d)"
    "ptr_owner (pointer_of d (exec_owner e)) = exec_owner e"
    "pointer_valid (pointer_of d (exec_owner e)) = Inr ()"
    "pointer_supported d (pointer_of d (exec_owner e))"
    "(ptr_execution (pointer_of d (exec_owner e)) = None) = (ptr_attempt (pointer_of d (exec_owner e)) = None)"
proof -
  from assms(1,3) obtain p where eq: "pointer_of d (exec_owner e) = p"
    and p: "p \<in> set (current_executions d)" "ptr_owner p = exec_owner e"
    by (rule pointer_of_eq)
  have "(ptr_execution p = None) = (ptr_attempt p = None)"
    using sound_tables [OF assms(1)] p(1) rows_sound_checks [of current_executions_table d p]
    by (simp add: tables_sound_def current_executions_table_def)
  with p eq pointer_row_valid [OF assms(1,2) p(1)] assms(2)
  show "pointer_of d (exec_owner e) \<in> set (current_executions d)"
    "ptr_owner (pointer_of d (exec_owner e)) = exec_owner e"
    "pointer_valid (pointer_of d (exec_owner e)) = Inr ()"
    "pointer_supported d (pointer_of d (exec_owner e))"
    "(ptr_execution (pointer_of d (exec_owner e)) = None) = (ptr_attempt (pointer_of d (exec_owner e)) = None)"
    by (simp_all add: deferred_ok_def)
qed

text \<open>The owner's pointer names an execution exactly while it is active.\<close>

lemma active_iff_pointed:
  assumes "coordinator_sound mid d" "deferred_ok d" "e \<in> set (executions d)"
  shows "exec_status e = ActiveExecution \<longleftrightarrow>
    ptr_execution (pointer_of d (exec_owner e)) = Some (exec_id e)"
    and "exec_status e = ActiveExecution \<Longrightarrow> ptr_attempt (pointer_of d (exec_owner e)) = exec_ordinal e"
proof -
  let ?p = "pointer_of d (exec_owner e)"
  note p = committed_pointer [OF assms] and t = sound_tables [OF assms(1)]
  have active: "ptr_execution ?p = Some (exec_id e) \<and> ptr_attempt ?p = exec_ordinal e"
    if "exec_status e = ActiveExecution"
  proof -
    from assms(2,3) that obtain q where "q \<in> set (current_executions d)" "ptr_owner q = exec_owner e"
      "ptr_execution q = Some (exec_id e)" "ptr_attempt q = exec_ordinal e"
      by (auto simp: deferred_ok_def execution_supported_def)
    with pointer_unique [OF t p(1), of q] p(2) show ?thesis by simp
  qed
  moreover have "exec_status e = ActiveExecution" if s: "ptr_execution ?p = Some (exec_id e)"
  proof -
    from s p(5) obtain n where "ptr_attempt ?p = Some n" by auto
    with s p(4) obtain e' where "e' \<in> set (executions d)" "exec_id e' = exec_id e"
      "exec_status e' = ActiveExecution" by (auto simp: pointer_supported_def)
    with execution_unique [OF t assms(3), of e'] show ?thesis by simp
  qed
  ultimately show "exec_status e = ActiveExecution \<longleftrightarrow> ptr_execution ?p = Some (exec_id e)"
    and "exec_status e = ActiveExecution \<Longrightarrow> ptr_attempt ?p = exec_ordinal e" by blast+
qed

lemma current_pointer_committed:
  assumes "coordinator_sound mid d" "deferred_ok d" "e \<in> set (executions d)"
  shows "validate_current_pointer (committed_snapshot d e) = Inr ()"
proof (cases "exec_status e = ActiveExecution")
  case False
  with active_iff_pointed(1) [OF assms] committed_pointer(5) [OF assms] show ?thesis
    by (simp add: validate_current_pointer_def Let_def snapshot_selectors)
next
  case True
  then obtain n where n: "exec_lifecycle e = ActiveE n" "exec_ordinal e = Some n"
    by (cases "exec_lifecycle e") simp_all
  with assms obtain a where "snap_attempt (committed_snapshot d e) = Some a"
    "accepts_attempt (exec_lifecycle e) (att_lifecycle a)"
    by (rule_tac snapshot_attempt_Some)
  with True n active_iff_pointed [OF assms] committed_pointer(5) [OF assms] show ?thesis
    by (simp add: validate_current_pointer_def Let_def snapshot_selectors has_capability_def)
qed

lemma bound_claim_linked:
  assumes "coordinator_sound mid d" "deferred_ok d" "c \<in> set (wake_claims d)" "asg_execution c = Some x"
  obtains l where "l \<in> set (links_of d x)" "claim_of_link d l = c"
proof -
  from assms(2,3) have "claim_supported d c" by (simp add: deferred_ok_def)
  with assms(4) obtain l where l: "l \<in> set (execution_claims d)" "link_execution l = x"
    "link_assignment l = asg_id c"
    by (auto simp: claim_supported_def)
  obtain c' where "claim_of_link d l = c'" "c' \<in> set (wake_claims d)" "asg_id c' = link_assignment l"
    by (rule claim_of_link_bound [OF assms(1) l(1)]) blast
  with claim_unique [OF sound_tables [OF assms(1)] assms(3), of c'] l(3)
  have "claim_of_link d l = c" by simp
  with l that show thesis by (simp add: links_of_def)
qed

lemma committed_claim_obligation:
  assumes "coordinator_sound mid d" "deferred_ok d" "e \<in> set (executions d)"
    "l \<in> set (links_of d (exec_id e))"
  obtains ob where "ob \<in> set (obligations_of d (exec_id e))"
    "asg_target (claim_of_link d l) = Some (obl_target ob)"
proof -
  note c = committed_claims [OF assms]
  then obtain t where t: "asg_target (claim_of_link d l) = Some t" by auto
  have "claim_supported d (claim_of_link d l)" using assms(2) c(6) by (simp add: deferred_ok_def)
  with c(2) t obtain ob where "ob \<in> set (obligations d)" "obl_execution ob = exec_id e" "obl_target ob = t"
    by (auto simp: claim_supported_def)
  with t that show thesis by (simp add: obligations_of_def)
qed

lemma committed_targets:
  assumes "coordinator_sound mid d" "deferred_ok d" "e \<in> set (executions d)"
  shows "claim_targets (map (claim_of_link d) (links_of d (exec_id e))) =
    Some ` obl_target ` set (obligations_of d (exec_id e))"
proof (intro set_eqI iffI)
  fix t assume "t \<in> claim_targets (map (claim_of_link d) (links_of d (exec_id e)))"
  then obtain l where "l \<in> set (links_of d (exec_id e))" "t = asg_target (claim_of_link d l)"
    by (auto simp: claim_targets_def)
  with committed_claim_obligation [OF assms]
  show "t \<in> Some ` obl_target ` set (obligations_of d (exec_id e))" by (metis image_eqI)
next
  fix t assume "t \<in> Some ` obl_target ` set (obligations_of d (exec_id e))"
  then obtain ob where ob: "ob \<in> set (obligations d)" "obl_execution ob = exec_id e" "t = Some (obl_target ob)"
    by (auto simp: obligations_of_def)
  with assms(1) obtain c where c: "c \<in> set (wake_claims d)" "asg_execution c = Some (exec_id e)"
    "asg_target c = t"
    by (auto simp: coordinator_sound_def obligations_routed_def wire_route_def)
  from bound_claim_linked [OF assms(1,2) c(1,2)] c(3)
  show "t \<in> claim_targets (map (claim_of_link d) (links_of d (exec_id e)))"
    by (auto simp: claim_targets_def)
qed

lemma committed_origin:
  assumes "coordinator_sound mid d" "deferred_ok d" "e \<in> set (executions d)"
  shows "exec_origin e = WireOrigin \<longleftrightarrow> links_of d (exec_id e) \<noteq> []"
    and "exec_origin e = WireOrigin \<longleftrightarrow> obligations_of d (exec_id e) \<noteq> []"
proof -
  have links: "links_of d (exec_id e) \<noteq> []" if "exec_origin e = WireOrigin"
    using assms(2,3) that
    by (auto simp: deferred_ok_def execution_supported_def links_of_def filter_empty_conv)
  have obls: "obligations_of d (exec_id e) \<noteq> []" if "links_of d (exec_id e) \<noteq> []"
    using committed_targets [OF assms] that by (auto simp: claim_targets_def)
  have "exec_origin e = WireOrigin" if "obligations_of d (exec_id e) \<noteq> []"
  proof -
    from that have "hd (obligations_of d (exec_id e)) \<in> set (obligations_of d (exec_id e))" by simp
    then have "hd (obligations_of d (exec_id e)) \<in> set (obligations d)"
      "obl_execution (hd (obligations_of d (exec_id e))) = exec_id e"
      by (simp_all add: obligations_of_def)
    with obligation_of_wire [OF sound_tables [OF assms(1)] _ assms(3)] assms(1)
    show ?thesis by (simp add: coordinator_sound_def)
  qed
  with links obls show "exec_origin e = WireOrigin \<longleftrightarrow> links_of d (exec_id e) \<noteq> []"
    and "exec_origin e = WireOrigin \<longleftrightarrow> obligations_of d (exec_id e) \<noteq> []" by blast+
qed

lemma distinct_map_sort_key: "distinct (map f (sort_key g xs)) \<longleftrightarrow> distinct (map f xs)"
  by (simp add: distinct_map)

lemma sort_key_Nil: "sort_key f xs = [] \<longleftrightarrow> xs = []"
  by (metis length_0_conv length_sort)

lemma response_keys_distinct:
  assumes "tables_sound mid d"
  shows "distinct (map obl_target (obligations_of d x))"
    "distinct (map int_target (intents_of d x))" "distinct (map evi_target (receipts_of d x))"
  using assms distinct_key [of obligations_table d "\<lambda>ob. obl_execution ob = x" obl_target]
    distinct_key [of "publication_intents_table mid" d "\<lambda>i. int_execution i = x" int_target]
    distinct_key [of publication_receipts_table d "\<lambda>r. evi_execution r = x" evi_target]
  by (simp_all add: tables_sound_def obligations_table_def publication_intents_table_def
      publication_receipts_table_def obligations_of_def intents_of_def receipts_of_def)

lemma deferred_intent:
  assumes "deferred_ok d" "i \<in> set (publication_intents d)" "int_execution i = x"
  shows "int_target i \<in> obl_target ` set (obligations_of d x)"
proof -
  from assms(1,2) have "intent_supported d i" by (simp add: deferred_ok_def)
  with assms(3) show ?thesis unfolding intent_supported_def obligations_of_def by (auto intro: rev_image_eqI)
qed

lemma deferred_receipt:
  assumes "deferred_ok d" "r \<in> set (publication_receipts d)" "evi_execution r = x"
  shows "evi_target r \<in> obl_target ` set (obligations_of d x)"
proof -
  from assms(1,2) have "receipt_supported d r" by (simp add: deferred_ok_def)
  with assms(3) show ?thesis unfolding receipt_supported_def obligations_of_def by (auto intro: rev_image_eqI)
qed

lemma response_route_committed:
  assumes "coordinator_sound mid d" "deferred_ok d" "e \<in> set (executions d)"
  shows "validate_response_route (committed_snapshot d e) = Inr ()"
proof -
  let ?x = "exec_id e"
  note keys = response_keys_distinct [OF sound_tables [OF assms(1)], of ?x]
    and origin = committed_origin [OF assms]
  have "int_target ` set (intents_of d ?x) \<subseteq> obl_target ` set (obligations_of d ?x)"
    using deferred_intent [OF assms(2)] unfolding intents_of_def by auto
  moreover have "evi_target ` set (receipts_of d ?x) \<subseteq> obl_target ` set (obligations_of d ?x)"
    using deferred_receipt [OF assms(2)] unfolding receipts_of_def by auto
  moreover have "validate_routes (exec_origin e) (map (claim_of_link d) (links_of d ?x))
      (sort_key obl_target (obligations_of d ?x)) = Inr ()"
    using origin by (auto simp: validate_routes_def sort_key_Nil)
  ultimately show ?thesis
    by (simp add: validate_response_route_def Let_def snapshot_selectors committed_targets [OF assms]
        distinct_map_sort_key keys image_mono)
qed

lemma response_record_iff:
  "response_record target rows t = None \<longleftrightarrow> (\<forall>r \<in> set rows. target r \<noteq> t)"
  "response_record target rows t = Some r \<Longrightarrow> r \<in> set rows \<and> target r = t"
  by (auto simp: response_record_def find_None_iff dest: find_Some_in)

lemma intent_unique:
  "tables_sound mid d \<Longrightarrow> i \<in> set (publication_intents d) \<Longrightarrow> i' \<in> set (publication_intents d) \<Longrightarrow>
   int_execution i' = int_execution i \<Longrightarrow> int_target i' = int_target i \<Longrightarrow> i' = i"
  using rows_sound_unique [of "publication_intents_table mid" d i i']
  by (simp add: tables_sound_def publication_intents_table_def)

lemma receipt_unique:
  "tables_sound mid d \<Longrightarrow> r \<in> set (publication_receipts d) \<Longrightarrow> r' \<in> set (publication_receipts d) \<Longrightarrow>
   evi_execution r' = evi_execution r \<Longrightarrow> evi_target r' = evi_target r \<Longrightarrow> r' = r"
  using rows_sound_unique [of publication_receipts_table d r r']
  by (simp add: tables_sound_def publication_receipts_table_def)

text \<open>The intent and the receipt a snapshot pairs with an obligation are the stored ones of its key.\<close>

lemma snapshot_intent_None:
  "response_record int_target (sort_key int_target (intents_of d x)) t = None \<longleftrightarrow> intent_at d x t = None"
  using intent_at_iff [of d x t] by (auto simp: response_record_iff intents_of_def)

lemma snapshot_intent_Some:
  "response_record int_target (sort_key int_target (intents_of d x)) t = Some i \<Longrightarrow>
   i \<in> set (publication_intents d) \<and> int_execution i = x \<and> int_target i = t"
  by (drule response_record_iff(2)) (simp add: intents_of_def)

lemma snapshot_receipt_None:
  "response_record evi_target (sort_key evi_target (receipts_of d x)) t = None \<longleftrightarrow> receipt_at d x t = None"
  using receipt_at_iff [of d x t] by (auto simp: response_record_iff receipts_of_def)

lemma snapshot_receipt_Some:
  "response_record evi_target (sort_key evi_target (receipts_of d x)) t = Some r \<Longrightarrow>
   r \<in> set (publication_receipts d) \<and> evi_execution r = x \<and> evi_target r = t"
  by (drule response_record_iff(2)) (simp add: receipts_of_def)

lemma published_reference_iff: "published_reference st = None \<longleftrightarrow> response_kind_of st \<noteq> PublishedResponse"
  by (cases st) simp_all

lemma publication_committed:
  assumes "coordinator_sound mid d" "deferred_ok d" "ob \<in> set (obligations d)" "obl_execution ob = x"
  shows "validate_publication (obl_lifecycle ob)
    (response_record int_target (sort_key int_target (intents_of d x)) (obl_target ob))
    (response_record evi_target (sort_key evi_target (receipts_of d x)) (obl_target ob)) = Inr ()"
    (is "validate_publication _ ?i ?r = _")
proof -
  note t = sound_tables [OF assms(1)]
  note same = obligation_unique [OF t assms(3)]
  have allowed: "?i = None \<or> allows_intent (obl_state ob)"
  proof (cases ?i)
    case (Some i)
    from snapshot_intent_Some [OF Some] assms(2) have "intent_supported d i"
      "int_execution i = x" "int_target i = obl_target ob" by (simp_all add: deferred_ok_def)
    with same assms(4) show ?thesis unfolding intent_supported_def by metis
  qed simp
  have present: "?i \<noteq> None \<or> \<not> requires_intent (obl_state ob)"
    unfolding snapshot_intent_None using assms by (auto simp: coordinator_sound_def intents_present_def)
  have received: "map_option (\<lambda>r. (evi_message_id r, evi_seq r)) ?r = published_reference (obl_lifecycle ob)"
  proof (cases ?r)
    case None
    then have "receipt_at d x (obl_target ob) = None" by (simp only: snapshot_receipt_None)
    then have "\<not> published_receipt d ob"
      using receipt_at_iff [of d x "obl_target ob"] assms(4) by (auto simp: published_receipt_def)
    with assms(1,3) have "obl_state ob \<noteq> PublishedResponse"
      by (auto simp: coordinator_sound_def publications_received_def)
    with None show ?thesis by (simp add: published_reference_iff [THEN iffD2])
  next
    case (Some r)
    from snapshot_receipt_Some [OF Some] have r: "r \<in> set (publication_receipts d)"
      "evi_execution r = x" "evi_target r = obl_target ob" by simp_all
    with assms(2) have "receipt_supported d r" by (simp add: deferred_ok_def)
    with r same assms(4) have "obl_state ob = PublishedResponse" unfolding receipt_supported_def by metis
    with assms(1,3) have "published_receipt d ob" by (simp add: coordinator_sound_def publications_received_def)
    then obtain r' where r': "r' \<in> set (publication_receipts d)" "evi_execution r' = x"
      "evi_target r' = obl_target ob"
      "published_reference (obl_lifecycle ob) = Some (evi_message_id r', evi_seq r')"
      using assms(4) by (auto simp: published_receipt_def)
    with receipt_unique [OF t r(1), of r'] r have "r' = r" by simp
    with Some r'(4) show ?thesis by simp
  qed
  show ?thesis
  proof (cases ?r)
    case None
    with allowed present received show ?thesis
      by (simp add: validate_publication_def validate_acknowledgement_iff [THEN iffD2])
  next
    case (Some r)
    from snapshot_receipt_Some [OF Some] have r: "r \<in> set (publication_receipts d)"
      "evi_execution r = x" "evi_target r = obl_target ob" by simp_all
    with assms(1) obtain i' where i': "i' \<in> set (publication_intents d)" "int_execution i' = x"
      "int_target i' = obl_target ob" "int_expected i' = evi_message_id r"
      by (auto simp: coordinator_sound_def receipts_expected_def receipt_expected_def)
    then have "?i \<noteq> None" unfolding snapshot_intent_None intent_at_iff by blast
    then obtain i where i: "?i = Some i" by blast
    with snapshot_intent_Some [OF i] intent_unique [OF t i'(1), of i] i' have "i = i'" by simp
    with i Some i' allowed present received show ?thesis
      by (simp add: validate_publication_def validate_acknowledgement_iff [THEN iffD2]
          validate_intent_acknowledgement_def)
  qed
qed

lemma publication_receipt_committed:
  assumes "coordinator_sound mid d" "deferred_ok d"
  shows "validate_publication_receipt (committed_snapshot d e) = Inr ()"
  using publication_committed [OF assms]
  by (simp add: validate_publication_receipt_def snapshot_selectors obligations_of_def)

text \<open>The snapshot's retry authority is the basis the table guards read.\<close>

lemma snapshot_retry_authorized_iff:
  assumes "tables_sound mid d"
  shows "snapshot_retry_authorized (committed_snapshot d e) \<longleftrightarrow> basis_authorized d e"
proof -
  let ?x = "exec_id e" and ?find = "find (\<lambda>r. rep_execution r = exec_id e) (replay_assessments d)"
  have "(case ?find of None \<Rightarrow> False | Some r \<Rightarrow> replay_allows_retry r) \<longleftrightarrow>
    (\<exists>r \<in> set (replay_assessments d). rep_execution r = ?x \<and> replay_allows_retry r)"
  proof (cases ?find)
    case None
    moreover from this have "\<forall>r \<in> set (replay_assessments d). rep_execution r \<noteq> ?x"
      by (auto simp: find_None_iff)
    ultimately show ?thesis by auto
  next
    case (Some r)
    then have r: "r \<in> set (replay_assessments d)" "rep_execution r = ?x" by (auto dest: find_Some_in)
    have "r' = r" if "r' \<in> set (replay_assessments d)" "rep_execution r' = ?x" for r'
      using rows_sound_unique [of replay_assessments_table d r r'] r that assms
      by (simp add: tables_sound_def replay_assessments_table_def)
    with r have "(\<exists>r' \<in> set (replay_assessments d). rep_execution r' = ?x \<and> replay_allows_retry r') \<longleftrightarrow>
      replay_allows_retry r" by blast
    with Some show ?thesis by simp
  qed
  moreover have "origin_retry_authorized (exec_origin e) (sort_key obl_target (obligations_of d ?x)) \<longleftrightarrow>
    origin_retry_authorized (exec_origin e) (obligations_of d ?x)"
    by (simp add: origin_retry_authorized_def list_all_iff sort_key_Nil)
  ultimately show ?thesis
    by (simp add: snapshot_retry_authorized_def basis_authorized_def snapshot_selectors)
qed

lemma deferral_authorized:
  assumes "coordinator_sound mid d" "deferred_ok d" "e \<in> set (executions d)"
    "exec_lifecycle e = DeferredE (Some n)"
  shows "basis_authorized d e"
proof -
  have kind: "exec_status e = DeferredExecution" "exec_ordinal e \<noteq> None" using assms(4) by simp_all
  have "execution_checks e"
    using sound_tables [OF assms(1)] assms(3) rows_sound_checks [of executions_table d e]
    by (simp add: tables_sound_def executions_table_def)
  with kind have "has_retry_budget (exec_lifecycle e) (exec_max_attempts e)"
    by (simp add: execution_checks_def)
  moreover have "execution_supported d e" using assms(2,3) by (simp add: deferred_ok_def)
  with kind have "\<exists>r \<in> set (replay_assessments d). rep_execution r = exec_id e \<and> replay_allows_retry r"
    by (simp add: execution_supported_def)
  moreover have "\<forall>ob \<in> set (obligations_of d (exec_id e)). retryable (obl_state ob)"
    using assms(1,3) kind by (simp add: coordinator_sound_def deferrals_retryable_def obligations_of_def)
  ultimately show ?thesis
    using committed_origin(2) [OF assms(1-3)]
    by (simp add: basis_authorized_def origin_retry_authorized_def list_all_iff)
qed

lemma execution_state_committed:
  assumes "coordinator_sound mid d" "deferred_ok d" "e \<in> set (executions d)"
  shows "validate_execution_state (exec_lifecycle e) (committed_snapshot d e) = Inr ()"
proof (cases "exec_lifecycle e")
  case (ActiveE n)
  then have "exec_status e = ActiveExecution" by simp
  with ActiveE active_iff_pointed(1) [OF assms] show ?thesis by (simp add: snapshot_selectors)
next
  case (CompletedE n)
  then have "\<forall>ob \<in> set (obligations_of d (exec_id e)). success_terminal (obl_state ob)"
    using assms(1,3) by (simp add: coordinator_sound_def completions_settled_def obligations_of_def)
  with CompletedE show ?thesis
    by (auto simp: snapshot_selectors require_capability_def has_capability_def)
next
  case (DeferredE n)
  then show ?thesis
    using snapshot_attempt_None [of e d] deferral_authorized [OF assms]
    by (cases n) (simp_all add: snapshot_retry_authorized_iff [OF sound_tables [OF assms(1)]])
next
  case (FailedE n)
  then have "receipts_of d (exec_id e) = []"
    using assms(1,3) by (auto simp: coordinator_sound_def failures_unpublished_def receipts_of_def filter_empty_conv)
  moreover have "n \<noteq> None \<longrightarrow> \<not> basis_authorized d e"
    using FailedE assms(1,3) by (auto simp: coordinator_sound_def failures_final_def)
  ultimately show ?thesis
    using FailedE snapshot_attempt_None [of e d]
    by (cases n) (simp_all add: snapshot_selectors
        snapshot_retry_authorized_iff [OF sound_tables [OF assms(1)]])
qed simp_all

lemma snapshot_valid_committed:
  assumes "coordinator_sound mid d" "deferred_ok d" "e \<in> set (executions d)"
  shows "snapshot_valid (committed_snapshot d e) = Inr ()"
proof -
  have "0 \<le> snap_pointer_revision (committed_snapshot d e)"
    using committed_pointer(3) [OF assms] by (simp add: snapshot_selectors pointer_valid_def)
  with membership_committed [OF assms] attempt_identity_committed [OF assms]
    current_pointer_committed [OF assms] response_route_committed [OF assms]
    publication_receipt_committed [OF assms(1,2)] execution_state_committed [OF assms]
  show ?thesis by (simp add: snapshot_valid_def snapshot_selectors)
qed

lemma decode_rows_valid: "(\<And>r. r \<in> set rows \<Longrightarrow> check r = Inr ()) \<Longrightarrow> decode_rows check rows = Inr rows"
  by (induction rows) (simp_all add: decode_rows_def)

lemma last_audit_committed:
  assumes "tables_sound mid d" "references_hold mid d"
  shows "last_audit d x =
    Inr (case rev (sort_key aud_id (filter (\<lambda>r. aud_execution r = x) (recovery_audits d))) of
      [] \<Rightarrow> None | r # _ \<Rightarrow> Some r)"
proof -
  let ?rows = "rev (sort_key aud_id (filter (\<lambda>r. aud_execution r = x) (recovery_audits d)))"
  have "decode_rows audit_valid (take 1 ?rows) = Inr (take 1 ?rows)"
  proof (rule decode_rows_valid)
    fix r assume "r \<in> set (take 1 ?rows)"
    from in_set_takeD [OF this] have "r \<in> set (recovery_audits d)" by simp
    then show "audit_valid r = Inr ()" by (rule audit_row_valid [OF assms])
  qed
  then show ?thesis by (cases ?rows) (simp_all add: last_audit_def)
qed

lemma links_sorted:
  assumes "coordinator_sound mid d"
  shows "sort_key link_ordinal (links_of d x) = links_of d x"
proof (rule sort_key_id_if_sorted)
  have "map link_ordinal (links_of d x) = map int [0..<length (links_of d x)]"
    using assms by (simp add: coordinator_sound_def links_ordered_def)
  then show "sorted (map link_ordinal (links_of d x))"
    by (simp add: sorted_iff_nth_mono)
qed

lemma one_attempt:
  assumes "tables_sound mid d" "references_hold mid d"
  shows "one_row attempt_valid (\<lambda>a. att_execution a = x \<and> att_ordinal a = n) (attempts d) =
    Inr (find (\<lambda>a. att_execution a = x \<and> att_ordinal a = n) (attempts d))"
  using one_row_find [of attempts_table d "\<lambda>a. att_execution a = x \<and> att_ordinal a = n" attempt_valid]
    attempt_row_valid [OF assms] assms(1)
  by (simp add: tables_sound_def attempts_table_def)

lemma one_replay:
  assumes "tables_sound mid d" "references_hold mid d"
  shows "one_row replay_valid (\<lambda>r. rep_execution r = x) (replay_assessments d) =
    Inr (find (\<lambda>r. rep_execution r = x) (replay_assessments d))"
  using one_row_find [of replay_assessments_table d "\<lambda>r. rep_execution r = x" replay_valid]
    replay_row_valid [OF assms] assms(1)
  by (simp add: tables_sound_def replay_assessments_table_def)

lemma get_committed:
  assumes "coordinator_sound mid d" "deferred_ok d" "e \<in> set (executions d)"
  shows "get mid d (exec_id e) = Inr (committed_snapshot d e)"
proof -
  let ?x = "exec_id e"
  note t = sound_tables [OF assms(1)]
  have r: "references_hold mid d" using assms(1) by (simp add: coordinator_sound_def)
  have e: "require_row execution_valid (\<lambda>e'. exec_id e' = ?x) (IdentityConflict ''unknown execution'')
      (executions d) = Inr e"
  proof -
    have "filter (\<lambda>e'. exec_id e' = ?x) (executions d) = [e]"
      using rows_sound_filter [of executions_table d e "\<lambda>e'. exec_id e' = ?x"] t assms(3)
      by (simp add: tables_sound_def executions_table_def)
    then show ?thesis using execution_row_valid [OF t assms(3)] by (simp add: require_row_def one_row_def)
  qed
  have attempt: "(case exec_ordinal e of None \<Rightarrow> Inr None
      | Some n \<Rightarrow> one_row attempt_valid (\<lambda>a. att_execution a = ?x \<and> att_ordinal a = n) (attempts d)) =
    Inr (case exec_ordinal e of None \<Rightarrow> None
      | Some n \<Rightarrow> find (\<lambda>a. att_execution a = ?x \<and> att_ordinal a = n) (attempts d))"
    by (simp add: one_attempt [OF t r] split: option.split)
  have links: "decode_rows link_valid (links_of d ?x) = Inr (links_of d ?x)"
    using link_row_valid [OF assms(1)] by (intro decode_rows_valid) (simp add: links_of_def)
  have claims: "rmap (\<lambda>l. get_assignment d (link_assignment l)) (links_of d ?x) =
      Inr (map (claim_of_link d) (links_of d ?x))"
    using committed_claims(7) [OF assms] by (intro rmap_map) simp
  have obls: "decode_rows obligation_valid (sort_key obl_target (obligations_of d ?x)) =
      Inr (sort_key obl_target (obligations_of d ?x))"
    using obligation_row_valid [OF t r] by (intro decode_rows_valid) (simp add: obligations_of_def)
  have intents: "decode_rows (intent_valid mid) (sort_key int_target (intents_of d ?x)) =
      Inr (sort_key int_target (intents_of d ?x))"
    using assms(1) by (intro decode_rows_valid) (simp add: coordinator_sound_def intents_sound_def intents_of_def)
  obtain person where person: "read_participant d (exec_owner e) = Inr person"
    "ps_pointer person = pointer_of d (exec_owner e)"
    using read_participant_committed [OF assms] by blast
  show ?thesis
    using snapshot_valid_committed [OF assms]
    unfolding get_def committed_snapshot_def
    by (simp add: e attempt links_sorted [OF assms(1)] links claims one_replay [OF t r] obls intents
        decode_rows_valid last_audit_committed [OF t r] person Let_def)
qed

end
