(* ===== verification/Coordinator_Results.thy ===== *)
theory Coordinator_Results
  imports Recovery_Reads
begin

text \<open>
  Consequences of the consistency invariants for committed databases: an owner has at most one live
  attempt, a settled execution is never attempted again, and what is settled never changes.
\<close>

subsection \<open>Live attempts\<close>

lemma live_attempt_unique:
  assumes "coordinator_sound mid d" "deferred_ok d" "a \<in> set (attempts d)" "b \<in> set (attempts d)"
    "\<not> terminal_attempt (att_phase a)" "\<not> terminal_attempt (att_phase b)" "att_owner a = att_owner b"
  shows "a = b"
proof -
  note t = sound_tables [OF assms(1)]
  obtain p where p: "p \<in> set (current_executions d)" "ptr_owner p = att_owner a"
    "ptr_execution p = Some (att_execution a)" "ptr_attempt p = Some (att_ordinal a)"
    using live_attempt_pointed [OF assms(2,3,5)] by metis
  obtain q where q: "q \<in> set (current_executions d)" "ptr_owner q = att_owner b"
    "ptr_execution q = Some (att_execution b)" "ptr_attempt q = Some (att_ordinal b)"
    using live_attempt_pointed [OF assms(2,4,6)] by metis
  have "q = p" using pointer_unique [OF t p(1) q(1)] p(2) q(2) assms(7) by simp
  with p q attempt_unique [OF t assms(4,3)] show ?thesis by simp
qed

lemma distinct_one: "distinct xs \<Longrightarrow> (\<And>x y. x \<in> set xs \<Longrightarrow> y \<in> set xs \<Longrightarrow> x = y) \<Longrightarrow> length xs \<le> 1"
proof (rule ccontr)
  assume d: "distinct xs" and same: "\<And>x y. x \<in> set xs \<Longrightarrow> y \<in> set xs \<Longrightarrow> x = y" and "\<not> length xs \<le> 1"
  then have n: "0 < length xs" "1 < length xs" by auto
  with same have "xs ! 0 = xs ! 1" by (metis nth_mem)
  with d n show False by (simp add: nth_eq_iff_index_eq)
qed

lemma filter_one_live:
  assumes "coordinator_sound mid d" "deferred_ok d"
  shows "length (filter (\<lambda>a. att_owner a = p \<and> \<not> terminal_attempt (att_phase a)) (attempts d)) \<le> 1"
proof -
  let ?live = "filter (\<lambda>a. att_owner a = p \<and> \<not> terminal_attempt (att_phase a)) (attempts d)"
  have "distinct (map (\<lambda>a. (att_execution a, att_ordinal a)) ?live)"
    using distinct_key [of attempts_table d _ "\<lambda>a. (att_execution a, att_ordinal a)"]
      sound_tables [OF assms(1)] by (simp add: tables_sound_def attempts_table_def)
  then have "distinct ?live" by (simp add: distinct_map)
  then show ?thesis
  proof (rule distinct_one)
    fix a b assume "a \<in> set ?live" "b \<in> set ?live"
    then show "a = b" by (intro live_attempt_unique [OF assms]) simp_all
  qed
qed

lemma live_attempt_current:
  assumes "coordinator_sound mid d" "deferred_ok d" "a \<in> set (attempts d)"
    "\<not> terminal_attempt (att_phase a)"
  shows "(\<exists>e \<in> set (executions d). exec_id e = att_execution a \<and> exec_owner e = att_owner a \<and>
      exec_lifecycle e = ActiveE (att_ordinal a)) \<and>
    (\<exists>p \<in> set (current_executions d). ptr_owner p = att_owner a \<and>
      ptr_execution p = Some (att_execution a) \<and> ptr_attempt p = Some (att_ordinal a)) \<and>
    (\<exists>g \<in> set (owner_generations d). gen_owner g = att_owner a \<and> generation g = att_generation a)"
  using live_attempt_pointed [OF assms(2-4)] assms
  unfolding coordinator_sound_def generations_current_def by metis

subsection \<open>Settled executions\<close>

lemma settled_attempts_ended:
  assumes "coordinator_sound mid d" "deferred_ok d" "e \<in> set (executions d)"
    "has_capability execution_capabilities (exec_status e) Terminal"
    "a \<in> set (attempts d)" "att_execution a = exec_id e"
  shows "terminal_attempt (att_phase a)"
proof (rule ccontr)
  assume "\<not> terminal_attempt (att_phase a)"
  then obtain e' where "e' \<in> set (executions d)" "exec_id e' = att_execution a"
    "exec_lifecycle e' = ActiveE (att_ordinal a)"
    using live_attempt_pointed [OF assms(2,5)] by metis
  with execution_unique [OF sound_tables [OF assms(1)] assms(3), of e'] assms(4,6) show False
    by (simp add: has_capability_def)
qed

definition settled_execution :: "string \<Rightarrow> coordination \<Rightarrow> bool" where
  "settled_execution x d \<longleftrightarrow>
     (\<exists>e \<in> set (executions d). exec_id e = x \<and>
        has_capability execution_capabilities (exec_status e) Terminal) \<and>
     (\<forall>a \<in> set (attempts d). att_execution a = x \<longrightarrow> terminal_attempt (att_phase a))"

lemma settled_attempts_step:
  assumes "statement mid d d'" "tables_sound mid d" "settled_execution x d"
  shows "attempts_of d' x = attempts_of d x"
  using attempts_change [OF assms(1)]
proof (elim disjE exE conjE)
  assume "attempts d' = attempts d"
  then show ?thesis by (simp add: attempts_of_def)
next
  fix r assume r: "insert_row attempts_table r d = Inr d'"
  have "att_execution r \<noteq> x"
  proof
    assume x: "att_execution r = x"
    have "\<not> attempt_insert_refused d r" using r by (simp add: insert_row_Inr attempts_table_def)
    then obtain e where e: "e \<in> set (executions d)" "exec_id e = x" "attempt_start_open r e"
      unfolding attempt_insert_refused_def x by blast
    obtain e' where "e' \<in> set (executions d)" "exec_id e' = x"
      "has_capability execution_capabilities (exec_status e') Terminal"
      using assms(3) by (auto simp: settled_execution_def)
    with execution_unique [OF assms(2) e(1), of e'] e show False
      by (auto simp: attempt_start_open_def has_capability_def)
  qed
  with attempts_t.insert_rows [OF r] show ?thesis by (simp add: attempts_of_def)
next
  fix i r assume i: "i < length (attempts d)" and u: "update_row attempts_table i r d = Inr d'"
  from u have "\<not> attempt_update_refused d (attempts d ! i) r"
    by (simp add: update_row_Inr attempts_table_def)
  then have k: "attempt_kept (attempts d ! i) r" "\<not> terminal_attempt (att_phase (attempts d ! i))"
    using attempt_update_kept by blast+
  with assms(3) i have "att_execution (attempts d ! i) \<noteq> x"
    unfolding settled_execution_def using nth_mem by blast
  with k(1) i attempts_t.update_rows [OF u] show ?thesis
    by (simp add: attempts_of_def filter_update_neither attempt_kept_def)
qed

lemma settled_execution_step:
  assumes "statement mid d d'" "tables_sound mid d" "settled_execution x d"
  shows "settled_execution x d'"
proof -
  have "set (attempts_of d' x) = set (attempts_of d x)"
    by (simp only: settled_attempts_step [OF assms])
  with assms(3) have "\<forall>a \<in> set (attempts d'). att_execution a = x \<longrightarrow> terminal_attempt (att_phase a)"
    unfolding settled_execution_def attempts_of_def by auto
  moreover from assms(3) obtain e where "e \<in> set (executions d)" "exec_id e = x"
    "has_capability execution_capabilities (exec_status e) Terminal"
    by (auto simp: settled_execution_def)
  with history_execution [OF statement_history [OF assms(1)]]
  have "\<exists>e \<in> set (executions d'). exec_id e = x \<and>
      has_capability execution_capabilities (exec_status e) Terminal"
    unfolding execution_kept_def by metis
  ultimately show ?thesis by (simp add: settled_execution_def)
qed

lemma settled_attempts_forever:
  assumes "(statement mid)\<^sup>*\<^sup>* d d'" "coordinator_sound mid d" "settled_execution x d"
  shows "attempts_of d' x = attempts_of d x"
proof -
  have "coordinator_sound mid d' \<and> settled_execution x d' \<and> attempts_of d' x = attempts_of d x"
    using assms
  proof (induction rule: rtranclp_induct)
    case (step d1 d2)
    then have "coordinator_sound mid d1" "settled_execution x d1" "attempts_of d1 x = attempts_of d x"
      by simp_all
    with step.hyps(2) coordinator_sound_step settled_execution_step settled_attempts_step sound_tables
    show ?case by metis
  qed simp
  then show ?thesis by simp
qed

subsection \<open>What a settled execution says of its parts\<close>

lemma completed_settled:
  assumes "coordinator_sound mid d" "deferred_ok d" "e \<in> set (executions d)"
    "exec_lifecycle e = CompletedE n"
  shows "(\<exists>a \<in> set (attempts d). att_execution a = exec_id e \<and> att_ordinal a = n \<and>
      att_owner a = exec_owner e \<and> att_lifecycle a = Ended Succeeded) \<and>
    (\<forall>ob \<in> set (obligations d). obl_execution ob = exec_id e \<longrightarrow> success_terminal (obl_state ob)) \<and>
    (\<forall>c \<in> set (wake_claims d). asg_execution c = Some (exec_id e) \<longrightarrow> asg_kind c = CompletedAssignment)"
proof (intro conjI ballI impI)
  from assms(2-4) obtain a where a: "a \<in> set (attempts d)" "att_execution a = exec_id e"
    "att_ordinal a = n" "att_owner a = exec_owner e" "att_phase a = TerminalPhase Succeeded"
    by (auto simp: deferred_ok_def execution_supported_def)
  moreover have "att_lifecycle a = Ended Succeeded" using a(5) by (cases "att_lifecycle a") simp_all
  ultimately show "\<exists>a \<in> set (attempts d). att_execution a = exec_id e \<and> att_ordinal a = n \<and>
      att_owner a = exec_owner e \<and> att_lifecycle a = Ended Succeeded" by blast
next
  fix ob assume "ob \<in> set (obligations d)" "obl_execution ob = exec_id e"
  with assms(1,3,4) show "success_terminal (obl_state ob)"
    by (simp add: coordinator_sound_def completions_settled_def)
next
  fix c assume c: "c \<in> set (wake_claims d)" "asg_execution c = Some (exec_id e)"
  with assms(2) have "claim_supported d c" by (simp add: deferred_ok_def)
  with c(2) obtain e' where "e' \<in> set (executions d)" "exec_id e' = exec_id e"
    "execution_assignment_state (exec_status e') = asg_kind c"
    by (auto simp: claim_supported_def)
  with execution_unique [OF sound_tables [OF assms(1)] assms(3), of e'] assms(4)
  show "asg_kind c = CompletedAssignment" by simp
qed

lemma failed_settled:
  assumes "coordinator_sound mid d" "e \<in> set (executions d)" "exec_lifecycle e = FailedE (Some n)"
  shows "failed_attempt_of d e \<and> \<not> basis_authorized d e \<and> (\<forall>r \<in> set (publication_receipts d). evi_execution r \<noteq> exec_id e)"
  using assms
  by (auto simp: coordinator_sound_def failures_final_def failures_unpublished_def interruptions_recorded_def
      interrupted_execution_def)

lemma attempts_within_budget:
  assumes "coordinator_sound mid d" "e \<in> set (executions d)"
  shows "map att_ordinal (attempts_of d (exec_id e)) = map int [1..<Suc (length (attempts_of d (exec_id e)))] \<and>
    int (length (attempts_of d (exec_id e))) \<le> exec_max_attempts e"
proof -
  let ?as = "attempts_of d (exec_id e)"
  have counted: "map att_ordinal ?as = map int [1..<Suc (length ?as)]"
    using assms(1) by (simp add: coordinator_sound_def attempts_counted_def)
  have "int (length ?as) \<le> exec_max_attempts e"
  proof (cases ?as rule: rev_cases)
    case Nil
    have "0 < exec_max_attempts e"
      using rows_sound_checks [of executions_table d] sound_tables [OF assms(1)] assms(2)
      by (auto simp: tables_sound_def executions_table_def execution_checks_def)
    with Nil show ?thesis by simp
  next
    case (snoc pre a)
    have "att_ordinal (last ?as) = int (length ?as)"
      using arg_cong [OF counted, of last] snoc by (simp add: last_map)
    moreover have "a \<in> set ?as" "last ?as = a" using snoc by simp_all
    then have "a \<in> set (attempts d)" "att_execution a = exec_id e" "last ?as = a"
      by (simp_all add: attempts_of_def)
    moreover from assms(1) this(1) obtain e' where "e' \<in> set (executions d)"
      "exec_id e' = att_execution a" "att_ordinal a \<le> exec_max_attempts e'"
      by (auto simp: coordinator_sound_def attempts_budgeted_def attempt_budgeted_def)
    ultimately show ?thesis
      using execution_unique [OF sound_tables [OF assms(1)] assms(2), of e'] by simp
  qed
  with counted show ?thesis by simp
qed

end
