(* ===== verification/Coordinator_Session.thy ===== *)
theory Coordinator_Session
  imports Coordinator_Results
begin

text \<open>
  \<open>coordination/session.py\<close> and \<open>coordination/results.py\<close>: the session the stores share.  A session is
  the database and the number of clock readings taken so far; the clock is a parameter that gives
  the value of each reading.  \<open>writing\<close> is one transaction: the state is replaced only when the body
  returns and no deferred foreign key is violated, and a raise leaves the session as it was.  The
  contract of every store is the relation \<open>(statement mid)\<^sup>*\<^sup>*\<close> between the databases.
\<close>

record session =
  db :: coordination
  ticks :: nat

type_synonym 'a coordinated = "(session, 'a) op"

datatype 'a applied = Applied 'a | AlreadyApplied 'a

fun applied_value :: "'a applied \<Rightarrow> 'a" where
  "applied_value (Applied a) = a"
| "applied_value (AlreadyApplied a) = a"

definition now :: "(nat \<Rightarrow> int) \<Rightarrow> int \<Rightarrow> int coordinated" where
  "now clock floor s =
     (let t = clock (ticks s) in
      if t < 0 then Inl (ValueError ''coordinator clock must return a nonnegative integer millisecond'')
      else Inr (max t floor, s\<lparr>ticks := Suc (ticks s)\<rparr>))"

definition in_db :: "(coordination \<Rightarrow> ('a \<times> coordination) result) \<Rightarrow> 'a coordinated" where
  "in_db f s = (case f (db s) of Inl e \<Rightarrow> Inl e | Inr (a, d) \<Rightarrow> Inr (a, s\<lparr>db := d\<rparr>))"

definition reading :: "(coordination \<Rightarrow> 'a result) \<Rightarrow> 'a coordinated" where
  "reading f = ofetch (\<lambda>s. f (db s))"

definition insert_into :: "(coordination, 'r) table_spec \<Rightarrow> 'r \<Rightarrow> unit coordinated" where
  "insert_into T r = in_db (\<lambda>d. rbind (insert_row T r d) (\<lambda>d'. Inr ((), d')))"

definition update_in :: "(coordination, 'r) table_spec \<Rightarrow> ('r \<Rightarrow> bool) \<Rightarrow> ('r \<Rightarrow> 'r) \<Rightarrow> nat coordinated" where
  "update_in T P f = in_db (update_where T P f)"

definition writing :: "'a coordinated \<Rightarrow> 'a coordinated" where
  "writing m s =
     (case m s of
        Inl e \<Rightarrow> Inl e
      | Inr (a, s') \<Rightarrow> if deferred_ok (db s') then Inr (a, s') else Inl (SqlConstraint ''COMMIT''))"

text \<open>The session a caller goes on with: a raise rolled the transaction back.\<close>

definition after_call :: "'a coordinated \<Rightarrow> session \<Rightarrow> session" where
  "after_call m s = (case m s of Inl _ \<Rightarrow> s | Inr (_, s') \<Rightarrow> s')"

lemma now_Inr [op_simps]:
  "now clock floor s = Inr (t, s') \<longleftrightarrow>
     0 \<le> clock (ticks s) \<and> t = max (clock (ticks s)) floor \<and> s' = s\<lparr>ticks := Suc (ticks s)\<rparr>"
  by (auto simp: now_def Let_def)

lemma in_db_Inr [op_simps]:
  "in_db f s = Inr (a, s') \<longleftrightarrow> (\<exists>d. f (db s) = Inr (a, d) \<and> s' = s\<lparr>db := d\<rparr>)"
  by (auto simp: in_db_def split: sum.splits)

lemma reading_Inr [op_simps]: "reading f s = Inr (a, s') \<longleftrightarrow> f (db s) = Inr a \<and> s' = s"
  by (simp add: reading_def ofetch_Inr)

lemma insert_into_Inr [op_simps]:
  "insert_into T r s = Inr (u, s') \<longleftrightarrow> (\<exists>d. insert_row T r (db s) = Inr d \<and> s' = s\<lparr>db := d\<rparr>)"
  by (auto simp: insert_into_def in_db_Inr)

lemma update_in_Inr [op_simps]:
  "update_in T P f s = Inr (n, s') \<longleftrightarrow> (\<exists>d. update_where T P f (db s) = Inr (n, d) \<and> s' = s\<lparr>db := d\<rparr>)"
  by (auto simp: update_in_def in_db_Inr)

lemma writing_Inr [op_simps]:
  "writing m s = Inr (a, s') \<longleftrightarrow> m s = Inr (a, s') \<and> deferred_ok (db s')"
  by (auto simp: writing_def split: sum.splits)

subsection \<open>The contract of a store\<close>

text \<open>What a check or a pure step established is known to the rest of the operation.\<close>

context run_contract begin

lemma triple_lift_known:
  "(\<And>a. r = Inr a \<Longrightarrow> triple view R P (f a) Q) \<Longrightarrow> triple view R P (obind (olift r) f) Q"
  by (cases r) (auto simp: triple_def op_simps)

lemma triple_lift_then:
  "(\<And>a. r = Inr a \<Longrightarrow> triple view R P k Q) \<Longrightarrow> triple view R P (othen (olift r) k) Q"
  by (cases r) (auto simp: triple_def op_simps)

lemma triple_require_then:
  "(b \<Longrightarrow> triple view R P k Q) \<Longrightarrow> triple view R P (othen (orequire b e) k) Q"
  by (cases b) (auto simp: triple_def op_simps)

lemma triple_keep_then:
  "triple view R P m (\<lambda>_. P) \<Longrightarrow> triple view R P k Q \<Longrightarrow> triple view R P (othen m k) Q"
  by (rule triple_then)

lemma triple_unit: "triple view R P (oreturn a) (\<lambda>_. P)"
  by (simp add: triple_def op_simps refl)

lemma triple_fact:
  "(\<And>d. P d \<Longrightarrow> A) \<Longrightarrow> (A \<Longrightarrow> triple view R P m Q) \<Longrightarrow> triple view R P m Q"
  unfolding triple_def by blast

lemma triple_forget: "triple view R P m Q \<Longrightarrow> triple view R P m (\<lambda>_ _. True)"
  by (simp add: triple_def)

end

abbreviation stepped ::
  "(message \<Rightarrow> string) \<Rightarrow> (coordination \<Rightarrow> bool) \<Rightarrow> 'a coordinated \<Rightarrow> ('a \<Rightarrow> coordination \<Rightarrow> bool) \<Rightarrow> bool" where
  "stepped mid P m Q \<equiv> triple db (statement mid)\<^sup>*\<^sup>* P m Q"

interpretation steps: run_contract db "(statement mid)\<^sup>*\<^sup>*" for mid
  by unfold_locales auto

abbreviation ran :: "(message \<Rightarrow> string) \<Rightarrow> 'a coordinated \<Rightarrow> bool" where
  "ran mid m \<equiv> within db (statement mid)\<^sup>*\<^sup>* m"

lemma stepped_now: "stepped mid P (now clock floor) (\<lambda>_. P)"
  by (simp add: triple_def op_simps)

lemma stepped_reading: "stepped mid P (reading f) (\<lambda>a d. P d \<and> f d = Inr a)"
  by (simp add: triple_def op_simps)

lemma stepped_insert:
  "(\<And>d d'. P d \<Longrightarrow> insert_row T r d = Inr d' \<Longrightarrow> statement mid d d' \<and> Q d') \<Longrightarrow>
   stepped mid P (insert_into T r) (\<lambda>_. Q)"
  by (auto simp: triple_def op_simps)

text \<open>An UPDATE is a sequence of statements when each of its row writes is one.  The condition \<open>I\<close>
  is about what the UPDATE does not write.\<close>

lemma stepped_update:
  assumes "stored_table T"
    and step: "\<And>i d d'. I d \<Longrightarrow> i < length (table_rows T d) \<Longrightarrow> Q (table_rows T d ! i) \<Longrightarrow>
      update_row T i (f (table_rows T d ! i)) d = Inr d' \<Longrightarrow> statement mid d d' \<and> I d'"
  shows "stepped mid I (update_in T Q f) (\<lambda>n d'. I d' \<and>
    (\<exists>d. I d \<and> table_rows T d' = map (\<lambda>r. if Q r then f r else r) (table_rows T d) \<and>
      n = length (filter Q (table_rows T d))))"
proof -
  have "(I d \<longrightarrow> (statement mid)\<^sup>*\<^sup>* d d' \<and> I d')" if "update_where T Q f d = Inr (n, d')" for n d d'
    by (rule stored_table.update_where_steps [OF assms(1) that,
          where R = "\<lambda>d d'. I d \<longrightarrow> (statement mid)\<^sup>*\<^sup>* d d' \<and> I d'"])
      (use step in \<open>auto intro: rtranclp_trans\<close>)
  with stored_table.update_where_rows [OF assms(1)] show ?thesis
    by (fastforce simp: triple_def op_simps)
qed

lemma stepped_writing: "stepped mid P m Q \<Longrightarrow> stepped mid P (writing m) (\<lambda>a d. Q a d \<and> deferred_ok d)"
  by (simp add: triple_def op_simps)

text \<open>A transaction that runs as statements takes a reachable database to a reachable one, and
  history is kept.\<close>

lemma writing_reachable:
  assumes "stepped mid (\<lambda>_. True) m Q" "writing m s = Inr (a, s')" "reachable mid (db s)"
  shows "reachable mid (db s')"
  using assms by (auto simp: triple_def op_simps intro: reachable.commit)

lemmas stepped_intros = steps.triple_bind steps.triple_then steps.triple_require steps.triple_lift
  steps.triple_return steps.triple_fail stepped_now stepped_reading

subsection \<open>The statements that need no condition\<close>

lemma ran_now: "ran mid (now clock floor)"
  by (rule stepped_now)

lemma ran_reading: "ran mid (reading f)"
  by (simp add: triple_def op_simps)

lemma ran_insert:
  "ran mid (insert_into participants_table p)"
  "generation g = 1 \<Longrightarrow> ran mid (insert_into owner_generations_table g)"
  "ptr_execution q = None \<Longrightarrow> ran mid (insert_into current_executions_table q)"
  "ran mid (insert_into attempts_table a)"
  "assignment_row_valid c = Inr () \<Longrightarrow> asg_execution c = None \<Longrightarrow> ran mid (insert_into wake_claims_table c)"
  "ran mid (insert_into execution_claims_table l)"
  "ran mid (insert_into replay_assessments_table r)"
  "ran mid (insert_into (publication_intents_table mid) i)"
  "ran mid (insert_into publication_receipts_table e)"
  "ran mid (insert_into recovery_audits_table au)"
  by (rule stepped_insert, auto intro: statement.intros)+

lemma ran_update_participant: "ran mid (update_in participants_table P f)"
  by (rule steps.within_triple [OF stepped_update [OF participants_t.stored_table_axioms]])
    (auto intro: statement.update_participant)

lemma ran_update_generation: "ran mid (update_in owner_generations_table P f)"
  by (rule steps.within_triple [OF stepped_update [OF owner_generations_t.stored_table_axioms]])
    (auto intro: statement.update_generation)

lemma ran_update_pointer: "ran mid (update_in current_executions_table P f)"
  by (rule steps.within_triple [OF stepped_update [OF current_executions_t.stored_table_axioms]])
    (auto intro: statement.update_pointer)

text \<open>An execution that is open after the write was open before it.\<close>

lemma ran_update_execution:
  assumes "\<And>r. P r \<Longrightarrow> \<not> closed_execution (f r)"
  shows "ran mid (update_in executions_table P f)"
proof (rule steps.within_triple [OF stepped_update [OF executions_t.stored_table_axioms]])
  fix i d d'
  assume row: "i < length (table_rows executions_table d)" "P (table_rows executions_table d ! i)"
    and u: "update_row executions_table i (f (table_rows executions_table d ! i)) d = Inr d'"
  have "\<not> execution_update_refused d (executions d ! i) (f (executions d ! i))"
    using u by (simp add: update_row_Inr executions_table_def)
  then have "\<not> closed_execution (executions d ! i)"
    by (rule execution_update_open) (use assms row(2) in \<open>simp add: executions_table_def\<close>)
  with row u show "statement mid d d' \<and> True"
    by (auto simp: executions_table_def intro: statement.update_execution)
qed

lemma ran_update_attempt: "ran mid (update_in attempts_table P f)"
  by (rule steps.within_triple [OF stepped_update [OF attempts_t.stored_table_axioms]])
    (auto intro: statement.update_attempt)

lemma ran_update_replay: "ran mid (update_in replay_assessments_table P f)"
  by (rule steps.within_triple [OF stepped_update [OF replay_assessments_t.stored_table_axioms]])
    (auto intro: statement.update_replay)

lemma ran_update_claim:
  assumes "\<And>r. P r \<Longrightarrow> assignment_valid (asg_lifecycle (f r))"
  shows "ran mid (update_in wake_claims_table P f)"
  by (rule steps.within_triple [OF stepped_update [OF wake_claims_t.stored_table_axioms]])
    (use assms in \<open>auto intro: statement.update_claim\<close>)

lemma ran_update_obligation:
  assumes "\<And>r. P r \<Longrightarrow> retryable (obl_state (f r))"
  shows "ran mid (update_in obligations_table P f)"
proof (rule steps.within_triple [OF stepped_update [OF obligations_t.stored_table_axioms]])
  fix i d d'
  assume "i < length (table_rows obligations_table d)" "P (table_rows obligations_table d ! i)"
    "update_row obligations_table i (f (table_rows obligations_table d ! i)) d = Inr d'"
  moreover from this(2) assms have "obligation_scope d (f (table_rows obligations_table d ! i))"
    by (simp add: obligation_scope_def)
  ultimately show "statement mid d d' \<and> True" by (auto intro: statement.update_obligation)
qed

lemmas ran_update = ran_update_participant ran_update_generation ran_update_pointer
  ran_update_execution ran_update_attempt ran_update_replay

lemma ran_writing: "ran mid m \<Longrightarrow> ran mid (writing m)"
  by (simp add: triple_def op_simps)

lemmas ran_known = steps.triple_lift_known steps.triple_lift_then steps.triple_require_then

lemmas ran_intros = steps.within_intros ran_now ran_reading ran_insert ran_update ran_writing

subsection \<open>What an operation leaves alone\<close>

text \<open>The contract with \<open>keeps F\<close>: the part \<open>F\<close> of the database is the same before and after.\<close>

definition keeps :: "(coordination \<Rightarrow> 'k) \<Rightarrow> coordination \<Rightarrow> coordination \<Rightarrow> bool" where
  "keeps F d d' \<longleftrightarrow> F d' = F d"

interpretation frame: run_contract db "keeps F" for F
  by unfold_locales (simp_all add: keeps_def)

lemma kept_now: "within db (keeps F) (now clock floor)"
  by (simp add: triple_def op_simps keeps_def)

lemma kept_reading: "within db (keeps F) (reading f)"
  by (simp add: triple_def op_simps keeps_def)

lemma kept_writing: "within db (keeps F) m \<Longrightarrow> within db (keeps F) (writing m)"
  by (simp add: triple_def op_simps)

lemma kept_insert: "(\<And>g d. F (table_put T g d) = F d) \<Longrightarrow> within db (keeps F) (insert_into T r)"
  by (auto simp: triple_def op_simps keeps_def insert_row_Inr)

lemma kept_update:
  assumes "stored_table T" "\<And>g d. F (table_put T g d) = F d"
  shows "within db (keeps F) (update_in T Q f)"
  using assms(2)
  by (auto simp: triple_def op_simps keeps_def dest!: stored_table.update_where_put [OF assms(1)])

lemmas kept_updates =
  kept_update [OF participants_t.stored_table_axioms] kept_update [OF owner_generations_t.stored_table_axioms]
  kept_update [OF current_executions_t.stored_table_axioms] kept_update [OF executions_t.stored_table_axioms]
  kept_update [OF attempts_t.stored_table_axioms] kept_update [OF wake_claims_t.stored_table_axioms]
  kept_update [OF replay_assessments_t.stored_table_axioms] kept_update [OF obligations_t.stored_table_axioms]

lemmas kept_intros = frame.within_intros kept_now kept_reading kept_writing kept_insert kept_updates

lemma stepped_kept:
  "ran mid m \<Longrightarrow> within db (keeps executions) m \<Longrightarrow>
   stepped mid (\<lambda>d. P (executions d)) m (\<lambda>_ d. P (executions d))"
  by (simp add: triple_def keeps_def)

lemma kept_run: "within db (keeps F) m \<Longrightarrow> m s = Inr (a, s') \<Longrightarrow> F (db s') = F (db s)"
  by (drule frame.within_run) (auto simp: keeps_def)

end
