(* ===== verification/Participant_Store.thy ===== *)
theory Participant_Store
  imports Coordinator_Session
begin

text \<open>
  \<open>participant_store.py\<close>: registration, commitment and generation changes of participants.  Each
  operation is one transaction; what it leaves in the three participant tables is given exactly.
\<close>

definition participant_get :: "string \<Rightarrow> participant_snapshot coordinated" where
  "participant_get lookup = reading (\<lambda>d. read_participant d lookup)"

definition register_body :: "string \<Rightarrow> bool \<Rightarrow> participant_snapshot applied coordinated" where
  "register_body lookup is_committed =
     obind (reading (\<lambda>d. one_row (\<lambda>_. Inr ()) (\<lambda>r. participant_lookup r = lookup) (participants d))) (\<lambda>existing.
       case existing of
         Some _ \<Rightarrow> obind (participant_get lookup) (\<lambda>snapshot. oreturn (AlreadyApplied snapshot))
       | None \<Rightarrow>
           othen (insert_into participants_table
                    \<lparr>participant_lookup = lookup, committed = is_committed\<rparr>)
          (othen (insert_into owner_generations_table \<lparr>gen_owner = lookup, generation = 1\<rparr>)
          (othen (insert_into current_executions_table
                    \<lparr>ptr_owner = lookup, ptr_execution = None, ptr_attempt = None, ptr_revision = 0\<rparr>)
          (obind (participant_get lookup) (\<lambda>snapshot. oreturn (Applied snapshot))))))"

definition register :: "string \<Rightarrow> bool \<Rightarrow> participant_snapshot applied coordinated" where
  "register lookup is_committed = writing (register_body lookup is_committed)"

definition commit_body :: "string \<Rightarrow> participant_snapshot applied coordinated" where
  "commit_body lookup =
     obind (participant_get lookup) (\<lambda>person.
       if ps_committed person then oreturn (AlreadyApplied person)
       else othen (update_in participants_table
                     (\<lambda>r. participant_lookup r = lookup \<and> \<not> committed r) (committed_update (\<lambda>_. True)))
           (obind (participant_get lookup) (\<lambda>snapshot. oreturn (Applied snapshot))))"

definition commit_participant :: "string \<Rightarrow> participant_snapshot applied coordinated" where
  "commit_participant lookup = writing (commit_body lookup)"

definition advance_generation_body :: "string \<Rightarrow> int \<Rightarrow> participant_snapshot applied coordinated" where
  "advance_generation_body lookup expected =
     obind (participant_get lookup) (\<lambda>person.
     othen (orequire (ps_committed person)
              (IdentityConflict ''uncommitted participant cannot own a generation''))
    (othen (orequire (generation (ps_generation person) = expected)
              (StaleRevision ''owner generation changed''))
    (othen (update_in owner_generations_table
              (\<lambda>r. gen_owner r = lookup \<and> generation r = expected)
              (generation_update (\<lambda>_. expected + 1)))
    (obind (participant_get lookup) (\<lambda>snapshot. oreturn (Applied snapshot))))))"

definition advance_generation :: "string \<Rightarrow> int \<Rightarrow> participant_snapshot applied coordinated" where
  "advance_generation lookup expected = writing (advance_generation_body lookup expected)"

subsection \<open>The operations as statements\<close>

lemma register_ran: "ran mid (register_body lookup c)"
  unfolding register_body_def participant_get_def by (intro ran_intros) simp_all

lemma commit_ran: "ran mid (commit_body lookup)"
  unfolding commit_body_def participant_get_def by (intro ran_intros)

lemma advance_generation_ran: "ran mid (advance_generation_body lookup expected)"
  unfolding advance_generation_body_def participant_get_def by (intro ran_intros)

end
