(* ===== verification/Assignment_Store.thy ===== *)
theory Assignment_Store
  imports Participant_Store
begin

text \<open>
  \<open>assignment_store.py\<close> and the parts of \<open>tables/assignments.py\<close> and \<open>selected_source_batch.py\<close> it
  rests on: acceptance of a claim, the steps before engagement, and the claim a selected source
  names.  The lemmas give the stored claim after each operation.
\<close>

subsection \<open>Acceptance\<close>

fun initial_state :: "wake_policy \<Rightarrow> assignment_state" where
  "initial_state PassiveWake = PassiveA"
| "initial_state BoundedTriageWake = TriagePendingA"
| "initial_state FullWake = FullPendingA"

definition require_initial_decision :: "assignment \<Rightarrow> unit result" where
  "require_initial_decision c =
     require
       (c = c\<lparr>asg_lifecycle := initial_state (assignment_mode (asg_lifecycle c)),
              asg_updated := asg_accepted c, asg_revision := 1\<rparr> \<and>
        asg_resolver c = resolver_version \<and> asg_policy c = policy_version)
       (IdentityConflict ''claim acceptance requires initial frozen decision'')"

definition require_same_acceptance :: "assignment \<Rightarrow> assignment \<Rightarrow> unit result" where
  "require_same_acceptance current candidate =
     require
       (current = candidate\<lparr>asg_lifecycle := asg_lifecycle current,
          asg_updated := asg_updated current, asg_revision := asg_revision current\<rparr> \<and>
        assignment_mode (asg_lifecycle current) = assignment_mode (asg_lifecycle candidate))
       (IdentityConflict ''accepted claim identity conflicts'')"

text \<open>The candidate is a constructed row, so its constructor has run.\<close>

definition accept :: "assignment \<Rightarrow> assignment applied coordinated" where
  "accept c =
     othen (olift (assignment_row_valid c))
    (othen (olift (require_initial_decision c))
    (writing
      (obind (reading (\<lambda>d. decode_rows assignment_row_valid (take 1
          (filter (\<lambda>r. asg_id r = asg_id c \<or>
             (asg_recipient_lookup r = asg_recipient_lookup c \<and> asg_wire_seq r = asg_wire_seq c))
           (wake_claims d))))) (\<lambda>rows.
       case rows of
         current # _ \<Rightarrow>
           othen (olift (require_same_acceptance current c)) (oreturn (AlreadyApplied current))
       | [] \<Rightarrow> othen (insert_into wake_claims_table c) (oreturn (Applied c))))))"

subsection \<open>Steps before engagement\<close>

definition claim_get :: "string \<Rightarrow> assignment coordinated" where
  "claim_get claim = reading (\<lambda>d. get_assignment d claim)"

definition transition_in ::
  "(nat \<Rightarrow> int) \<Rightarrow> string \<Rightarrow> assignment_kind \<Rightarrow> int \<Rightarrow> assignment coordinated" where
  "transition_in clock claim kind expected =
     obind (claim_get claim) (\<lambda>current.
     othen (orequire (asg_revision current = expected) (StaleRevision ''claim revision changed''))
    (obind (olift (preengagement (asg_lifecycle current) kind)) (\<lambda>lifecycle.
     obind (now clock (asg_updated current)) (\<lambda>t.
     let after = current\<lparr>asg_updated := t, asg_revision := asg_revision current + 1,
                         asg_lifecycle := lifecycle\<rparr> in
     othen (olift (assignment_row_valid after))
    (othen (update_in wake_claims_table (\<lambda>r. asg_id r = claim \<and> asg_revision r = expected)
              (\<lambda>r. r\<lparr>asg_lifecycle := asg_lifecycle after, asg_updated := asg_updated after,
                    asg_revision := asg_revision after\<rparr>))
    (oreturn after))))))"

definition transition_preengagement ::
  "(nat \<Rightarrow> int) \<Rightarrow> string \<Rightarrow> assignment_kind \<Rightarrow> int \<Rightarrow> assignment coordinated" where
  "transition_preengagement clock claim kind expected =
     writing (transition_in clock claim kind expected)"

definition restore_unbound_delivery :: "(nat \<Rightarrow> int) \<Rightarrow> assignment \<Rightarrow> assignment coordinated" where
  "restore_unbound_delivery clock captured =
     obind (claim_get (asg_id captured)) (\<lambda>current.
     othen (orequire (current = captured) (StaleRevision ''unbound delivery assignment changed''))
       (transition_preengagement clock (asg_id current)
         (assignment_kind_of (initial_state (assignment_mode (asg_lifecycle current))))
         (asg_revision current)))"

definition claim_source :: "assignment \<Rightarrow> message_reference" where
  "claim_source c = (asg_wire_seq c, asg_message_id c)"

text \<open>The distinct keys of a request in the order they were first named.\<close>

definition first_occurrences :: "'a list \<Rightarrow> 'a list" where
  "first_occurrences xs = rev (remdups (rev xs))"

definition harness_claims :: "coordination \<Rightarrow> string \<Rightarrow> message_reference list \<Rightarrow> assignment list" where
  "harness_claims d recipient sources =
     concat (map (\<lambda>seq. filter (\<lambda>c. asg_recipient_lookup c = recipient \<and> asg_wire_seq c = seq) (wake_claims d))
       (first_occurrences (map fst sources)))"

primrec claim_steps :: "(nat \<Rightarrow> int) \<Rightarrow> assignment_kind list \<Rightarrow> assignment \<Rightarrow> assignment coordinated" where
  "claim_steps clock [] claim = oreturn claim"
| "claim_steps clock (k # ks) claim =
     obind (transition_in clock (asg_id claim) k (asg_revision claim)) (claim_steps clock ks)"

definition settle_harness_inputs ::
  "(nat \<Rightarrow> int) \<Rightarrow> string \<Rightarrow> message_reference list \<Rightarrow> (assignment_state \<Rightarrow> assignment_kind list) \<Rightarrow>
   unit coordinated" where
  "settle_harness_inputs clock recipient sources steps =
     obind (reading (\<lambda>d. decode_rows assignment_row_valid (harness_claims d recipient sources))) (\<lambda>claims.
     oforeach claims (\<lambda>claim.
       othen (orequire (claim_source claim \<in> set sources)
                (IdentityConflict ''harness delivery names another message at this sequence''))
      (othen (claim_steps clock (steps (asg_lifecycle claim)) claim) (oreturn ()))))"

subsection \<open>Selected sources\<close>

text \<open>A committed delivery: its reference, its reply target and its frozen audience with one
  decision per recipient.  A source of another store carries what that store's read gives.\<close>

record delivery =
  del_reference :: message_reference
  del_reply_target :: string
  del_recipients :: "(string \<times> string) list"
  del_decisions :: "recipient_decision list"

record selected_source =
  src_assignment_id :: string
  src_elsewhere :: "assignment result option"
  src_delivery :: delivery

definition require_committed_source :: "assignment \<Rightarrow> delivery \<Rightarrow> unit result" where
  "require_committed_source c initial =
     rbind (require (claim_source c = del_reference initial)
              (IdentityConflict ''wake frame does not match a committed source'')) (\<lambda>_.
     require
       (length (filter (\<lambda>(recipient, decision).
            recipient = (asg_recipient_lookup c, asg_recipient c) \<and>
            decision = WakeDecision (asg_recipient_lookup c) (asg_audience c) (assignment_mode (asg_lifecycle c)))
          (zip (del_recipients initial) (del_decisions initial))) = 1)
       (IdentityConflict ''wake frame requires one selected N/K recipient''))"

definition source_assignment :: "coordination \<Rightarrow> selected_source \<Rightarrow> assignment result" where
  "source_assignment d src =
     rbind (case src_elsewhere src of None \<Rightarrow> get_assignment d (src_assignment_id src) | Some r \<Rightarrow> r) (\<lambda>current.
     rbind (require_committed_source current (src_delivery src)) (\<lambda>_. Inr current))"

subsection \<open>The operations as statements\<close>

lemma initial_state_mode [simp]: "assignment_mode (initial_state p) = p"
  by (cases p) simp_all

lemma initial_state_unbound [simp]: "assignment_execution_id (initial_state p) = None"
  by (cases p) (simp_all add: assignment_execution_id_def)

lemma require_initial_decision_unbound:
  assumes "require_initial_decision c = Inr ()"
  shows "asg_execution c = None"
proof -
  have "asg_lifecycle c = initial_state (assignment_mode (asg_lifecycle c))"
    using assms by (cases c) (simp add: require_initial_decision_def)
  then show ?thesis by (metis initial_state_unbound)
qed

lemma accept_ran: "ran mid (accept c)"
  unfolding accept_def
  by (intro ran_known ran_intros) (auto intro!: ran_intros dest: require_initial_decision_unbound split: list.split)

lemma transition_in_ran: "ran mid (transition_in clock claim k n)"
  unfolding transition_in_def claim_get_def Let_def
  by (intro ran_known ran_intros ran_update_claim) (auto dest: preengagement_Inr)

lemma transition_preengagement_ran: "ran mid (transition_preengagement clock claim k n)"
  unfolding transition_preengagement_def by (intro ran_writing transition_in_ran)

lemma restore_ran: "ran mid (restore_unbound_delivery clock captured)"
  unfolding restore_unbound_delivery_def claim_get_def
  by (intro ran_intros transition_preengagement_ran)

lemma claim_steps_ran: "ran mid (claim_steps clock ks c)"
  by (induction ks arbitrary: c) (auto intro!: ran_intros transition_in_ran)

lemma settle_harness_inputs_ran: "ran mid (settle_harness_inputs clock recipient sources steps)"
  unfolding settle_harness_inputs_def by (intro ran_intros claim_steps_ran)

end
