(* ===== verification/Execution_Store.thy ===== *)
theory Execution_Store
  imports Assignment_Store
begin

text \<open>
  \<open>execution_store.py\<close>: creating an execution from selected sources, marking it pending and failing it
  before any attempt.  A new execution binds every source claim to it, links the claims in order and
  opens one pending obligation per distinct reply route, all in one transaction.
\<close>

subsection \<open>Creation\<close>

definition require_sources :: "origin \<Rightarrow> selected_source list \<Rightarrow> unit result" where
  "require_sources origin sources =
     (if origin = WireOrigin
      then require (sources \<noteq> []) (IdentityConflict ''wire execution requires ordered original sources'')
      else require (sources = []) (IdentityConflict ''claimless execution cannot bind claims''))"

definition source_targets :: "selected_source list \<Rightarrow> string list" where
  "source_targets sources = map (\<lambda>src. del_reply_target (src_delivery src)) sources"

definition same_creation ::
  "snapshot \<Rightarrow> origin \<Rightarrow> string \<Rightarrow> int \<Rightarrow> selected_source list \<Rightarrow> bool" where
  "same_creation s origin owner max_attempts sources \<longleftrightarrow>
     (let e = snap_execution s in
      exec_origin e = origin \<and> exec_owner e = owner \<and> exec_max_attempts e = max_attempts \<and>
      sort (map obl_target (snap_obligations s)) = sorted_list_of_set (set (source_targets sources)) \<and>
      map link_assignment (snap_links s) = map src_assignment_id sources)"

definition engage_source ::
  "(nat \<Rightarrow> int) \<Rightarrow> string \<Rightarrow> string \<Rightarrow> nat \<times> selected_source \<times> assignment \<Rightarrow> unit coordinated" where
  "engage_source clock x owner = (\<lambda>(ordinal, src, c).
     let target = del_reply_target (src_delivery src);
         l = \<lparr>link_execution = x, link_assignment = src_assignment_id src, link_ordinal = int ordinal\<rparr> in
     othen (olift (require_engageable (asg_lifecycle c)))
    (othen (orequire (asg_recipient_lookup c = owner \<and> asg_execution c = None)
              (IdentityConflict ''claim cannot engage this execution''))
    (obind (olift (build EngagedAssignment (assignment_mode (asg_lifecycle c)) (Some x) (Some target))) (\<lambda>decision.
     obind (now clock (asg_updated c)) (\<lambda>t.
     obind (update_in wake_claims_table
              (\<lambda>r. asg_id r = src_assignment_id src \<and> asg_revision r = asg_revision c)
              (\<lambda>r. r\<lparr>asg_lifecycle := decision, asg_revision := asg_revision c + 1, asg_updated := t\<rparr>)) (\<lambda>updated.
     othen (orequire (updated = 1) (StaleRevision ''original claim changed during engagement''))
    (othen (olift (link_valid l))
       (insert_into execution_claims_table l))))))))"

definition open_obligation :: "string \<Rightarrow> int \<Rightarrow> string \<Rightarrow> unit coordinated" where
  "open_obligation x t target =
     (let ob = \<lparr>obl_execution = x, obl_target = target, obl_lifecycle = PendingR, obl_reason = None,
                obl_created = t, obl_updated = t, obl_revision = 1\<rparr> in
      othen (olift (obligation_valid ob)) (insert_into obligations_table ob))"

definition new_execution :: "string \<Rightarrow> origin \<Rightarrow> string \<Rightarrow> int \<Rightarrow> int \<Rightarrow> execution" where
  "new_execution x origin owner max_attempts t =
     \<lparr>exec_id = x, exec_origin = origin, exec_lifecycle = QueuedE, exec_owner = owner,
      exec_revision = 1, exec_max_attempts = max_attempts, exec_reason = None,
      exec_created = t, exec_updated = t\<rparr>"

definition create_rows ::
  "(message \<Rightarrow> string) \<Rightarrow> (nat \<Rightarrow> int) \<Rightarrow> string \<Rightarrow> origin \<Rightarrow> string \<Rightarrow> int \<Rightarrow>
   (selected_source \<times> assignment) list \<Rightarrow> snapshot applied coordinated" where
  "create_rows mid clock x origin owner max_attempts members =
     obind (now clock 0) (\<lambda>t.
     othen (olift (execution_valid (new_execution x origin owner max_attempts t)))
    (othen (insert_into executions_table (new_execution x origin owner max_attempts t))
    (othen (oforeach (enumerate 0 members) (engage_source clock x owner))
    (othen (oforeach (first_occurrences (source_targets (map fst members))) (open_obligation x t))
    (obind (reading (\<lambda>d. get mid d x)) (\<lambda>s. oreturn (Applied s)))))))"

definition create_in ::
  "(message \<Rightarrow> string) \<Rightarrow> (nat \<Rightarrow> int) \<Rightarrow> string \<Rightarrow> origin \<Rightarrow> string \<Rightarrow> int \<Rightarrow>
   selected_source list \<Rightarrow> assignment list \<Rightarrow> snapshot applied coordinated" where
  "create_in mid clock x origin owner max_attempts sources claims =
     othen (olift (rforeach sources (\<lambda>src. require (src_elsewhere src = None)
              (IdentityConflict ''execution source belongs to another assignment store''))))
    (othen (olift (require_sources origin sources))
    (obind (reading (\<lambda>d. one_row execution_valid (\<lambda>e. exec_id e = x) (executions d))) (\<lambda>row.
     case row of
       Some _ \<Rightarrow>
         obind (reading (\<lambda>d. get mid d x)) (\<lambda>s.
         othen (orequire (same_creation s origin owner max_attempts sources)
                  (IdentityConflict ''execution identity conflicts''))
           (oreturn (AlreadyApplied s)))
     | None \<Rightarrow>
         obind (participant_get owner) (\<lambda>person.
         othen (orequire (ps_committed person)
                  (IdentityConflict ''execution requires committed current owner''))
        (othen (orequire (0 < max_attempts) (ValueError ''max_attempts must be positive''))
        (othen (orequire (distinct (map src_assignment_id sources))
                  (IdentityConflict ''duplicate claim membership''))
          (create_rows mid clock x origin owner max_attempts (zip sources claims))))))))"

definition create ::
  "(message \<Rightarrow> string) \<Rightarrow> (nat \<Rightarrow> int) \<Rightarrow> string \<Rightarrow> origin \<Rightarrow> string \<Rightarrow> int \<Rightarrow>
   selected_source list \<Rightarrow> snapshot applied coordinated" where
  "create mid clock x origin owner max_attempts sources =
     writing (obind (reading (\<lambda>d. rmap (source_assignment d) sources)) (\<lambda>claims.
       create_in mid clock x origin owner max_attempts sources claims))"

definition create_after_triage ::
  "(message \<Rightarrow> string) \<Rightarrow> (nat \<Rightarrow> int) \<Rightarrow> string \<Rightarrow> origin \<Rightarrow> string \<Rightarrow> int \<Rightarrow>
   selected_source list \<Rightarrow> assignment list \<Rightarrow> snapshot applied coordinated" where
  "create_after_triage mid clock x origin owner max_attempts sources settled =
     writing (obind (reading (\<lambda>d. rmap (source_assignment d) sources)) (\<lambda>claims.
       othen (orequire (claims = settled)
                (StaleRevision ''original claims changed after proved native settlement''))
         (create_in mid clock x origin owner max_attempts sources claims)))"

subsection \<open>Before any attempt\<close>

definition mark_pending ::
  "(message \<Rightarrow> string) \<Rightarrow> (nat \<Rightarrow> int) \<Rightarrow> string \<Rightarrow> int \<Rightarrow> snapshot applied coordinated" where
  "mark_pending mid clock x expected =
     writing (obind (reading (\<lambda>d. get mid d x)) (\<lambda>s.
       othen (orequire (exec_revision (snap_execution s) = expected)
                (StaleRevision ''execution revision changed''))
      (othen (orequire (exec_status (snap_execution s) = QueuedExecution)
                (IdentityConflict ''only queued executions can become pending''))
      (obind (now clock (exec_updated (snap_execution s))) (\<lambda>t.
       othen (update_in executions_table (\<lambda>r. exec_id r = x \<and> exec_revision r = expected)
                (\<lambda>r. r\<lparr>exec_lifecycle := PendingE, exec_revision := expected + 1, exec_updated := t\<rparr>))
      (obind (reading (\<lambda>d. get mid d x)) (\<lambda>after. oreturn (Applied after))))))))"

text \<open>The writes of one obligation and of one claim that settlement and failure share.\<close>

definition settle_obligation ::
  "(nat \<Rightarrow> int) \<Rightarrow> response_state \<Rightarrow> string option \<Rightarrow> obligation \<Rightarrow> unit coordinated" where
  "settle_obligation clock response reason ob =
     obind (now clock (obl_updated ob)) (\<lambda>t.
     othen (update_in obligations_table
              (\<lambda>r. obl_execution r = obl_execution ob \<and> obl_target r = obl_target ob)
              (\<lambda>r. r\<lparr>obl_lifecycle := response, obl_revision := obl_revision ob + 1,
                    obl_reason := reason, obl_updated := t\<rparr>))
       (oreturn ()))"

definition settle_claim ::
  "(nat \<Rightarrow> int) \<Rightarrow> assignment_kind \<Rightarrow> assignment \<Rightarrow> unit coordinated" where
  "settle_claim clock kind c =
     obind (olift (build kind (assignment_mode (asg_lifecycle c)) (asg_execution c) (asg_target c))) (\<lambda>lifecycle.
     obind (now clock (asg_updated c)) (\<lambda>t.
     othen (update_in wake_claims_table (\<lambda>r. asg_id r = asg_id c)
              (\<lambda>r. r\<lparr>asg_lifecycle := lifecycle, asg_revision := asg_revision c + 1, asg_updated := t\<rparr>))
       (oreturn ())))"

definition fail_unstarted ::
  "(message \<Rightarrow> string) \<Rightarrow> (nat \<Rightarrow> int) \<Rightarrow> string \<Rightarrow> int \<Rightarrow> string \<Rightarrow> snapshot applied coordinated" where
  "fail_unstarted mid clock x expected reason =
     writing (obind (reading (\<lambda>d. get mid d x)) (\<lambda>prior.
       let e = snap_execution prior in
       othen (orequire (exec_revision e = expected) (StaleRevision ''execution revision changed''))
      (othen (orequire (unstarted (exec_status e))
                (IdentityConflict ''unstarted failure requires queued/pending work''))
      (obind (now clock (exec_updated e)) (\<lambda>t.
       othen (update_in executions_table (\<lambda>r. exec_id r = x)
                (\<lambda>r. r\<lparr>exec_lifecycle := FailedE None, exec_revision := exec_revision e + 1,
                      exec_reason := Some reason, exec_updated := t\<rparr>))
      (othen (oforeach (snap_obligations prior) (settle_obligation clock FailedR (Some reason)))
      (othen (oforeach (snap_assignments prior) (settle_claim clock FailedAssignment))
      (obind (reading (\<lambda>d. get mid d x)) (\<lambda>after. oreturn (Applied after))))))))))"

subsection \<open>The operations as statements\<close>

text \<open>Claims, links and obligations are written beside an unchanged \<open>executions\<close> table; the rules
  carry a condition on it through the writes.\<close>

lemma executions_frame:
  "update_row wake_claims_table i c d = Inr d' \<Longrightarrow> executions d' = executions d"
  "insert_row execution_claims_table l d = Inr d' \<Longrightarrow> executions d' = executions d"
  "insert_row obligations_table ob d = Inr d' \<Longrightarrow> executions d' = executions d"
  "update_row obligations_table i ob d = Inr d' \<Longrightarrow> executions d' = executions d"
  by (simp_all add: insert_row_Inr update_row_Inr wake_claims_table_def execution_claims_table_def
      obligations_table_def)

lemma stepped_update_claim:
  assumes "\<And>r. Q r \<Longrightarrow> assignment_valid (asg_lifecycle (f r))"
  shows "stepped mid (\<lambda>d. P (executions d)) (update_in wake_claims_table Q f) (\<lambda>_ d. P (executions d))"
  by (rule steps.triple_post [OF stepped_update [OF wake_claims_t.stored_table_axioms]])
    (use assms in \<open>auto simp: executions_frame intro: statement.update_claim\<close>)

lemma stepped_insert_link:
  "stepped mid (\<lambda>d. P (executions d)) (insert_into execution_claims_table l) (\<lambda>_ d. P (executions d))"
  by (rule stepped_insert) (auto simp: executions_frame intro: statement.insert_link)

lemma stepped_update_obligation:
  assumes "\<And>r d. Q r \<Longrightarrow> P (executions d) \<Longrightarrow> obligation_scope d (f r)"
  shows "stepped mid (\<lambda>d. P (executions d)) (update_in obligations_table Q f) (\<lambda>_ d. P (executions d))"
  by (rule steps.triple_post [OF stepped_update [OF obligations_t.stored_table_axioms]])
    (use assms in \<open>auto simp: executions_frame intro: statement.update_obligation\<close>)

lemma stepped_settle_claim:
  "stepped mid (\<lambda>d. P (executions d)) (settle_claim clock kind c) (\<lambda>_ d. P (executions d))"
  unfolding settle_claim_def
proof (rule steps.triple_lift_known, rule steps.triple_bind [OF stepped_now], rule steps.triple_keep_then)
  fix lifecycle t
  assume "build kind (assignment_mode (asg_lifecycle c)) (asg_execution c) (asg_target c) = Inr lifecycle"
  then show "stepped mid (\<lambda>d. P (executions d)) (update_in wake_claims_table (\<lambda>r. asg_id r = asg_id c)
    (\<lambda>r. r\<lparr>asg_lifecycle := lifecycle, asg_revision := asg_revision c + 1, asg_updated := t\<rparr>))
    (\<lambda>_ d. P (executions d))"
    by (intro stepped_update_claim) (auto dest: build_valid)
qed (rule steps.triple_unit)

lemma stepped_settle_obligation:
  assumes "retryable (response_kind_of response) \<or> (\<forall>rows. P rows \<longrightarrow>
    (\<forall>e \<in> set rows. exec_id e = obl_execution ob \<longrightarrow> exec_status e \<noteq> DeferredExecution))"
  shows "stepped mid (\<lambda>d. P (executions d)) (settle_obligation clock response reason ob) (\<lambda>_ d. P (executions d))"
  unfolding settle_obligation_def
  by (rule steps.triple_bind [OF stepped_now], rule steps.triple_keep_then, rule stepped_update_obligation)
    (use assms in \<open>auto simp: obligation_scope_def intro: steps.triple_unit\<close>)

text \<open>An execution is written at the revision that was read, and the row read was open.  After an UPDATE
  by execution id the named rows are in the written state.\<close>

definition open_at :: "string \<Rightarrow> int \<Rightarrow> execution list \<Rightarrow> bool" where
  "open_at x n rows \<longleftrightarrow> (\<forall>e \<in> set rows. exec_id e = x \<and> exec_revision e = n \<longrightarrow> \<not> closed_execution e)"

lemma stepped_revise_execution:
  assumes "\<And>r. Q r \<Longrightarrow> exec_id r = x" "\<And>r. exec_revision (f r) = n + 1"
  shows "stepped mid (\<lambda>d. open_at x n (executions d)) (update_in executions_table Q f)
    (\<lambda>_ d. \<exists>rows. executions d = map (\<lambda>r. if Q r then f r else r) rows)"
proof (rule steps.triple_post [OF stepped_update [OF executions_t.stored_table_axioms,
      where I = "\<lambda>d. open_at x n (executions d)"]])
  fix i d d'
  assume I: "open_at x n (executions d)"
    and row: "i < length (table_rows executions_table d)" "Q (table_rows executions_table d ! i)"
    and u: "update_row executions_table i (f (table_rows executions_table d ! i)) d = Inr d'"
  let ?old = "executions d ! i"
  have new: "\<not> execution_update_refused d ?old (f ?old)" "executions d' = (executions d)[i := f ?old]"
    using u by (auto simp: update_row_Inr executions_table_def)
  have "exec_revision ?old = n"
    using new(1) assms(2) [of ?old] by (simp add: execution_update_refused_def incrementing_violated_def)
  with I row assms(1) [of ?old] have "\<not> closed_execution ?old"
    by (simp add: open_at_def executions_table_def)
  with row u have "statement mid d d'"
    by (auto simp: executions_table_def intro: statement.update_execution)
  moreover have "open_at x n (executions d')"
    using I assms(2) [of ?old] set_update_subset_insert [of "executions d" i "f ?old"]
    by (fastforce simp: open_at_def new(2))
  ultimately show "statement mid d d' \<and> open_at x n (executions d')" by simp
qed (auto simp: executions_table_def)

lemma stepped_update_execution:
  assumes "\<And>r. exec_id r = x \<Longrightarrow> S (f r)" "\<And>r. exec_revision (f r) = n + 1"
  shows "stepped mid (\<lambda>d. open_at x n (executions d)) (update_in executions_table (\<lambda>r. exec_id r = x) f)
    (\<lambda>_ d. \<forall>e \<in> set (executions d). exec_id e = x \<longrightarrow> S e)"
  by (rule steps.triple_post [OF stepped_revise_execution])
    (use assms in \<open>auto split: if_splits\<close>)

lemma stepped_engage_source:
  "stepped mid (\<lambda>d. P (executions d)) (engage_source clock x owner m) (\<lambda>_ d. P (executions d))"
proof -
  obtain ordinal src c where m: "m = (ordinal, src, c)" by (cases m)
  show ?thesis
    unfolding m engage_source_def Let_def prod.case
    by (intro steps.triple_lift_known steps.triple_lift_then steps.triple_require_then
        steps.triple_bind [OF stepped_now] steps.triple_bind [OF stepped_update_claim]
        stepped_insert_link) (auto simp del: build.simps dest: build_valid)
qed

definition queued_only :: "string \<Rightarrow> execution list \<Rightarrow> bool" where
  "queued_only x rows \<longleftrightarrow> (\<forall>e \<in> set rows. exec_id e = x \<longrightarrow> exec_lifecycle e = QueuedE)"

lemma stepped_open_obligation:
  "stepped mid (\<lambda>d. queued_only x (executions d)) (open_obligation x t target)
    (\<lambda>_ d. queued_only x (executions d))"
  unfolding open_obligation_def Let_def
  by (rule steps.triple_lift_then, rule stepped_insert)
    (auto simp: executions_frame queued_only_def unstarted_execution_row_def intro!: statement.insert_obligation)

lemma stepped_insert_execution:
  "stepped mid (\<lambda>d. registered_owner d owner \<and> (\<forall>e \<in> set (executions d). exec_id e \<noteq> x))
    (insert_into executions_table (new_execution x origin owner n t))
    (\<lambda>_ d. queued_only x (executions d))"
proof (rule stepped_insert)
  fix d d'
  assume "registered_owner d owner \<and> (\<forall>e \<in> set (executions d). exec_id e \<noteq> x)"
    and ins: "insert_row executions_table (new_execution x origin owner n t) d = Inr d'"
  moreover from executions_t.insert_rows [OF ins]
  have "executions d' = executions d @ [new_execution x origin owner n t]" by simp
  ultimately show "statement mid d d' \<and> queued_only x (executions d')"
    using ins by (auto simp: queued_only_def new_execution_def intro!: statement.insert_execution)
qed

lemma stepped_create_rows:
  "stepped mid (\<lambda>d. registered_owner d owner \<and> (\<forall>e \<in> set (executions d). exec_id e \<noteq> x))
    (create_rows mid clock x origin owner n members) (\<lambda>_ _. True)"
  unfolding create_rows_def
  by (rule steps.triple_bind [OF stepped_now], rule steps.triple_lift_then,
      rule steps.triple_then [OF stepped_insert_execution],
      rule steps.triple_keep_then [OF steps.triple_foreach [OF stepped_engage_source]],
      rule steps.triple_keep_then [OF steps.triple_foreach [OF stepped_open_obligation]],
      rule steps.triple_bind [OF stepped_reading], rule steps.triple_forget [OF steps.triple_unit])

lemma read_participant_registered: "read_participant d p = Inr person \<Longrightarrow> registered_owner d p"
  by (auto simp: read_participant_def registered_owner_def dest!: require_row_Inr)

lemma one_row_absent: "one_row check P rows = Inr None \<Longrightarrow> r \<in> set rows \<Longrightarrow> \<not> P r"
  by (drule one_row_None) (simp add: filter_empty_conv)

lemma create_in_ran: "ran mid (create_in mid clock x origin owner n sources claims)"
  unfolding create_in_def participant_get_def
proof (intro steps.triple_lift_then, rule steps.triple_bind [OF stepped_reading], rule steps.triple_option)
  fix row assume none: "row = (None :: execution option)"
  show "stepped mid (\<lambda>d. True \<and> one_row execution_valid (\<lambda>e. exec_id e = x) (executions d) = Inr row)
    (obind (reading (\<lambda>d. read_participant d owner)) (\<lambda>person.
         othen (orequire (ps_committed person)
                  (IdentityConflict ''execution requires committed current owner''))
        (othen (orequire (0 < n) (ValueError ''max_attempts must be positive''))
        (othen (orequire (distinct (map src_assignment_id sources))
                  (IdentityConflict ''duplicate claim membership''))
          (create_rows mid clock x origin owner n (zip sources claims)))))) (\<lambda>_ _. True)"
    by (rule steps.triple_bind [OF stepped_reading], intro steps.triple_require_then,
        rule steps.triple_pre [OF stepped_create_rows])
      (use none in \<open>auto dest: one_row_absent read_participant_registered\<close>)
qed (auto intro!: ran_intros intro: steps.triple_pre)

lemma create_ran: "ran mid (create mid clock x origin owner n sources)"
  unfolding create_def by (intro ran_intros create_in_ran)

lemma create_after_triage_ran: "ran mid (create_after_triage mid clock x origin owner n sources settled)"
  unfolding create_after_triage_def by (intro ran_intros create_in_ran)

lemma mark_pending_ran: "ran mid (mark_pending mid clock x expected)"
  unfolding mark_pending_def by (intro ran_intros) (simp add: has_capability_def)

text \<open>What a snapshot read holds of its execution id.\<close>

lemma get_execution:
  "get mid d x = Inr s \<Longrightarrow> exec_id (snap_execution s) = x \<and> snap_execution s \<in> set (executions d)"
  by (auto simp: get_def Let_def dest!: require_row_Inr)

lemma get_execution_only:
  assumes "get mid d x = Inr s" "e \<in> set (executions d)" "exec_id e = x"
  shows "e = snap_execution s"
proof -
  from assms(1) have "filter (\<lambda>e. exec_id e = x) (executions d) = [snap_execution s]"
    by (auto simp: get_def Let_def dest!: require_row_Inr)
  moreover from assms(2,3) have "e \<in> set (filter (\<lambda>e. exec_id e = x) (executions d))" by simp
  ultimately show ?thesis by simp
qed

lemma get_open:
  "get mid d x = Inr s \<Longrightarrow> \<not> closed_execution (snap_execution s) \<Longrightarrow> open_at x n (executions d)"
  using get_execution_only by (fastforce simp: open_at_def)

lemma get_obligations: "get mid d x = Inr s \<Longrightarrow> \<forall>ob \<in> set (snap_obligations s). obl_execution ob = x"
  by (auto simp: get_def Let_def obligations_of_def)

definition undeferred :: "string \<Rightarrow> execution list \<Rightarrow> bool" where
  "undeferred x rows \<longleftrightarrow> (\<forall>e \<in> set rows. exec_id e = x \<longrightarrow> exec_status e \<noteq> DeferredExecution)"

lemma stepped_settle_rows:
  assumes "\<forall>ob \<in> set obls. obl_execution ob = x"
    "retryable (response_kind_of response) \<or> (\<forall>rows. P rows \<longrightarrow> undeferred x rows)"
    "stepped mid (\<lambda>d. P (executions d)) k Q"
  shows "stepped mid (\<lambda>d. P (executions d))
    (othen (oforeach obls (settle_obligation clock response reason))
    (othen (oforeach claims (settle_claim clock kind)) k)) Q"
proof (intro steps.triple_keep_then steps.triple_foreach stepped_settle_claim assms(3))
  fix ob assume "ob \<in> set obls"
  with assms(1,2) show "stepped mid (\<lambda>d. P (executions d)) (settle_obligation clock response reason ob)
      (\<lambda>_ d. P (executions d))"
    by (intro stepped_settle_obligation) (auto simp: undeferred_def)
qed

lemma fail_unstarted_ran: "ran mid (fail_unstarted mid clock x expected reason)"
proof -
  have rows: "stepped mid (\<lambda>d. open_at x n (executions d))
     (othen (update_in executions_table (\<lambda>r. exec_id r = x)
                (\<lambda>r. r\<lparr>exec_lifecycle := FailedE None, exec_revision := n + 1,
                      exec_reason := Some reason, exec_updated := t\<rparr>))
      (othen (oforeach obls (settle_obligation clock FailedR (Some reason)))
      (othen (oforeach claims (settle_claim clock FailedAssignment))
      (obind (reading (\<lambda>d. get mid d x)) (\<lambda>after. oreturn (Applied after)))))) (\<lambda>_ _. True)"
    if obls: "\<forall>ob \<in> set obls. obl_execution ob = x" for n t obls claims
  proof (rule steps.triple_then)
    show "stepped mid (\<lambda>d. open_at x n (executions d)) (update_in executions_table (\<lambda>r. exec_id r = x)
        (\<lambda>r. r\<lparr>exec_lifecycle := FailedE None, exec_revision := n + 1,
              exec_reason := Some reason, exec_updated := t\<rparr>))
      (\<lambda>_ d. \<forall>e \<in> set (executions d). exec_id e = x \<longrightarrow> exec_status e \<noteq> DeferredExecution)"
      by (rule stepped_update_execution) simp_all
    show "stepped mid (\<lambda>d. \<forall>e \<in> set (executions d). exec_id e = x \<longrightarrow> exec_status e \<noteq> DeferredExecution)
      (othen (oforeach obls (settle_obligation clock FailedR (Some reason)))
      (othen (oforeach claims (settle_claim clock FailedAssignment))
      (obind (reading (\<lambda>d. get mid d x)) (\<lambda>after. oreturn (Applied after))))) (\<lambda>_ _. True)"
      by (rule stepped_settle_rows [OF obls])
        (auto simp: undeferred_def intro: steps.triple_bind [OF stepped_reading] steps.triple_forget [OF steps.triple_unit])
  qed
  have unstarted: "\<not> closed_execution e" if "unstarted (exec_status e)" for e
    using that by (auto simp: unstarted_def has_capability_def)
  show ?thesis
    unfolding fail_unstarted_def Let_def
    by (rule ran_writing, rule steps.triple_bind [OF stepped_reading],
        rule steps.triple_fact [where A = "\<forall>ob \<in> set (snap_obligations _). obl_execution ob = x"])
      (auto dest: get_obligations intro!: steps.triple_require_then steps.triple_bind [OF stepped_now]
        steps.triple_pre [OF rows] get_open unstarted)
qed

end
