(* ===== verification/Attempt_Store.thy ===== *)
theory Attempt_Store
  imports Execution_Store
begin

unbundle bit_operations_syntax

text \<open>
  \<open>attempt_store.py\<close>, \<open>attempt_start.py\<close>, \<open>owner_fence.py\<close>, the replay assessments of
  \<open>tables/executions.py\<close> and \<open>RecoverySnapshot.settle\<close>: starting an attempt under an owner fence,
  advancing it, and settling it.  The hash behind \<open>_digest\<close> is a parameter \<open>sha\<close>.  The standalone
  settlement boundary has no native resources to release, so \<open>release_resources\<close> does nothing.
\<close>

subsection \<open>Replay assessments\<close>

definition for_execution :: "string \<Rightarrow> replay option coordinated" where
  "for_execution x =
     reading (\<lambda>d. one_row replay_valid (\<lambda>r. rep_execution r = x) (replay_assessments d))"

definition observed_replay :: "string \<Rightarrow> int \<Rightarrow> replay" where
  "observed_replay x facts =
     \<lparr>rep_execution = x, rep_facts = facts, rep_safe = False, rep_effects = True, rep_revision = 1\<rparr>"

definition accumulate :: "string \<Rightarrow> int \<Rightarrow> unit coordinated" where
  "accumulate x facts =
     obind (reading (\<lambda>d. Inr (list_ex (\<lambda>r. rep_execution r = x \<and> (rep_facts r AND facts) = facts \<and>
              \<not> rep_safe r \<and> rep_effects r) (replay_assessments d)))) (\<lambda>known.
     if facts = 0 \<or> known then oreturn ()
     else othen (olift (replay_valid (observed_replay x facts)))
         (obind (reading (\<lambda>d. Inr (list_ex (\<lambda>r. rep_execution r = x) (replay_assessments d)))) (\<lambda>stored.
          if stored
          then othen (update_in replay_assessments_table
                 (\<lambda>r. rep_execution r = x \<and>
                    ((rep_facts r OR facts) \<noteq> rep_facts r \<or> rep_safe r \<or> \<not> rep_effects r))
                 (\<lambda>r. r\<lparr>rep_facts := rep_facts r OR facts, rep_safe := False, rep_effects := True,
                       rep_revision := rep_revision r + 1\<rparr>)) (oreturn ())
          else insert_into replay_assessments_table (observed_replay x facts))))"

definition require_successor :: "replay \<Rightarrow> replay \<Rightarrow> unit result" where
  "require_successor prior after =
     require (after\<lparr>rep_facts := rep_facts prior OR rep_facts after,
                rep_safe := rep_safe prior \<and> rep_safe after,
                rep_effects := rep_effects prior \<or> rep_effects after\<rparr> = after)
       (IdentityConflict ''replay facts cannot be erased'')"

definition record_replay :: "replay option \<Rightarrow> replay \<Rightarrow> bool coordinated" where
  "record_replay prior after =
     (case prior of
        None \<Rightarrow> othen (insert_into replay_assessments_table after) (oreturn True)
      | Some r \<Rightarrow>
          othen (orequire (rep_execution after = rep_execution r)
                   (IntegrityViolationError ''snapshot records belong to another execution''))
         (if r\<lparr>rep_revision := rep_revision after\<rparr> = after then oreturn False
          else othen (olift (require_successor r after))
              (othen (update_in replay_assessments_table (\<lambda>q. rep_execution q = rep_execution r)
                        (\<lambda>q. q\<lparr>rep_facts := rep_facts after, rep_safe := rep_safe after,
                              rep_effects := rep_effects after, rep_revision := rep_revision r + 1\<rparr>))
                (oreturn True))))"

definition next_replay_revision :: "replay option \<Rightarrow> int" where
  "next_replay_revision prior = (case prior of None \<Rightarrow> 1 | Some r \<Rightarrow> rep_revision r + 1)"

definition observe :: "replay option \<Rightarrow> string \<Rightarrow> int \<Rightarrow> bool \<Rightarrow> bool \<Rightarrow> bool coordinated" where
  "observe prior x facts safe effects =
     othen (orequire (case prior of None \<Rightarrow> True | Some r \<Rightarrow> rep_execution r = x)
              (IntegrityViolationError ''snapshot records belong to another execution''))
    (let after = \<lparr>rep_execution = x, rep_facts = facts, rep_safe = safe, rep_effects = effects,
                  rep_revision = next_replay_revision prior\<rparr> in
     othen (olift (replay_valid after)) (record_replay prior after))"

definition authorize_if_unobserved :: "string \<Rightarrow> unit coordinated" where
  "authorize_if_unobserved x =
     obind (for_execution x) (\<lambda>prior.
       case prior of
         None \<Rightarrow> othen (observe None x (fact_value NONE) True False) (oreturn ())
       | Some _ \<Rightarrow> oreturn ())"

definition revoke :: "string \<Rightarrow> unit coordinated" where
  "revoke x =
     obind (for_execution x) (\<lambda>prior.
       case prior of
         None \<Rightarrow> oreturn ()
       | Some r \<Rightarrow>
           if rep_safe r
           then let after = r\<lparr>rep_safe := False, rep_revision := rep_revision r + 1\<rparr> in
                othen (olift (replay_valid after)) (othen (record_replay (Some r) after) (oreturn ()))
           else oreturn ())"

text \<open>\<open>turn_failure.py\<close>: a retryable provider failure may authorize a retry, any other failure
  consumes an earlier authorization.\<close>

datatype turn_failure = OtherTurnFailure | RetryableProviderFailure

fun prepare_execution_retry :: "turn_failure \<Rightarrow> string \<Rightarrow> unit coordinated" where
  "prepare_execution_retry OtherTurnFailure x = revoke x"
| "prepare_execution_retry RetryableProviderFailure x = authorize_if_unobserved x"

definition retry_delay :: "nat \<Rightarrow> nat" where
  "retry_delay attempt_ordinal = min (2 ^ (attempt_ordinal - 1)) 8"

subsection \<open>Fences\<close>

record attempt_authority =
  auth_execution :: string
  auth_ordinal :: int
  auth_owner :: string
  auth_generation :: int
  auth_digest :: string

record owner_fence =
  fence_execution :: string
  fence_ordinal :: int
  fence_owner :: string
  fence_generation :: int
  fence_revision :: int
  fence_token :: string

definition digest :: "(string \<Rightarrow> string) \<Rightarrow> string \<Rightarrow> string result" where
  "digest sha token =
     rbind (require (1 \<le> length token \<and> length token \<le> max_identifier_chars)
              (ValueError ''invalid retained fence token'')) (\<lambda>_. Inr (sha token))"

definition fence_valid :: "owner_fence \<Rightarrow> unit result" where
  "fence_valid f =
     rbind (validate_execution_id (fence_execution f)) (\<lambda>_.
     rbind (require_identifier (fence_token f) ''token'') (\<lambda>_.
     require (0 < fence_ordinal f \<and> 0 < fence_generation f \<and> 0 < fence_revision f)
       (ValueError ''fence ordinal, generation and revision must be positive'')))"

definition fence_authority :: "(string \<Rightarrow> string) \<Rightarrow> owner_fence \<Rightarrow> attempt_authority result" where
  "fence_authority sha f =
     rbind (digest sha (fence_token f)) (\<lambda>dg.
     Inr \<lparr>auth_execution = fence_execution f, auth_ordinal = fence_ordinal f, auth_owner = fence_owner f,
          auth_generation = fence_generation f, auth_digest = dg\<rparr>)"

definition attempt_authority_of :: "attempt \<Rightarrow> attempt_authority" where
  "attempt_authority_of a =
     \<lparr>auth_execution = att_execution a, auth_ordinal = att_ordinal a, auth_owner = att_owner a,
      auth_generation = att_generation a, auth_digest = att_digest a\<rparr>"

definition require_fence ::
  "(message \<Rightarrow> string) \<Rightarrow> (string \<Rightarrow> string) \<Rightarrow> owner_fence \<Rightarrow> (snapshot \<times> attempt) coordinated" where
  "require_fence mid sha f =
     obind (reading (\<lambda>d. get mid d (fence_execution f))) (\<lambda>s.
     obind (olift (require_current_attempt s)) (\<lambda>a.
     obind (olift (fence_authority sha f)) (\<lambda>authority.
     othen (orequire (attempt_authority_of a = authority) (StaleFence ''attempt fence is not current''))
    (obind (participant_get (att_owner a)) (\<lambda>person.
     othen (orequire (generation (ps_generation person) = att_generation a)
              (StaleFence ''attempt fence is not current''))
    (othen (orequire (att_revision a = fence_revision f) (StaleRevision ''attempt fence revision changed''))
       (oreturn (s, a))))))))"

subsection \<open>Starting an attempt\<close>

definition initial_lease_duration_ms :: int where "initial_lease_duration_ms = 60000"

record attempt_start =
  start_execution :: string
  start_ordinal :: int
  start_owner :: string
  start_generation :: int
  start_token :: string
  start_execution_revision :: int
  start_pointer_revision :: int

definition start_fence :: "attempt_start \<Rightarrow> int \<Rightarrow> owner_fence result" where
  "start_fence req revision =
     (let f = \<lparr>fence_execution = start_execution req, fence_ordinal = start_ordinal req,
               fence_owner = start_owner req, fence_generation = start_generation req,
               fence_revision = revision, fence_token = start_token req\<rparr> in
      rbind (fence_valid f) (\<lambda>_. Inr f))"

definition replayed_fence :: "attempt_start \<Rightarrow> snapshot \<Rightarrow> attempt \<Rightarrow> owner_fence result" where
  "replayed_fence req s old =
     rbind (require (att_ordinal old = start_ordinal req \<and> att_owner old = start_owner req \<and>
                att_generation old = start_generation req \<and>
                exec_created (snap_execution s) \<le> att_created old)
              (IdentityConflict ''prepared token is bound to a different attempt'')) (\<lambda>_.
     start_fence req (att_revision old))"

definition require_retry :: "snapshot \<Rightarrow> unit result" where
  "require_retry s =
     (case snap_attempt s of
        None \<Rightarrow> Inl (RecoveryBlocked ''frozen v2 cannot resume an unstarted deferral'')
      | Some _ \<Rightarrow> require (snapshot_can_retry s)
          (RecoveryBlocked ''retry requires final death, replay proof, and budget''))"

fun require_retry_start :: "execution_state \<Rightarrow> snapshot \<Rightarrow> unit result" where
  "require_retry_start (DeferredE _) s = require_retry s"
| "require_retry_start _ s = Inr ()"

definition require_newer_owner :: "attempt option \<Rightarrow> int \<Rightarrow> unit result" where
  "require_newer_owner previous gen =
     (case previous of
        None \<Rightarrow> Inr ()
      | Some a \<Rightarrow> require (att_generation a < gen)
          (StaleFence ''retry must use a strictly newer owner generation''))"

definition validate_start :: "attempt_start \<Rightarrow> snapshot \<Rightarrow> participant_snapshot \<Rightarrow> unit result" where
  "validate_start req s person =
     (let e = snap_execution s; ordinal = next_attempt_ordinal (exec_lifecycle e) in
      rbind (require (ps_committed person \<and> gen_owner (ps_generation person) = start_owner req \<and>
                generation (ps_generation person) = start_generation req)
               (StaleFence ''owner lookup or generation changed'')) (\<lambda>_.
      rbind (require (exec_revision e = start_execution_revision req \<and>
                ptr_revision (ps_pointer person) = start_pointer_revision req)
               (StaleRevision ''execution or pointer revision changed'')) (\<lambda>_.
      rbind (require_idle (ps_pointer person)) (\<lambda>_.
      rbind (require_attempt_start (exec_lifecycle e)) (\<lambda>_.
      rbind (require (snap_intents s = [])
               (PublicationUncertain ''no authorized bus-keyed publication resolution'')) (\<lambda>_.
      rbind (require_retry_start (exec_lifecycle e) s) (\<lambda>_.
      rbind (require (ordinal = start_ordinal req)
               (IdentityConflict ''attempt ordinal must be contiguous'')) (\<lambda>_.
      rbind (require (ordinal \<le> exec_max_attempts e) (RecoveryBlocked ''retry budget exhausted'')) (\<lambda>_.
      require_newer_owner (snap_attempt s) (start_generation req))))))))))"

definition new_attempt :: "string \<Rightarrow> attempt_start \<Rightarrow> string \<Rightarrow> int \<Rightarrow> attempt" where
  "new_attempt dg req owner created =
     \<lparr>att_execution = start_execution req, att_ordinal = start_ordinal req, att_owner = owner,
      att_generation = start_generation req, att_digest = dg,
      att_lifecycle = Live PromptStarting (created + initial_lease_duration_ms) False False,
      att_revision = 1, att_progress = None, att_reason = None,
      att_created = created, att_updated = created\<rparr>"

definition activate :: "(nat \<Rightarrow> int) \<Rightarrow> string \<Rightarrow> attempt_start \<Rightarrow> snapshot \<Rightarrow> unit coordinated" where
  "activate clock dg req s =
     (let e = snap_execution s in
      obind (now clock (exec_updated e)) (\<lambda>created.
      othen (olift (attempt_valid (new_attempt dg req (exec_owner e) created)))
     (othen (insert_into attempts_table (new_attempt dg req (exec_owner e) created))
     (othen (update_in executions_table (\<lambda>r. exec_id r = start_execution req)
               (\<lambda>r. r\<lparr>exec_lifecycle := ActiveE (start_ordinal req), exec_revision := exec_revision e + 1,
                     exec_reason := None, exec_updated := created\<rparr>))
     (othen (update_in current_executions_table (\<lambda>r. ptr_owner r = exec_owner e)
               (\<lambda>r. r\<lparr>ptr_execution := Some (start_execution req), ptr_attempt := Some (start_ordinal req),
                     ptr_revision := snap_pointer_revision s + 1\<rparr>))
       (oreturn ()))))))"

fun resume_response :: "(nat \<Rightarrow> int) \<Rightarrow> response_state \<Rightarrow> obligation \<Rightarrow> unit coordinated" where
  "resume_response clock DeferredR ob = settle_obligation clock PendingR None ob"
| "resume_response clock _ ob = oreturn ()"

definition resume_retry :: "(nat \<Rightarrow> int) \<Rightarrow> snapshot \<Rightarrow> unit coordinated" where
  "resume_retry clock s =
     othen (oforeach (snap_obligations s) (\<lambda>ob. resume_response clock (obl_lifecycle ob) ob))
       (if exec_status (snap_execution s) = DeferredExecution
        then oforeach (snap_assignments s) (settle_claim clock EngagedAssignment)
        else oreturn ())"

record start_result =
  result_snapshot :: snapshot
  result_fence :: owner_fence

definition start ::
  "(message \<Rightarrow> string) \<Rightarrow> (string \<Rightarrow> string) \<Rightarrow> (nat \<Rightarrow> int) \<Rightarrow> attempt_start \<Rightarrow>
   start_result applied coordinated" where
  "start mid sha clock req =
     obind (olift (digest sha (start_token req))) (\<lambda>dg.
     writing
      (obind (reading (\<lambda>d. get mid d (start_execution req))) (\<lambda>s.
       obind (reading (\<lambda>d. one_row attempt_valid
                (\<lambda>a. att_execution a = start_execution req \<and> att_digest a = dg) (attempts d))) (\<lambda>old.
       case old of
         Some a \<Rightarrow>
           obind (olift (replayed_fence req s a)) (\<lambda>f.
           oreturn (AlreadyApplied \<lparr>result_snapshot = s, result_fence = f\<rparr>))
       | None \<Rightarrow>
           obind (reading (\<lambda>d. one_row attempt_valid (\<lambda>a. att_digest a = dg) (attempts d))) (\<lambda>issued.
           othen (orequire (issued = None)
                    (IdentityConflict ''prepared fence token has already been issued''))
          (obind (participant_get (exec_owner (snap_execution s))) (\<lambda>person.
           othen (olift (validate_start req s person))
          (othen (activate clock dg req s)
          (othen (resume_retry clock s)
          (obind (reading (\<lambda>d. get mid d (start_execution req))) (\<lambda>after.
           obind (olift (start_fence req 1)) (\<lambda>f.
           oreturn (Applied \<lparr>result_snapshot = after, result_fence = f\<rparr>)))))))))))))"

subsection \<open>Advancing an attempt\<close>

definition attempt_advance ::
  "(nat \<Rightarrow> int) \<Rightarrow> attempt \<Rightarrow> attempt_phase \<Rightarrow> bool \<Rightarrow> bool \<Rightarrow> bool \<Rightarrow> string option \<Rightarrow> unit coordinated" where
  "attempt_advance clock a phase finished dead progress reason =
     obind (now clock (att_updated a)) (\<lambda>t.
     obind (olift (observed (att_lifecycle a) phase finished dead progress)) (\<lambda>lifecycle.
     othen (update_in attempts_table
              (\<lambda>r. att_execution r = att_execution a \<and> att_ordinal r = att_ordinal a)
              (\<lambda>r. r\<lparr>att_lifecycle := lifecycle, att_revision := att_revision a + 1, att_updated := t,
                    att_progress := (if progress then Some t else att_progress a), att_reason := reason\<rparr>))
       (oreturn ())))"

definition advance ::
  "(message \<Rightarrow> string) \<Rightarrow> (string \<Rightarrow> string) \<Rightarrow> (nat \<Rightarrow> int) \<Rightarrow> owner_fence \<Rightarrow> attempt_phase \<Rightarrow> int \<Rightarrow>
   bool \<Rightarrow> bool \<Rightarrow> bool \<Rightarrow> string option \<Rightarrow> start_result applied coordinated" where
  "advance mid sha clock f phase pointer_revision finished dead progress reason =
     othen (orequire (\<not> terminal_attempt phase)
              (IdentityConflict ''terminal phases require atomic settlement''))
    (writing
      (obind (require_fence mid sha f) (\<lambda>(s, a).
       othen (orequire (snap_pointer_revision s = pointer_revision) (StaleRevision ''pointer revision changed''))
      (othen (attempt_advance clock a phase finished dead progress reason)
      (obind (reading (\<lambda>d. get mid d (fence_execution f))) (\<lambda>after.
       obind (olift (require_attempt after)) (\<lambda>b.
       oreturn (Applied \<lparr>result_snapshot = after,
                         result_fence = f\<lparr>fence_revision := att_revision b\<rparr>\<rparr>))))))))"

subsection \<open>Settlement\<close>

definition settle_rows ::
  "(nat \<Rightarrow> int) \<Rightarrow> snapshot \<Rightarrow> attempt \<Rightarrow> terminal_phase \<Rightarrow> string option \<Rightarrow>
   execution_state \<Rightarrow> response_state \<Rightarrow> unit coordinated" where
  "settle_rows clock s a outcome reason state response =
     (let e = snap_execution s; x = exec_id e in
      obind (now clock (max (exec_updated e) (att_updated a))) (\<lambda>t.
      othen (update_in attempts_table (\<lambda>r. att_execution r = x \<and> att_ordinal r = att_ordinal a)
               (\<lambda>r. r\<lparr>att_lifecycle := Ended outcome, att_revision := att_revision a + 1,
                     att_updated := t, att_reason := reason\<rparr>))
     (othen (update_in executions_table (\<lambda>r. exec_id r = x)
               (\<lambda>r. r\<lparr>exec_lifecycle := state, exec_revision := exec_revision e + 1,
                     exec_updated := t, exec_reason := reason\<rparr>))
     (othen (oforeach (snap_obligations s) (settle_obligation clock response reason))
     (othen (oforeach (snap_assignments s)
               (settle_claim clock (execution_assignment_state (execution_kind_of state))))
     (othen (update_in current_executions_table (\<lambda>r. ptr_owner r = exec_owner e)
               (\<lambda>r. r\<lparr>ptr_execution := None, ptr_attempt := None,
                     ptr_revision := snap_pointer_revision s + 1\<rparr>))
       (oreturn ())))))))"

definition settle ::
  "(nat \<Rightarrow> int) \<Rightarrow> snapshot \<Rightarrow> terminal_phase \<Rightarrow> string option \<Rightarrow> unit coordinated" where
  "settle clock s outcome reason =
     othen (orequire (snap_intents s = [])
              (PublicationUncertain ''publication requires bus-keyed acknowledgement resolution''))
    (case snap_attempt s of
       None \<Rightarrow> ofail (RecoveryBlocked ''settlement requires exact final done/death evidence'')
     | Some a \<Rightarrow>
         othen (orequire (snap_is_current s \<and> backend_done (att_lifecycle a) \<and> process_dead (att_lifecycle a))
                  (RecoveryBlocked ''settlement requires exact final done/death evidence''))
        (othen (accumulate (exec_id (snap_execution s)) (replay_contribution outcome))
        (obind (olift (disposition outcome s a)) (\<lambda>(state, response).
           settle_rows clock s a outcome reason state response))))"

definition fail_unknown ::
  "(message \<Rightarrow> string) \<Rightarrow> (string \<Rightarrow> string) \<Rightarrow> (nat \<Rightarrow> int) \<Rightarrow> owner_fence \<Rightarrow> int \<Rightarrow>
   snapshot applied coordinated" where
  "fail_unknown mid sha clock f pointer_revision =
     writing
      (obind (require_fence mid sha f) (\<lambda>(s, a).
       othen (orequire (snap_pointer_revision s = pointer_revision) (StaleRevision ''pointer revision changed''))
      (othen (orequire (snap_intents s = [])
                (PublicationUncertain ''UNKNOWN failure cannot resolve frozen publication''))
      (othen (if backend_done (att_lifecycle a) \<and> process_dead (att_lifecycle a) then oreturn ()
              else attempt_advance clock a (att_phase a) True True False (Some ''native_unknown''))
      (obind (reading (\<lambda>d. get mid d (fence_execution f))) (\<lambda>final.
       othen (settle clock final UnknownOutcome (Some ''native_unknown''))
      (obind (reading (\<lambda>d. get mid d (fence_execution f))) (\<lambda>after. oreturn (Applied after)))))))))"

definition settle_nonpublication ::
  "(message \<Rightarrow> string) \<Rightarrow> (string \<Rightarrow> string) \<Rightarrow> (nat \<Rightarrow> int) \<Rightarrow> owner_fence \<Rightarrow> int \<Rightarrow> terminal_phase \<Rightarrow>
   string option \<Rightarrow> turn_failure option \<Rightarrow> snapshot applied coordinated" where
  "settle_nonpublication mid sha clock f pointer_revision outcome reason failure =
     writing
      (obind (require_fence mid sha f) (\<lambda>(s, _).
       othen (orequire (snap_pointer_revision s = pointer_revision) (StaleRevision ''pointer revision changed''))
      (obind (case failure of
                None \<Rightarrow> oreturn s
              | Some failed \<Rightarrow>
                  othen (prepare_execution_retry failed (fence_execution f))
                    (obind (require_fence mid sha f) (\<lambda>(s', _). oreturn s'))) (\<lambda>current.
       othen (settle clock current outcome reason)
      (obind (reading (\<lambda>d. get mid d (fence_execution f))) (\<lambda>after. oreturn (Applied after)))))))"

text \<open>\<open>finish_publications\<close>: once every route is published the attempt succeeds and the owner is
  released.\<close>

definition finish_rows :: "(nat \<Rightarrow> int) \<Rightarrow> snapshot \<Rightarrow> attempt \<Rightarrow> unit coordinated" where
  "finish_rows clock s a =
     (let e = snap_execution s in
      obind (now clock (att_updated a)) (\<lambda>t.
      othen (update_in attempts_table
               (\<lambda>r. att_execution r = exec_id e \<and> att_ordinal r = att_ordinal a \<and> att_revision r = att_revision a)
               (\<lambda>r. r\<lparr>att_lifecycle := Ended Succeeded, att_revision := att_revision a + 1, att_updated := t\<rparr>))
     (obind (now clock (exec_updated e)) (\<lambda>t'.
      othen (update_in executions_table (\<lambda>r. exec_id r = exec_id e \<and> exec_revision r = exec_revision e)
               (\<lambda>r. r\<lparr>exec_lifecycle := CompletedE (att_ordinal a), exec_revision := exec_revision e + 1,
                     exec_updated := t'\<rparr>))
     (othen (oforeach (snap_assignments s) (\<lambda>c.
        obind (olift (build CompletedAssignment (assignment_mode (asg_lifecycle c)) (asg_execution c) (asg_target c))) (\<lambda>lifecycle.
        obind (now clock (asg_updated c)) (\<lambda>t''.
        othen (update_in wake_claims_table (\<lambda>r. asg_id r = asg_id c \<and> asg_revision r = asg_revision c)
                 (\<lambda>r. r\<lparr>asg_lifecycle := lifecycle, asg_revision := asg_revision c + 1, asg_updated := t''\<rparr>))
          (oreturn ())))))
     (othen (update_in current_executions_table
               (\<lambda>r. ptr_owner r = exec_owner e \<and> ptr_revision r = snap_pointer_revision s \<and>
                    ptr_execution r = Some (exec_id e))
               (\<lambda>r. r\<lparr>ptr_execution := None, ptr_attempt := None,
                     ptr_revision := snap_pointer_revision s + 1\<rparr>))
       (oreturn ())))))))"

definition finish_publications :: "(nat \<Rightarrow> int) \<Rightarrow> snapshot \<Rightarrow> unit coordinated" where
  "finish_publications clock s =
     obind (olift (require_wire_responses s)) (\<lambda>obls.
     if list_all (\<lambda>ob. obl_state ob = PublishedResponse) obls
     then obind (olift (require_current_attempt s)) (\<lambda>a. finish_rows clock s a)
     else oreturn ())"

subsection \<open>The operations as statements\<close>

lemma for_execution_ran: "ran mid (for_execution x)"
  unfolding for_execution_def by (intro ran_intros)

lemma accumulate_ran: "ran mid (accumulate x facts)"
  unfolding accumulate_def by (intro ran_intros)

lemma record_replay_ran: "ran mid (record_replay prior after)"
  unfolding record_replay_def by (intro ran_intros)

lemma observe_ran: "ran mid (observe prior x facts safe effects)"
  unfolding observe_def Let_def by (intro ran_intros record_replay_ran)

lemma prepare_execution_retry_ran: "ran mid (prepare_execution_retry failure x)"
  by (cases failure)
    (auto simp: revoke_def authorize_if_unobserved_def Let_def
      intro!: ran_intros for_execution_ran observe_ran record_replay_ran)

lemma require_fence_ran: "ran mid (require_fence mid sha f)"
  unfolding require_fence_def participant_get_def by (intro ran_intros)

lemma settle_claim_ran: "ran mid (settle_claim clock kind c)"
  using stepped_settle_claim [where P = "\<lambda>_. True"] by simp

lemma resume_response_ran: "ran mid (resume_response clock st ob)"
  using stepped_settle_obligation [where P = "\<lambda>_. True" and response = PendingR]
  by (cases st) (auto simp: retryable_def intro: ran_intros)

lemma start_ran: "ran mid (start mid sha clock req)"
  unfolding start_def participant_get_def activate_def resume_retry_def Let_def
  by (intro ran_intros settle_claim_ran resume_response_ran) (simp add: has_capability_def)

lemma attempt_advance_ran: "ran mid (attempt_advance clock a phase finished dead progress reason)"
  unfolding attempt_advance_def by (intro ran_intros)

lemma advance_ran: "ran mid (advance mid sha clock f phase n finished dead progress reason)"
  unfolding advance_def case_prod_beta by (intro ran_intros require_fence_ran attempt_advance_ran)

text \<open>A fence check returns the snapshot it read.\<close>

lemma require_fence_Inr:
  assumes "require_fence mid sha f s = Inr ((snap, a), s')"
  shows "s' = s" "get mid (db s) (fence_execution f) = Inr snap" "snap_is_current snap"
    "snap_attempt snap = Some a" "fence_authority sha f = Inr (attempt_authority_of a)"
    "att_revision a = fence_revision f"
    "\<exists>person. read_participant (db s) (att_owner a) = Inr person \<and>
      generation (ps_generation person) = att_generation a"
  using assms
  by (auto simp: require_fence_def participant_get_def op_simps require_current_attempt_def
      require_attempt_def split: if_splits option.splits)

text \<open>A current snapshot is of an active execution, the only one of its id.\<close>

lemma get_active:
  assumes "get mid d x = Inr s" "snap_is_current s"
  shows "exec_status (snap_execution s) = ActiveExecution"
proof -
  from assms(1) have "snapshot_valid s = Inr ()" by (auto simp: get_def Let_def)
  with assms(2) have "has_capability execution_capabilities (exec_status (snap_execution s)) Active"
    by (auto simp: snapshot_valid_def validate_current_pointer_def Let_def)
  then show ?thesis by (cases "exec_lifecycle (snap_execution s)") (auto simp: has_capability_def)
qed

abbreviation own_obligations :: "snapshot \<Rightarrow> bool" where
  "own_obligations s \<equiv> \<forall>ob \<in> set (snap_obligations s). obl_execution ob = exec_id (snap_execution s)"

lemma get_own_obligations: "get mid d x = Inr s \<Longrightarrow> own_obligations s"
  using get_execution get_obligations by fastforce

text \<open>What a settlement needs of the rows it goes by: its execution, when current, is still open at the
  revision that was read.\<close>

abbreviation settling :: "snapshot \<Rightarrow> execution list \<Rightarrow> bool" where
  "settling s rows \<equiv>
     snap_is_current s \<longrightarrow> open_at (exec_id (snap_execution s)) (exec_revision (snap_execution s)) rows"

lemma get_settling: "get mid d x = Inr s \<Longrightarrow> settling s (executions d)"
  using get_open get_active get_execution by (fastforce simp: has_capability_def)

lemma stepped_require_fence:
  "stepped mid (\<lambda>_. True) (require_fence mid sha f) (\<lambda>r d. get mid d (fence_execution f) = Inr (fst r))"
  unfolding triple_def
proof (intro allI impI)
  fix s r s' assume run: "require_fence mid sha f s = Inr (r, s')"
  obtain snap a where r: "r = (snap, a)" by (cases r)
  from require_fence_Inr [OF run [unfolded r]]
  show "(statement mid)\<^sup>*\<^sup>* (db s) (db s') \<and> get mid (db s') (fence_execution f) = Inr (fst r)"
    by (simp add: r)
qed

lemma disposition_scope:
  "disposition outcome s a = Inr (state, response) \<Longrightarrow>
   retryable (response_kind_of response) \<or> execution_kind_of state \<noteq> DeferredExecution"
  by (cases outcome) (auto simp: retryable_def split: if_splits)

lemma settle_rows_ran:
  assumes "own_obligations s"
    "retryable (response_kind_of response) \<or> execution_kind_of state \<noteq> DeferredExecution"
  shows "stepped mid (\<lambda>d. open_at (exec_id (snap_execution s)) (exec_revision (snap_execution s)) (executions d))
    (settle_rows clock s a outcome reason state response) (\<lambda>_ _. True)"
  unfolding settle_rows_def Let_def
proof (rule steps.triple_bind [OF stepped_now],
    rule steps.triple_then [OF stepped_kept [OF ran_update_attempt]],
    rule kept_update [OF attempts_t.stored_table_axioms], simp add: attempts_table_def,
    rule steps.triple_then [OF stepped_update_execution [where S = "\<lambda>e. exec_lifecycle e = state"]])
  let ?x = "exec_id (snap_execution s)"
  let ?P = "\<lambda>rows. \<forall>e \<in> set rows. exec_id e = ?x \<longrightarrow> exec_lifecycle e = state"
  show "stepped mid (\<lambda>d. ?P (executions d))
    (othen (oforeach (snap_obligations s) (settle_obligation clock response reason))
     (othen (oforeach (snap_assignments s)
               (settle_claim clock (execution_assignment_state (execution_kind_of state))))
     (othen (update_in current_executions_table (\<lambda>r. ptr_owner r = exec_owner (snap_execution s))
               (\<lambda>r. r\<lparr>ptr_execution := None, ptr_attempt := None,
                     ptr_revision := snap_pointer_revision s + 1\<rparr>))
       (oreturn ())))) (\<lambda>_ _. True)"
  proof (rule stepped_settle_rows [OF assms(1)])
    show "retryable (response_kind_of response) \<or> (\<forall>rows. ?P rows \<longrightarrow> undeferred ?x rows)"
      using assms(2) by (auto simp: undeferred_def)
    show "stepped mid (\<lambda>d. ?P (executions d))
      (othen (update_in current_executions_table (\<lambda>r. ptr_owner r = exec_owner (snap_execution s))
         (\<lambda>r. r\<lparr>ptr_execution := None, ptr_attempt := None, ptr_revision := snap_pointer_revision s + 1\<rparr>))
       (oreturn ())) (\<lambda>_ _. True)"
      by (rule steps.triple_pre [where P = "\<lambda>_. True"]) (intro ran_intros, simp)
  qed
qed simp_all

lemma accumulate_kept: "within db (keeps executions) (accumulate x facts)"
  unfolding accumulate_def by (intro kept_intros) (simp_all add: replay_assessments_table_def)

lemma settle_ran:
  assumes "own_obligations s"
  shows "stepped mid (\<lambda>d. settling s (executions d)) (settle clock s outcome reason) (\<lambda>_ _. True)"
  unfolding settle_def case_prod_beta
proof (intro steps.triple_require_then steps.triple_option)
  fix a :: attempt
  assume "snap_is_current s \<and> backend_done (att_lifecycle a) \<and> process_dead (att_lifecycle a)"
  then show "stepped mid (\<lambda>d. settling s (executions d))
    (othen (accumulate (exec_id (snap_execution s)) (replay_contribution outcome))
        (obind (olift (disposition outcome s a)) (\<lambda>p. settle_rows clock s a outcome reason (fst p) (snd p))))
    (\<lambda>_ _. True)"
    by (intro steps.triple_then [OF stepped_kept [OF accumulate_ran accumulate_kept]] steps.triple_lift_known
        steps.triple_pre [OF settle_rows_ran [OF assms]]) (auto dest!: disposition_scope)
qed (simp add: triple_def op_simps)

text \<open>Settling what was just read, or what a fence check returned.\<close>

lemma settle_read:
  "stepped mid (\<lambda>d. get mid d x = Inr s) (settle clock s outcome reason) (\<lambda>_ _. True)"
  by (rule steps.triple_fact [where A = "own_obligations s"])
    (auto dest: get_own_obligations get_settling intro: steps.triple_pre [OF settle_ran])

lemma fail_unknown_ran: "ran mid (fail_unknown mid sha clock f n)"
  unfolding fail_unknown_def case_prod_beta
  by (intro ran_writing steps.within_bind [OF require_fence_ran] steps.triple_require_then
      steps.within_then [OF steps.triple_if] steps.within_return attempt_advance_ran
      steps.triple_bind [OF stepped_reading] steps.triple_then [OF steps.triple_pre [OF settle_read]])
    (auto intro: steps.triple_forget [OF steps.triple_unit])

lemma settle_nonpublication_ran: "ran mid (settle_nonpublication mid sha clock f n outcome reason failure)"
proof -
  have current: "stepped mid (\<lambda>d. get mid d (fence_execution f) = Inr snap)
     (case failure of
        None \<Rightarrow> oreturn snap
      | Some failed \<Rightarrow>
          othen (prepare_execution_retry failed (fence_execution f))
            (obind (require_fence mid sha f) (\<lambda>r. oreturn (fst r))))
     (\<lambda>c d. get mid d (fence_execution f) = Inr c)" for snap
  proof (rule steps.triple_option)
    show "stepped mid (\<lambda>d. get mid d (fence_execution f) = Inr snap) (oreturn snap)
        (\<lambda>c d. get mid d (fence_execution f) = Inr c)"
      by (simp add: triple_def op_simps)
    show "stepped mid (\<lambda>d. get mid d (fence_execution f) = Inr snap)
        (othen (prepare_execution_retry failed (fence_execution f))
            (obind (require_fence mid sha f) (\<lambda>r. oreturn (fst r))))
        (\<lambda>c d. get mid d (fence_execution f) = Inr c)" for failed
      by (rule steps.triple_pre [OF steps.triple_then [OF prepare_execution_retry_ran]],
          rule steps.triple_bind [OF stepped_require_fence])
        (simp_all add: triple_def op_simps)
  qed
  show ?thesis
    unfolding settle_nonpublication_def case_prod_beta
    by (intro ran_writing steps.triple_bind [OF stepped_require_fence] steps.triple_require_then
        steps.triple_bind [OF current] steps.triple_then [OF settle_read])
      (auto intro: ran_intros)
qed

lemma finish_publications_ran:
  "stepped mid (\<lambda>d. settling s (executions d)) (finish_publications clock s) (\<lambda>_ _. True)"
proof -
  have rows: "stepped mid (\<lambda>d. open_at (exec_id (snap_execution s)) (exec_revision (snap_execution s)) (executions d))
      (finish_rows clock s a) (\<lambda>_ _. True)" for a
    unfolding finish_rows_def Let_def
    by (rule steps.triple_bind [OF stepped_now],
        rule steps.triple_then [OF stepped_kept [OF ran_update_attempt]],
        rule kept_update [OF attempts_t.stored_table_axioms], simp add: attempts_table_def,
        rule steps.triple_bind [OF stepped_now],
        rule steps.triple_then [OF steps.triple_forget [OF stepped_revise_execution]], simp, simp,
        intro ran_known ran_intros ran_update_claim) (auto simp del: build.simps dest: build_valid)
  show ?thesis
    unfolding finish_publications_def
    by (intro steps.triple_lift_known steps.triple_if steps.triple_pre [OF rows])
      (auto simp: require_current_attempt_def triple_def op_simps split: if_splits)
qed

text \<open>The delay before a retry starts at one second, never decreases with the attempt's ordinal and
  never exceeds eight seconds.\<close>

lemma retry_delay_bounded:
  "1 \<le> retry_delay n \<and> retry_delay n \<le> 8 \<and> retry_delay n \<le> retry_delay (n + k)"
proof -
  have "(2::nat) ^ (n - 1) \<le> 2 ^ (n + k - 1)" by (rule power_increasing) simp_all
  from min.mono [OF this order_refl] show ?thesis by (simp add: retry_delay_def)
qed

end
