(* ===== verification/Response_Publication.thy ===== *)
theory Response_Publication
  imports Attempt_Store
begin

text \<open>
  \<open>coordination/response.py\<close> with the parts of \<open>response_conversation.py\<close>, \<open>publisher.py\<close>, \<open>bus.py\<close> and
  \<open>bus_publication.py\<close> it calls: an owner freezes its replies as intents, records a durable dispatch
  before the first append, appends one keyed row to the bus and records the acknowledgement.  The
  bus and the coordinator are two stores: a process may die, or an operation raise, after the bus
  row is durable and before the coordinator commits, and the model keeps exactly what is durable at
  that point.
\<close>

subsection \<open>The bus\<close>

text \<open>A stored bus row: its sequence number, its publication key when it is a keyed response, and the
  publication content of its message.\<close>

record bus_row =
  bus_seq :: int
  bus_key :: "string option"
  bus_message :: message

text \<open>The source reads the counter SQLite keeps for the table; rows are never deleted, so it is the
  greatest number given.\<close>

definition next_seq :: "bus_row list \<Rightarrow> int" where
  "next_seq rows = foldr max (map bus_seq rows) 0 + 1"

definition keyed_messages :: "string \<Rightarrow> bus_row list \<Rightarrow> bus_row list" where
  "keyed_messages key rows = take 1 (filter (\<lambda>r. bus_key r = Some key) rows)"

definition matches_publication :: "intent \<Rightarrow> bus_row \<Rightarrow> bool" where
  "matches_publication i r \<longleftrightarrow> int_message i = bus_message r"

definition published_message :: "intent \<Rightarrow> bus_row list \<Rightarrow> bus_row option result" where
  "published_message i rows =
     (case keyed_messages (int_key i) rows of
        [] \<Rightarrow> Inr None
      | r # _ \<Rightarrow>
          rbind (require (matches_publication i r)
                   (RelationViolation ''Response publication key has different message content.'')) (\<lambda>_.
          Inr (Some r)))"

definition append_message :: "message \<Rightarrow> bus_row list \<Rightarrow> bus_row list" where
  "append_message m rows = rows @ [\<lparr>bus_seq = next_seq rows, bus_key = None, bus_message = m\<rparr>]"

text \<open>\<open>KeyedPublication.append_to\<close>: the first row of a key is the only one.\<close>

definition append_to :: "bus_row \<Rightarrow> bus_row list \<Rightarrow> (bus_row \<times> bus_row list) result" where
  "append_to r rows =
     (case filter (\<lambda>q. bus_key q = bus_key r) rows of
        [] \<Rightarrow> Inr (r, rows @ [r])
      | original # _ \<Rightarrow>
          rbind (require (bus_message r = bus_message original)
                   (RelationViolation ''Response publication key has different message content.'')) (\<lambda>_.
          Inr (original, rows)))"

text \<open>\<open>_publish_keyed_response_unlocked\<close>: \<open>accepts\<close> is the publisher's validation of the request against
  the registry and the channels.\<close>

definition publish_keyed_response ::
  "(intent \<Rightarrow> unit result) \<Rightarrow> intent \<Rightarrow> bus_row list \<Rightarrow> (bus_row \<times> bus_row list) result" where
  "publish_keyed_response accepts i rows =
     rbind (published_message i rows) (\<lambda>matched.
       case matched of
         Some r \<Rightarrow> Inr (r, rows)
       | None \<Rightarrow>
           rbind (accepts i) (\<lambda>_.
           rbind (canonical_publication_key (int_execution i) (int_target i)) (\<lambda>key.
           rbind (require (int_key i = key)
                    (RelationViolation ''Response publication key does not match its route.'')) (\<lambda>_.
           append_to \<lparr>bus_seq = next_seq rows, bus_key = Some (int_key i), bus_message = int_message i\<rparr> rows))))"

subsection \<open>Dispatches\<close>

record dispatch =
  dis_execution :: string
  dis_target :: string
  dis_root :: string
  dis_generation :: int
  dis_ordinal :: int
  dis_at :: int

definition matches_attempt :: "dispatch \<Rightarrow> string \<Rightarrow> string \<Rightarrow> int \<Rightarrow> int \<Rightarrow> string \<Rightarrow> bool" where
  "matches_attempt r root x gen ordinal t \<longleftrightarrow>
     r = \<lparr>dis_execution = x, dis_target = t, dis_root = root, dis_generation = gen,
          dis_ordinal = ordinal, dis_at = dis_at r\<rparr>"

definition dispatch_matches :: "dispatch \<Rightarrow> string \<Rightarrow> owner_fence \<Rightarrow> string \<Rightarrow> bool" where
  "dispatch_matches r root f t =
     matches_attempt r root (fence_execution f) (fence_generation f) (fence_ordinal f) t"

text \<open>The dispatch table stands beside the coordinator's tables in the same file.\<close>

definition append_dispatches_table :: "(coordination \<times> dispatch list, dispatch) table_spec" where
  "append_dispatches_table =
     \<lparr>table_name = ''publication_append_dispatches'', table_rows = snd, table_put = apsnd,
      insert_refused = (\<lambda>_ _. False), update_refused = (\<lambda>_ _ _. True),
      row_checks = (\<lambda>r. 1 \<le> length (dis_target r) \<and> length (dis_target r) \<le> 256 \<and>
         0 < dis_generation r \<and> 0 < dis_ordinal r \<and> 0 \<le> dis_at r),
      row_conflict = (\<lambda>r r'. dis_execution r = dis_execution r' \<and> dis_target r = dis_target r'),
      row_references = (\<lambda>(d, _) r. intent_at d (dis_execution r) (dis_target r) \<noteq> None),
      after_refused = (\<lambda>_ _. False)\<rparr>"

interpretation append_dispatches_t: stored_table append_dispatches_table
  by unfold_locales (auto simp: append_dispatches_table_def)

definition dispatch_of :: "string \<Rightarrow> string \<Rightarrow> dispatch list \<Rightarrow> dispatch option result" where
  "dispatch_of x t rows = one_row (\<lambda>_. Inr ()) (\<lambda>r. dis_execution r = x \<and> dis_target r = t) rows"

subsection \<open>The boundary of one call\<close>

text \<open>What a call captures before it writes: the wire root, the original deliveries of the bus, the
  sealed cohort routes of a claim, and the registry's names, births and current owner.  The
  registry, the cohort tables and the original deliveries are read, never written, here.\<close>

record original = delivery +
  org_target :: string
  org_envelope :: string
  org_audience :: string
  org_decisions :: string

record response_route =
  rt_message :: string
  rt_target :: string
  rt_envelope :: string
  rt_audience :: string
  rt_decisions :: string
  rt_resolver :: string
  rt_policy :: string
  rt_recipient :: string
  rt_thread :: string

record boundary =
  bd_root :: string
  bd_original :: "int \<Rightarrow> original option"
  bd_routes :: "string \<Rightarrow> response_route list"
  bd_name :: "string \<Rightarrow> string"
  bd_lookup :: "string \<Rightarrow> string option"
  bd_accepts :: "intent \<Rightarrow> unit result"

record live_owner =
  own_lookup :: string
  own_actual :: "string option"

definition require_live :: "live_owner \<Rightarrow> owner_fence \<Rightarrow> unit result" where
  "require_live w f =
     (case own_actual w of
        None \<Rightarrow> Inl (StaleFence ''response owner turn stopped or changed before publication'')
      | Some actual \<Rightarrow> require (actual = fence_owner f)
          (StaleFence ''response turn belongs to a different fenced owner''))"

definition route_source :: "original \<Rightarrow> assignment \<Rightarrow> response_route" where
  "route_source initial c =
     \<lparr>rt_message = snd (del_reference initial), rt_target = org_target initial,
      rt_envelope = org_envelope initial, rt_audience = org_audience initial,
      rt_decisions = org_decisions initial, rt_resolver = asg_resolver c, rt_policy = asg_policy c,
      rt_recipient = asg_recipient_lookup c, rt_thread = asg_recipient c\<rparr>"

definition selected_recipients :: "original \<Rightarrow> string list" where
  "selected_recipients initial =
     map (fst \<circ> fst) (filter (\<lambda>(recipient, decision). claim_decisions decision \<noteq> [])
       (zip (del_recipients initial) (del_decisions initial)))"

definition require_cohort_assignment :: "boundary \<Rightarrow> bool \<Rightarrow> assignment \<Rightarrow> unit result" where
  "require_cohort_assignment b finished c =
     (case (bd_original b (asg_wire_seq c), bd_routes b (asg_id c)) of
        (Some initial, [route]) \<Rightarrow>
          rbind (require (claim_source c = del_reference initial)
                   (IdentityConflict ''response claim conflicts with original bus source'')) (\<lambda>_.
          rbind (require (route = route_source initial c)
                   (IdentityConflict ''response sealed route differs from committed source'')) (\<lambda>_.
          rbind (require (asg_recipient_lookup c \<in> set (selected_recipients initial))
                   (IdentityConflict ''response recipient was not selected by the original source'')) (\<lambda>_.
          rbind (if finished then require_completion (asg_lifecycle c)
                 else require_engagement (asg_lifecycle c)) (\<lambda>bound.
          require (eng_exact_target bound = del_reply_target initial)
            (IdentityConflict ''response claim conflicts with original selected bus route'')))))
      | _ \<Rightarrow> Inl (IdentityConflict ''response claim lacks original bus/cohort authority''))"

definition require_cohort_assignments :: "boundary \<Rightarrow> bool \<Rightarrow> snapshot \<Rightarrow> unit result" where
  "require_cohort_assignments b finished s =
     rbind (require_wire_responses s) (\<lambda>_.
     rforeach (snap_assignments s) (require_cohort_assignment b finished))"

subsection \<open>Requirements on the snapshot\<close>

definition matches_request :: "intent \<Rightarrow> string \<Rightarrow> message \<Rightarrow> bool" where
  "matches_request i x m \<longleftrightarrow> int_execution i = x \<and> int_message i = m"

definition snapshot_require_existing_preparation :: "snapshot \<Rightarrow> message \<Rightarrow> unit result" where
  "snapshot_require_existing_preparation s candidate =
     rbind (require_wire_response s (msg_target candidate)) (\<lambda>ob.
     rbind (require_existing_preparation (obl_lifecycle ob)) (\<lambda>_.
     require (case response_record int_target (snap_intents s) (msg_target candidate) of
                None \<Rightarrow> False | Some i \<Rightarrow> matches_request i (exec_id (snap_execution s)) candidate)
       (IdentityConflict ''prepared response envelope conflicts'')))"

definition require_publishing_intent :: "boundary \<Rightarrow> snapshot \<Rightarrow> string \<Rightarrow> (intent \<times> obligation) result" where
  "require_publishing_intent b s t =
     rbind (require_wire_responses s) (\<lambda>obls.
     rbind (require (length (snap_intents s) = length obls)
              (IdentityConflict ''all original response bodies must be frozen before first append'')) (\<lambda>_.
     rbind (require_wire_response s t) (\<lambda>ob.
     rbind (require_publishing (obl_lifecycle ob)) (\<lambda>_.
     case response_record int_target (snap_intents s) t of
       None \<Rightarrow> Inl (IdentityConflict ''no frozen publishing intent for current owner'')
     | Some i \<Rightarrow>
         (case bd_lookup b (msg_sender (int_message i)) of
            None \<Rightarrow> Inl (RelationViolation ''Unknown thread'')
          | Some lookup \<Rightarrow>
              rbind (require (lookup = exec_owner (snap_execution s))
                       (IdentityConflict ''no frozen publishing intent for current owner'')) (\<lambda>_.
              Inr (i, ob)))))))"

definition require_published_evidence :: "snapshot \<Rightarrow> string \<Rightarrow> (intent \<times> evidence) result" where
  "require_published_evidence s t =
     (case (response_record int_target (snap_intents s) t, response_record evi_target (snap_evidence s) t) of
        (Some i, Some r) \<Rightarrow> Inr (i, r)
      | _ \<Rightarrow> Inl (StaleFence ''response route has no frozen publication evidence''))"

definition source_references :: "snapshot \<Rightarrow> obligation \<Rightarrow> message_reference list result" where
  "source_references s ob =
     rbind (require (obl_execution ob = exec_id (snap_execution s))
              (IdentityConflict ''Response obligation belongs to another execution'')) (\<lambda>_.
     let originals = map claim_source
           (filter (\<lambda>c. asg_target c = Some (obl_target ob)) (snap_assignments s)) in
     rbind (require (originals \<noteq> []) (IdentityConflict ''Response obligation has no original conversation'')) (\<lambda>_.
     Inr originals))"

definition answer_references :: "snapshot \<Rightarrow> obligation \<Rightarrow> message_reference list \<Rightarrow> message_reference list result" where
  "answer_references s ob following =
     rbind (source_references s ob) (\<lambda>originals. Inr (first_occurrences (originals @ following)))"

definition require_final_owner ::
  "(message \<Rightarrow> string) \<Rightarrow> (string \<Rightarrow> string) \<Rightarrow> boundary \<Rightarrow> live_owner \<Rightarrow> owner_fence \<Rightarrow> string \<Rightarrow>
   snapshot coordinated" where
  "require_final_owner mid sha b w f t =
     obind (require_fence mid sha f) (\<lambda>(s, a).
     othen (olift (snapshot_require_final_response s (own_lookup w) t))
    (othen (olift (require_cohort_assignments b False s)) (oreturn s)))"

subsection \<open>Freezing a reply\<close>

text \<open>\<open>prepare_fenced_response\<close>.  \<open>stamp\<close> is the caller's timestamp, \<open>wall\<close> the wall clock read when it
  gives none, \<open>following\<close> the started inputs this reply also answers.\<close>

record reply =
  reply_payload :: string
  reply_target :: string
  reply_content :: string
  reply_stamp :: "int option"
  reply_wall :: int
  reply_following :: "message_reference list"

definition reply_message :: "boundary \<Rightarrow> reply \<Rightarrow> string \<Rightarrow> int \<Rightarrow> message_reference list \<Rightarrow> message" where
  "reply_message b r owner time answers =
     \<lparr>msg_sender = bd_name b owner, msg_target = reply_target r, msg_body = reply_payload r,
      msg_timestamp = (case reply_stamp r of None \<Rightarrow> time | Some t \<Rightarrow> t), msg_answers = answers,
      msg_content = reply_content r\<rparr>"

definition freeze_reply ::
  "(message \<Rightarrow> string) \<Rightarrow> (nat \<Rightarrow> int) \<Rightarrow> boundary \<Rightarrow> reply \<Rightarrow> snapshot \<Rightarrow> message_reference list \<Rightarrow>
   intent coordinated" where
  "freeze_reply mid clock b r s answers =
     (let e = snap_execution s; candidate = reply_message b r (exec_owner e) (reply_wall r) answers in
      obind (olift (snapshot_require_preparation s (reply_target r))) (\<lambda>ob.
      obind (olift (canonical_publication_key (exec_id e) (reply_target r))) (\<lambda>key.
      let i = \<lparr>int_execution = exec_id e, int_target = reply_target r, int_message = candidate,
               int_key = key, int_expected = mid candidate\<rparr> in
      othen (olift (intent_valid mid i))
     (othen (insert_into (publication_intents_table mid) i)
     (obind (now clock (obl_updated ob)) (\<lambda>t.
      othen (update_in obligations_table
               (\<lambda>q. obl_execution q = exec_id e \<and> obl_target q = reply_target r \<and>
                    obl_lifecycle q = PendingR \<and> obl_revision q = obl_revision ob)
               (\<lambda>q. q\<lparr>obl_lifecycle := PublishingR, obl_revision := obl_revision ob + 1, obl_updated := t\<rparr>))
        (oreturn i)))))))"

definition prepare_fenced_response ::
  "(message \<Rightarrow> string) \<Rightarrow> (string \<Rightarrow> string) \<Rightarrow> (nat \<Rightarrow> int) \<Rightarrow> boundary \<Rightarrow> live_owner \<Rightarrow> owner_fence \<Rightarrow>
   reply \<Rightarrow> intent applied coordinated" where
  "prepare_fenced_response mid sha clock b w f r =
     othen (orequire (reply_payload r \<noteq> []) (ValueError ''response payload must be nonempty''))
    (othen (olift (require_live w f))
    (writing
      (obind (require_final_owner mid sha b w f (reply_target r)) (\<lambda>s.
       obind (olift (require_wire_response s (reply_target r))) (\<lambda>ob.
       obind (olift (answer_references s ob (reply_following r))) (\<lambda>answers.
       case response_record int_target (snap_intents s) (reply_target r) of
         Some existing \<Rightarrow>
           othen (olift (snapshot_require_existing_preparation s
                    (reply_message b r (exec_owner (snap_execution s))
                       (msg_timestamp (int_message existing)) answers)))
             (oreturn (AlreadyApplied existing))
       | None \<Rightarrow> obind (freeze_reply mid clock b r s answers) (\<lambda>i. oreturn (Applied i))))))))"

subsection \<open>Completing a reply\<close>

text \<open>\<open>PublicationAppendDispatches.complete\<close>: record the durable row and, when it was the last route,
  finish the attempt.\<close>

definition complete ::
  "(message \<Rightarrow> string) \<Rightarrow> (nat \<Rightarrow> int) \<Rightarrow> dispatch \<Rightarrow> snapshot \<Rightarrow> intent \<Rightarrow> obligation \<Rightarrow> bus_row \<Rightarrow>
   snapshot coordinated" where
  "complete mid clock dispatch s i ob matched =
     obind (olift (require_current_attempt s)) (\<lambda>a.
     othen (orequire (matches_attempt dispatch (dis_root dispatch) (exec_id (snap_execution s))
                (att_generation a) (att_ordinal a) (int_target i))
              (IdentityConflict ''response dispatch belongs to another root or owner''))
    (obind (now clock (max (exec_updated (snap_execution s)) (att_updated a))) (\<lambda>t.
     othen (insert_into publication_receipts_table
              \<lparr>evi_execution = int_execution i, evi_target = int_target i, evi_seq = bus_seq matched,
               evi_message_id = mid (bus_message matched), evi_received = t\<rparr>)
    (obind (now clock (obl_updated ob)) (\<lambda>t'.
     othen (update_in obligations_table
              (\<lambda>q. obl_execution q = int_execution i \<and> obl_target q = int_target i \<and>
                   obl_revision q = obl_revision ob)
              (\<lambda>q. q\<lparr>obl_lifecycle := PublishedR (mid (bus_message matched)) (bus_seq matched),
                    obl_revision := obl_revision ob + 1, obl_updated := t'\<rparr>))
    (obind (reading (\<lambda>d. get mid d (int_execution i))) (\<lambda>published.
     othen (finish_publications clock published)
       (reading (\<lambda>d. get mid d (int_execution i))))))))))"

text \<open>\<open>_terminal_replay\<close>: a finished acknowledgement is read again, never published again.\<close>

definition terminal_replay ::
  "(message \<Rightarrow> string) \<Rightarrow> (string \<Rightarrow> string) \<Rightarrow> boundary \<Rightarrow> live_owner \<Rightarrow> owner_fence \<Rightarrow> string \<Rightarrow>
   bus_row list \<Rightarrow> snapshot option coordinated" where
  "terminal_replay mid sha b w f t bus =
     obind (reading (\<lambda>d. get mid d (fence_execution f))) (\<lambda>s.
     if response_record evi_target (snap_evidence s) t = None then oreturn None
     else
       othen (orequire (exec_owner (snap_execution s) = own_lookup w)
                (StaleFence ''finished response belongs to a different SQL recipient''))
      (obind (olift (require_attempt s)) (\<lambda>a.
       obind (olift (fence_authority sha f)) (\<lambda>authority.
       othen (orequire (attempt_authority_of a = authority)
                (StaleFence ''finished response is not the original attempt of this owner''))
      (obind (olift (require_published_evidence s t)) (\<lambda>(i, r).
       othen (olift (require_cohort_assignments b (completed_response s) s))
      (obind (olift (published_message i bus)) (\<lambda>matched.
       othen (orequire (case matched of None \<Rightarrow> False
                  | Some q \<Rightarrow> (bus_seq q, mid (bus_message q)) = (evi_seq r, evi_message_id r))
                (PublicationUncertain ''published SQL acknowledgement has no exact durable bus row''))
         (oreturn (Some s))))))))))"

text \<open>\<open>ResponseConversation.capture\<close>: the originals of the route are all present and name it.\<close>

definition capture_conversation :: "boundary \<Rightarrow> snapshot \<Rightarrow> obligation \<Rightarrow> unit result" where
  "capture_conversation b s ob =
     rbind (source_references s ob) (\<lambda>originals.
     rforeach originals (\<lambda>reference.
       case bd_original b (fst reference) of
         None \<Rightarrow> Inl (IdentityConflict ''Response obligation has no complete original conversation'')
       | Some source \<Rightarrow>
           rbind (require (del_reference source = reference)
                    (IdentityConflict ''Response conversation lost an original source'')) (\<lambda>_.
           require (del_reply_target source = obl_target ob)
             (IdentityConflict ''Response obligation differs from its original routes''))))"

subsection \<open>The dispatch barrier\<close>

text \<open>The first transaction of \<open>_settle_fenced_response\<close>.  It returns a finished snapshot, or whether
  this call recorded the dispatch, with the dispatch rows after it.\<close>

definition open_dispatch ::
  "(message \<Rightarrow> string) \<Rightarrow> (string \<Rightarrow> string) \<Rightarrow> (nat \<Rightarrow> int) \<Rightarrow> boundary \<Rightarrow> live_owner \<Rightarrow> owner_fence \<Rightarrow> string \<Rightarrow>
   dispatch list \<Rightarrow> bus_row list \<Rightarrow> (snapshot + bool \<times> dispatch list) coordinated" where
  "open_dispatch mid sha clock b w f t dispatches bus =
     writing
      (obind (terminal_replay mid sha b w f t bus) (\<lambda>finished.
       case finished of
         Some s \<Rightarrow> oreturn (Inl s)
       | None \<Rightarrow>
           obind (require_final_owner mid sha b w f t) (\<lambda>s.
           othen (olift (require_publishing_intent b s t))
          (obind (olift (dispatch_of (fence_execution f) t dispatches)) (\<lambda>prior.
           case prior of
             Some r \<Rightarrow>
               othen (orequire (dispatch_matches r (bd_root b) f t)
                        (IdentityConflict ''response dispatch belongs to another root or owner''))
                 (oreturn (Inr (False, dispatches)))
           | None \<Rightarrow>
               obind (now clock (exec_updated (snap_execution s))) (\<lambda>at.
               obind (reading (\<lambda>d. insert_row append_dispatches_table
                        \<lparr>dis_execution = fence_execution f, dis_target = t, dis_root = bd_root b,
                         dis_generation = fence_generation f, dis_ordinal = fence_ordinal f, dis_at = at\<rparr>
                        (d, dispatches))) (\<lambda>(_, rows).
               oreturn (Inr (True, rows)))))))))"

text \<open>What the second transaction reads before it may append.\<close>

definition settle_ready ::
  "(message \<Rightarrow> string) \<Rightarrow> (string \<Rightarrow> string) \<Rightarrow> boundary \<Rightarrow> live_owner \<Rightarrow> owner_fence \<Rightarrow> string \<Rightarrow>
   dispatch list \<Rightarrow> bus_row list \<Rightarrow>
   (snapshot + snapshot \<times> intent \<times> obligation \<times> dispatch \<times> bus_row option) coordinated" where
  "settle_ready mid sha b w f t dispatches bus =
     obind (terminal_replay mid sha b w f t bus) (\<lambda>finished.
       case finished of
         Some s \<Rightarrow> oreturn (Inl s)
       | None \<Rightarrow>
           obind (require_final_owner mid sha b w f t) (\<lambda>s.
           obind (olift (require_publishing_intent b s t)) (\<lambda>(i, ob).
           obind (olift (dispatch_of (fence_execution f) t dispatches)) (\<lambda>stored.
           case stored of
             None \<Rightarrow> ofail (PublicationUncertain ''no matching durable append dispatch'')
           | Some r \<Rightarrow>
               othen (orequire (dispatch_matches r (bd_root b) f t)
                        (PublicationUncertain ''no matching durable append dispatch''))
              (obind (olift (published_message i bus)) (\<lambda>matched.
               oreturn (Inr (s, i, ob, r, matched))))))))"

subsection \<open>Publishing across both stores\<close>

record world =
  w_session :: session
  w_dispatches :: "dispatch list"
  w_bus :: "bus_row list"

text \<open>A call returns, raises, or its process dies on the way.  The points are those between which
  something becomes durable.  A registry revision that changed after the dispatch, and a bus append
  that reports a failure after its commit, end a call at the same points.\<close>

datatype stop = NoStop | StopAfterDispatch | StopBeforeAppend | StopAfterAppend

datatype 'a outcome = Returned 'a | Raised error | Died

definition settle_matched ::
  "(message \<Rightarrow> string) \<Rightarrow> (nat \<Rightarrow> int) \<Rightarrow> stop \<Rightarrow> snapshot \<times> intent \<times> obligation \<times> dispatch \<Rightarrow> bus_row \<Rightarrow>
   world \<Rightarrow> snapshot applied outcome \<times> world" where
  "settle_matched mid clock stop = (\<lambda>(s, i, ob, r) matched w.
     if stop = StopAfterAppend then (Died, w)
     else case writing (complete mid clock r s i ob matched) (w_session w) of
            Inl e \<Rightarrow> (Raised e, w)
          | Inr (after, session') \<Rightarrow> (Returned (Applied after), w\<lparr>w_session := session'\<rparr>))"

definition append_response ::
  "(message \<Rightarrow> string) \<Rightarrow> (nat \<Rightarrow> int) \<Rightarrow> boundary \<Rightarrow> stop \<Rightarrow> snapshot \<times> intent \<times> obligation \<times> dispatch \<Rightarrow>
   world \<Rightarrow> snapshot applied outcome \<times> world" where
  "append_response mid clock b stop = (\<lambda>(s, i, ob, r) w.
     if stop = StopBeforeAppend then (Died, w)
     else case rbind (capture_conversation b s ob) (\<lambda>_. publish_keyed_response (bd_accepts b) i (w_bus w)) of
            Inl e \<Rightarrow> (Raised e, w)
          | Inr (row, bus) \<Rightarrow> settle_matched mid clock stop (s, i, ob, r) row (w\<lparr>w_bus := bus\<rparr>))"

definition settle_response ::
  "(message \<Rightarrow> string) \<Rightarrow> (string \<Rightarrow> string) \<Rightarrow> (nat \<Rightarrow> int) \<Rightarrow> boundary \<Rightarrow> live_owner \<Rightarrow> owner_fence \<Rightarrow> string \<Rightarrow>
   stop \<Rightarrow> bool \<Rightarrow> world \<Rightarrow> snapshot applied outcome \<times> world" where
  "settle_response mid sha clock b owner f t stop first w =
     (case settle_ready mid sha b owner f t (w_dispatches w) (w_bus w) (w_session w) of
        Inl e \<Rightarrow> (Raised e, w)
      | Inr (Inl s, _) \<Rightarrow> (Returned (AlreadyApplied s), w)
      | Inr (Inr (s, i, ob, r, Some matched), _) \<Rightarrow> settle_matched mid clock stop (s, i, ob, r) matched w
      | Inr (Inr (s, i, ob, r, None), _) \<Rightarrow>
          if first then append_response mid clock b stop (s, i, ob, r) w
          else (Raised (PublicationUncertain ''no keyed bus acknowledgement; no resend authorized''), w))"

definition publish_fenced_response ::
  "(message \<Rightarrow> string) \<Rightarrow> (string \<Rightarrow> string) \<Rightarrow> (nat \<Rightarrow> int) \<Rightarrow> boundary \<Rightarrow> live_owner \<Rightarrow> owner_fence \<Rightarrow> string \<Rightarrow>
   stop \<Rightarrow> world \<Rightarrow> snapshot applied outcome \<times> world" where
  "publish_fenced_response mid sha clock b owner f t stop w =
     (case require_live owner f of
        Inl e \<Rightarrow> (Raised e, w)
      | Inr _ \<Rightarrow>
          (case open_dispatch mid sha clock b owner f t (w_dispatches w) (w_bus w) (w_session w) of
             Inl e \<Rightarrow> (Raised e, w)
           | Inr (Inl s, session') \<Rightarrow> (Returned (AlreadyApplied s), w\<lparr>w_session := session'\<rparr>)
           | Inr (Inr (first, rows), session') \<Rightarrow>
               let w' = w\<lparr>w_session := session', w_dispatches := rows\<rparr> in
               if stop = StopAfterDispatch then (Died, w')
               else settle_response mid sha clock b owner f t stop first w'))"

subsection \<open>Resolving retained replies\<close>

text \<open>\<open>resolve_retained\<close>: only frozen replies whose keyed row is already on the bus are finished.\<close>

definition retained_executions :: "string \<Rightarrow> coordination \<Rightarrow> string list" where
  "retained_executions owner d =
     sort (remdups (map int_execution (filter (\<lambda>i.
       list_ex (\<lambda>e. exec_id e = int_execution i \<and> exec_owner e = owner) (executions d) \<and>
       \<not> list_ex (\<lambda>r. evi_execution r = int_execution i \<and> evi_target r = int_target i) (publication_receipts d))
       (publication_intents d))))"

definition resolve_intent ::
  "(message \<Rightarrow> string) \<Rightarrow> (nat \<Rightarrow> int) \<Rightarrow> boundary \<Rightarrow> string \<Rightarrow> string \<Rightarrow> dispatch list \<Rightarrow> bus_row list \<Rightarrow>
   (snapshot \<times> snapshot) coordinated" where
  "resolve_intent mid clock b x t dispatches bus =
     writing
      (obind (reading (\<lambda>d. get mid d x)) (\<lambda>s.
       othen (olift (require_cohort_assignments b False s))
      (obind (olift (require_publishing_intent b s t)) (\<lambda>(i, ob).
       obind (olift (require_current_attempt s)) (\<lambda>a.
       obind (olift (dispatch_of x t dispatches)) (\<lambda>stored.
       case stored of
         None \<Rightarrow> ofail (PublicationUncertain ''no matching durable append dispatch'')
       | Some r \<Rightarrow>
           othen (orequire (matches_attempt r (bd_root b) x (att_generation a) (att_ordinal a) t)
                    (PublicationUncertain ''no matching durable append dispatch''))
          (obind (olift (published_message i bus)) (\<lambda>matched.
           case matched of
             None \<Rightarrow> ofail (PublicationUncertain ''no keyed bus acknowledgement; no resend authorized'')
           | Some row \<Rightarrow>
               obind (complete mid clock r s i ob row) (\<lambda>after. oreturn (s, after))))))))))"

text \<open>Each reply is its own transaction, so what was finished before a refusal stays finished.\<close>

fun resolve_intents ::
  "(message \<Rightarrow> string) \<Rightarrow> (nat \<Rightarrow> int) \<Rightarrow> boundary \<Rightarrow> string \<Rightarrow> snapshot \<Rightarrow> intent list \<Rightarrow> world \<Rightarrow>
   snapshot list outcome \<times> world" where
  "resolve_intents mid clock b x s [] w = (Returned [], w)"
| "resolve_intents mid clock b x s (i # rest) w =
     (if response_record evi_target (snap_evidence s) (int_target i) \<noteq> None
      then resolve_intents mid clock b x s rest w
      else case resolve_intent mid clock b x (int_target i) (w_dispatches w) (w_bus w) (w_session w) of
             Inl e \<Rightarrow> (Raised e, w)
           | Inr ((s', after), session') \<Rightarrow>
               (case resolve_intents mid clock b x s' rest (w\<lparr>w_session := session'\<rparr>) of
                  (Returned done, w') \<Rightarrow> (Returned (after # done), w')
                | (failed, w') \<Rightarrow> (failed, w')))"

definition retained_snapshot :: "(message \<Rightarrow> string) \<Rightarrow> coordination \<Rightarrow> string \<Rightarrow> string \<Rightarrow> snapshot result" where
  "retained_snapshot mid d owner x =
     rbind (get mid d x) (\<lambda>s.
     rbind (require (exec_owner (snap_execution s) = owner)
              (StaleFence ''retained response belongs to another owner'')) (\<lambda>_. Inr s))"

fun resolve_executions ::
  "(message \<Rightarrow> string) \<Rightarrow> (nat \<Rightarrow> int) \<Rightarrow> boundary \<Rightarrow> string \<Rightarrow> string option \<Rightarrow> string list \<Rightarrow> world \<Rightarrow>
   snapshot list outcome \<times> world" where
  "resolve_executions mid clock b owner only [] w = (Returned [], w)"
| "resolve_executions mid clock b owner only (x # rest) w =
     (if only \<noteq> None \<and> only \<noteq> Some x then resolve_executions mid clock b owner only rest w
      else case retained_snapshot mid (db (w_session w)) owner x of
             Inl e \<Rightarrow> (Raised e, w)
           | Inr s \<Rightarrow>
               (case resolve_intents mid clock b x s (snap_intents s) w of
                  (Returned done, w') \<Rightarrow>
                    (case resolve_executions mid clock b owner only rest w' of
                       (Returned more_done, w'') \<Rightarrow> (Returned (done @ more_done), w'')
                     | (failed, w'') \<Rightarrow> (failed, w''))
                | (failed, w') \<Rightarrow> (failed, w')))"

definition resolve_retained ::
  "(message \<Rightarrow> string) \<Rightarrow> (nat \<Rightarrow> int) \<Rightarrow> boundary \<Rightarrow> string \<Rightarrow> string option \<Rightarrow> world \<Rightarrow>
   snapshot list outcome \<times> world" where
  "resolve_retained mid clock b owner only w =
     resolve_executions mid clock b owner only (retained_executions owner (db (w_session w))) w"

subsection \<open>The operations as statements\<close>

lemma get_current:
  assumes "get mid d x = Inr s" "snap_is_current s"
  shows "undeferred x (executions d)"
  using get_execution_only [OF assms(1)] get_active [OF assms] by (auto simp: undeferred_def)

lemma freeze_reply_ran:
  "stepped mid (\<lambda>d. undeferred (exec_id (snap_execution s)) (executions d))
     (freeze_reply mid clock b r s answers) (\<lambda>_ _. True)"
  unfolding freeze_reply_def Let_def
  by (intro steps.triple_lift_known steps.triple_lift_then steps.triple_then [OF stepped_kept]
      steps.triple_bind [OF stepped_now] steps.triple_then [OF stepped_update_obligation] ran_insert
      kept_insert steps.triple_forget [OF steps.triple_unit])
    (auto simp: obligation_scope_def undeferred_def publication_intents_table_def)

lemma complete_ran:
  "stepped mid (\<lambda>d. undeferred (int_execution i) (executions d))
     (complete mid clock r s i ob matched) (\<lambda>_ _. True)"
  unfolding complete_def
  by (intro steps.triple_lift_known steps.triple_require_then steps.triple_bind [OF stepped_now]
      steps.triple_then [OF stepped_kept] ran_insert kept_insert
      steps.triple_then [OF stepped_update_obligation]
      steps.triple_bind [OF stepped_reading]
      steps.triple_then [OF steps.triple_pre [OF finish_publications_ran]] ran_reading)
    (auto simp: obligation_scope_def undeferred_def publication_receipts_table_def dest: get_settling)

text \<open>The checks before a write only read.\<close>

lemma require_final_owner_Inr:
  assumes "require_final_owner mid sha b w f t s0 = Inr (s, s1)"
  shows "s1 = s0 \<and> get mid (db s0) (fence_execution f) = Inr s \<and> snap_is_current s \<and>
    exec_id (snap_execution s) = fence_execution f \<and>
    (\<exists>a. snap_attempt s = Some a \<and> fence_authority sha f = Inr (attempt_authority_of a) \<and>
       publication_ready (att_lifecycle a))"
proof -
  from assms obtain a s2 where fence: "require_fence mid sha f s0 = Inr ((s, a), s2)" and "s1 = s2"
    "\<exists>ob. snapshot_require_final_response s (own_lookup w) t = Inr ob"
    by (auto simp: require_final_owner_def op_simps)
  then show ?thesis
    using require_fence_Inr [OF fence] get_execution [of mid "db s0" "fence_execution f" s]
    by (auto simp: snapshot_require_final_response_def require_attempt_def attempt_require_final_response_def)
qed

lemma terminal_replay_Inr:
  assumes "terminal_replay mid sha b w f t bus s0 = Inr (r, s1)"
  shows "s1 = s0"
  using assms by (auto simp: terminal_replay_def op_simps split: if_splits)

lemma stepped_final_owner:
  "stepped mid (\<lambda>_. True) (require_final_owner mid sha b w f t)
    (\<lambda>s d. get mid d (fence_execution f) = Inr s \<and> snap_is_current s \<and>
       exec_id (snap_execution s) = fence_execution f)"
  by (auto simp: triple_def dest!: require_final_owner_Inr)

lemma prepare_ran: "ran mid (prepare_fenced_response mid sha clock b w f r)"
  unfolding prepare_fenced_response_def
proof (intro steps.triple_require_then steps.triple_lift_then ran_writing,
    rule steps.triple_bind [OF stepped_final_owner])
  fix s
  let ?P = "\<lambda>d. get mid d (fence_execution f) = Inr s \<and> snap_is_current s \<and>
    exec_id (snap_execution s) = fence_execution f"
  have freeze: "stepped mid ?P (obind (freeze_reply mid clock b r s answers) (\<lambda>i. oreturn (Applied i))) (\<lambda>_ _. True)" for answers
    by (rule steps.triple_pre [OF steps.triple_bind [OF freeze_reply_ran]])
      (auto intro: steps.within_return get_current)
  show "stepped mid ?P
    (obind (olift (require_wire_response s (reply_target r))) (\<lambda>ob.
       obind (olift (answer_references s ob (reply_following r))) (\<lambda>answers.
       case response_record int_target (snap_intents s) (reply_target r) of
         Some existing \<Rightarrow>
           othen (olift (snapshot_require_existing_preparation s
                    (reply_message b r (exec_owner (snap_execution s))
                       (msg_timestamp (int_message existing)) answers)))
             (oreturn (AlreadyApplied existing))
       | None \<Rightarrow> obind (freeze_reply mid clock b r s answers) (\<lambda>i. oreturn (Applied i))))) (\<lambda>_ _. True)"
    by (intro steps.triple_lift_known steps.triple_option freeze steps.triple_lift_then
        steps.triple_forget [OF steps.triple_unit])
qed

lemma open_dispatch_Inr:
  assumes "open_dispatch mid sha clock b w f t dispatches bus s0 = Inr (r, s1)"
  shows "db s1 = db s0 \<and> deferred_ok (db s1)"
  using assms
  by (auto simp: open_dispatch_def op_simps split: option.splits dest!: terminal_replay_Inr require_final_owner_Inr)

lemma require_publishing_intent_Inr:
  assumes "require_publishing_intent b s t = Inr (i, ob)"
  shows "i \<in> set (snap_intents s) \<and> int_target i = t \<and> ob \<in> set (snap_obligations s) \<and> obl_target ob = t \<and>
    obl_lifecycle ob = PublishingR"
  using assms
  by (auto simp: require_publishing_intent_def require_wire_response_def require_wire_responses_def
      require_publishing_def response_record_def dest!: find_Some_in split: option.splits if_splits)

lemma get_intents: "get mid d x = Inr s \<Longrightarrow> \<forall>i \<in> set (snap_intents s). i \<in> set (publication_intents d) \<and> int_execution i = x"
  by (auto simp: get_def Let_def intents_of_def)

lemma settle_ready_Inr:
  assumes "settle_ready mid sha b w f t dispatches bus s0 = Inr (Inr (s, i, ob, r, matched), s1)"
  shows "s1 = s0" "get mid (db s0) (fence_execution f) = Inr s" "snap_is_current s"
    "i \<in> set (publication_intents (db s0))" "int_execution i = fence_execution f" "int_target i = t"
    "ob \<in> set (snap_obligations s)" "obl_target ob = t"
    "dispatch_of (fence_execution f) t dispatches = Inr (Some r)" "published_message i bus = Inr matched"
  using assms
  by (auto simp: settle_ready_def op_simps split: option.splits
      dest!: terminal_replay_Inr require_final_owner_Inr require_publishing_intent_Inr dest: get_intents)

lemma complete_reachable:
  assumes "writing (complete mid clock r s i ob matched) s0 = Inr (after, s1)"
    "get mid (db s0) (int_execution i) = Inr s" "snap_is_current s"
  shows "(statement mid)\<^sup>*\<^sup>* (db s0) (db s1) \<and> deferred_ok (db s1)"
  using assms complete_ran [of mid i clock r s ob matched] get_current [OF assms(2,3)]
  by (auto simp: triple_def op_simps)

end
