(* ===== verification/Publication_Contract.thy ===== *)
theory Publication_Contract
  imports Response_Publication
begin

text \<open>
  What the operations across both stores do, given what their single transactions do.  Resolving
  retained replies repeats one transaction per reply; publishing completes at most one reply.  Each
  contract names the transaction's law and gives the law of the whole operation, for every relation
  between the worlds, or the databases, before and after.
\<close>

abbreviation w_db :: "world \<Rightarrow> coordination" where
  "w_db w \<equiv> db (w_session w)"

locale resolve_contract =
  fixes mid :: "message \<Rightarrow> string" and W :: "world \<Rightarrow> world \<Rightarrow> bool"
  assumes world_refl: "W w w"
    and world_trans: "W w1 w2 \<Longrightarrow> W w2 w3 \<Longrightarrow> W w1 w3"
    and resolved: "resolve_intent mid clock b x t (w_dispatches w) (w_bus w) (w_session w) = Inr (v, s1) \<Longrightarrow>
      W w (w\<lparr>w_session := s1\<rparr>)"
begin

lemma intents_resolved: "W w (snd (resolve_intents mid clock b x s intents w))"
proof (induction intents arbitrary: s w)
  case (Cons i rest)
  show ?case
  proof (cases "response_record evi_target (snap_evidence s) (int_target i) = None")
    case none: True
    show ?thesis
    proof (cases "resolve_intent mid clock b x (int_target i) (w_dispatches w) (w_bus w) (w_session w)")
      case (Inr p)
      obtain s' after s1 where p: "p = ((s', after), s1)" by (metis surj_pair)
      have "W w (snd (resolve_intents mid clock b x s' rest (w\<lparr>w_session := s1\<rparr>)))"
        by (rule world_trans [OF resolved [OF Inr [unfolded p]] Cons.IH])
      with none Inr p show ?thesis by (auto split: prod.splits outcome.splits)
    qed (simp add: none world_refl)
  qed (use Cons.IH in simp)
qed (simp add: world_refl)

lemma executions_resolved: "W w (snd (resolve_executions mid clock b owner only xs w))"
proof (induction xs arbitrary: w)
  case (Cons x rest)
  show ?case
  proof (cases "only \<noteq> None \<and> only \<noteq> Some x")
    case taken: False
    show ?thesis
    proof (cases "retained_snapshot mid (w_db w) owner x")
      case (Inr s)
      obtain res w1 where w1: "resolve_intents mid clock b x s (snap_intents s) w = (res, w1)"
        by (cases "resolve_intents mid clock b x s (snap_intents s) w")
      have first: "W w w1" using intents_resolved [of w clock b x s "snap_intents s"] w1 by simp
      have "W w (snd (resolve_executions mid clock b owner only rest w1))"
        by (rule world_trans [OF first Cons.IH])
      with first taken Inr w1 show ?thesis by (auto split: outcome.splits prod.splits)
    qed (use taken world_refl in auto)
  qed (use Cons.IH in simp)
qed (simp add: world_refl)

lemma retained_resolved: "W w (snd (resolve_retained mid clock b owner only w))"
  unfolding resolve_retained_def by (rule executions_resolved)

end

text \<open>For a relation between databases, the law of the one transaction that completes a reply.\<close>

locale publication_contract =
  fixes mid :: "message \<Rightarrow> string" and R :: "coordination \<Rightarrow> coordination \<Rightarrow> bool"
  assumes data_refl: "R d d"
    and data_trans: "R d1 d2 \<Longrightarrow> R d2 d3 \<Longrightarrow> R d1 d3"
    and completed: "writing (complete mid clock r s i ob q) s0 = Inr (after, s1) \<Longrightarrow>
      get mid (db s0) (int_execution i) = Inr s \<Longrightarrow> snap_is_current s \<Longrightarrow> R (db s0) (db s1)"
begin

lemma matched_settled:
  assumes "get mid (w_db w) (int_execution i) = Inr s" "snap_is_current s"
  shows "R (w_db w) (w_db (snd (settle_matched mid clock stop (s, i, ob, r) q w)))"
  using completed [OF _ assms]
  by (auto simp: settle_matched_def data_refl split: sum.splits)

lemma response_settled: "R (w_db w) (w_db (snd (settle_response mid sha clock b owner f t stop first w)))"
proof (cases "settle_ready mid sha b owner f t (w_dispatches w) (w_bus w) (w_session w)")
  case ready: (Inr p)
  obtain q s1 where p: "p = (q, s1)" by (cases p)
  show ?thesis
  proof (cases q)
    case (Inr v)
    obtain s i ob r matched where v: "v = (s, i, ob, r, matched)" by (cases v)
    have "R (w_db w) (w_db (snd (settle_matched mid clock stop (s, i, ob, r) row (w\<lparr>w_bus := bus\<rparr>))))" for row bus
      using matched_settled [of "w\<lparr>w_bus := bus\<rparr>" i s clock stop ob r row]
        settle_ready_Inr [OF ready [unfolded p Inr v]] by simp
    from this this [of _ "w_bus w"] ready show ?thesis
      by (cases matched)
        (auto simp: settle_response_def append_response_def p Inr v data_refl split: sum.splits)
  qed (use ready in \<open>simp add: settle_response_def p data_refl\<close>)
qed (simp add: settle_response_def data_refl)

lemma response_published:
  "R (w_db w) (w_db (snd (publish_fenced_response mid sha clock b owner f t stop w)))"
proof (cases "require_live owner f")
  case live: (Inr u)
  show ?thesis
  proof (cases "open_dispatch mid sha clock b owner f t (w_dispatches w) (w_bus w) (w_session w)")
    case (Inr p)
    obtain q s1 where p: "p = (q, s1)" by (cases p)
    have same: "db s1 = w_db w" using open_dispatch_Inr [OF Inr [unfolded p]] by simp
    have "R (w_db w) (w_db (snd (settle_response mid sha clock b owner f t stop first
        (w\<lparr>w_session := s1, w_dispatches := rows\<rparr>))))" for first rows
      using response_settled [of "w\<lparr>w_session := s1, w_dispatches := rows\<rparr>"] same by simp
    with Inr live same show ?thesis
      by (cases q) (auto simp: publish_fenced_response_def p Let_def data_refl)
  qed (use live in \<open>simp add: publish_fenced_response_def data_refl\<close>)
qed (simp add: publish_fenced_response_def data_refl)

lemma intent_resolved:
  assumes "resolve_intent mid clock b x t dispatches bus s0 = Inr (v, s1)"
  shows "R (db s0) (db s1)"
proof -
  from assms obtain s i ob r q after where s: "get mid (db s0) x = Inr s"
    and "require_publishing_intent b s t = Inr (i, ob)" and "snap_is_current s"
    and "writing (complete mid clock r s i ob q) s0 = Inr (after, s1)"
    by (auto simp: resolve_intent_def require_current_attempt_def op_simps split: option.splits if_splits)
  moreover from this get_intents [OF s] have "int_execution i = x"
    by (auto dest!: require_publishing_intent_Inr)
  ultimately show ?thesis using completed by blast
qed

end

sublocale publication_contract \<subseteq> retained: resolve_contract mid "\<lambda>w w'. R (w_db w) (w_db w')"
  by unfold_locales (auto intro: data_refl data_trans intent_resolved)

end
