(* ===== verification/Coordinator_Calls.thy ===== *)
theory Coordinator_Calls
  imports Publication_Contract
begin

text \<open>
  The coordinator as its callers drive it: a call of a store operation or of the response
  publication, other messages appended to the bus in between, and the worlds a sequence of calls
  leads to from an empty database.  A store call that raises leaves the world as it was, so the
  clock gives the readings of the calls that return; a publication keeps what is durable where it
  raised or its process died.  Every call refines transactions of the abstract machine: the
  databases of the runs are reachable, and later calls keep what earlier calls stored.
\<close>

datatype call =
    Register string bool
  | Commit string
  | AdvanceGeneration string int
  | Accept assignment
  | TransitionPreengagement string assignment_kind int
  | RestoreUnboundDelivery assignment
  | SettleHarnessHandoff string "message_reference list"
  | SettleHarnessDelivery string "message_reference list"
  | Create string origin string int "selected_source list"
  | CreateAfterTriage string origin string int "selected_source list" "assignment list"
  | MarkPending string int
  | FailUnstarted string int string
  | Start attempt_start
  | Advance owner_fence attempt_phase int bool bool bool "string option"
  | FailUnknown owner_fence int
  | SettleNonpublication owner_fence int terminal_phase "string option" "turn_failure option"
  | Prepare boundary live_owner owner_fence reply
  | Publish boundary live_owner owner_fence string stop
  | ResolveRetained boundary string "string option"
  | BusMessage message

definition on_session :: "(session \<Rightarrow> session) \<Rightarrow> world \<Rightarrow> world" where
  "on_session f w = w\<lparr>w_session := f (w_session w)\<rparr>"

fun perform ::
  "(message \<Rightarrow> string) \<Rightarrow> (string \<Rightarrow> string) \<Rightarrow> (nat \<Rightarrow> int) \<Rightarrow> call \<Rightarrow> world \<Rightarrow> world" where
  "perform mid sha clock (Register p b) = on_session (after_call (register p b))"
| "perform mid sha clock (Commit p) = on_session (after_call (commit_participant p))"
| "perform mid sha clock (AdvanceGeneration p n) = on_session (after_call (advance_generation p n))"
| "perform mid sha clock (Accept c) = on_session (after_call (accept c))"
| "perform mid sha clock (TransitionPreengagement c k n) = on_session (after_call (transition_preengagement clock c k n))"
| "perform mid sha clock (RestoreUnboundDelivery c) = on_session (after_call (restore_unbound_delivery clock c))"
| "perform mid sha clock (SettleHarnessHandoff p sources) =
     on_session (after_call (writing (settle_harness_inputs clock p sources harness_handoff)))"
| "perform mid sha clock (SettleHarnessDelivery p sources) =
     on_session (after_call (writing (settle_harness_inputs clock p sources harness_delivery)))"
| "perform mid sha clock (Create x og p n sources) = on_session (after_call (create mid clock x og p n sources))"
| "perform mid sha clock (CreateAfterTriage x og p n sources settled) =
     on_session (after_call (create_after_triage mid clock x og p n sources settled))"
| "perform mid sha clock (MarkPending x n) = on_session (after_call (mark_pending mid clock x n))"
| "perform mid sha clock (FailUnstarted x n reason) = on_session (after_call (fail_unstarted mid clock x n reason))"
| "perform mid sha clock (Start req) = on_session (after_call (start mid sha clock req))"
| "perform mid sha clock (Advance f p n finished dead progress reason) =
     on_session (after_call (advance mid sha clock f p n finished dead progress reason))"
| "perform mid sha clock (FailUnknown f n) = on_session (after_call (fail_unknown mid sha clock f n))"
| "perform mid sha clock (SettleNonpublication f n t reason failure) =
     on_session (after_call (settle_nonpublication mid sha clock f n t reason failure))"
| "perform mid sha clock (Prepare b owner f r) =
     on_session (after_call (prepare_fenced_response mid sha clock b owner f r))"
| "perform mid sha clock (Publish b owner f t stop) =
     (\<lambda>w. snd (publish_fenced_response mid sha clock b owner f t stop w))"
| "perform mid sha clock (ResolveRetained b owner only) =
     (\<lambda>w. snd (resolve_retained mid clock b owner only w))"
| "perform mid sha clock (BusMessage m) = (\<lambda>w. w\<lparr>w_bus := append_message m (w_bus w)\<rparr>)"

definition empty_world :: world where
  "empty_world = \<lparr>w_session = \<lparr>db = empty_coordination, ticks = 0\<rparr>, w_dispatches = [], w_bus = []\<rparr>"

definition run_from ::
  "(message \<Rightarrow> string) \<Rightarrow> (string \<Rightarrow> string) \<Rightarrow> (nat \<Rightarrow> int) \<Rightarrow> world \<Rightarrow> call list \<Rightarrow> world" where
  "run_from mid sha clock w calls = foldl (\<lambda>w c. perform mid sha clock c w) w calls"

definition run ::
  "(message \<Rightarrow> string) \<Rightarrow> (string \<Rightarrow> string) \<Rightarrow> (nat \<Rightarrow> int) \<Rightarrow> call list \<Rightarrow> world" where
  "run mid sha clock calls = run_from mid sha clock empty_world calls"

subsection \<open>Calls are transactions of the abstract machine\<close>

text \<open>An operation that ends in a commit leaves no violated deferred foreign key.\<close>

definition commits :: "'a coordinated \<Rightarrow> bool" where
  "commits m \<longleftrightarrow> (\<forall>s a s'. m s = Inr (a, s') \<longrightarrow> deferred_ok (db s'))"

lemma commits_writing: "commits (writing m)"
  by (simp add: commits_def op_simps)

lemma commits_bind: "(\<And>a. commits (f a)) \<Longrightarrow> commits (obind m f)"
  by (auto simp: commits_def op_simps)

lemma commits_then: "commits k \<Longrightarrow> commits (othen m k)"
  by (auto simp: commits_def op_simps)

lemmas commits_intros = commits_writing commits_bind commits_then

text \<open>What a call makes of the database: statements, and a committed database stays committed.\<close>

definition world_steps :: "(message \<Rightarrow> string) \<Rightarrow> world \<Rightarrow> world \<Rightarrow> bool" where
  "world_steps mid w w' \<longleftrightarrow>
     (statement mid)\<^sup>*\<^sup>* (w_db w) (w_db w') \<and> (deferred_ok (w_db w) \<longrightarrow> deferred_ok (w_db w'))"

lemma world_steps_refl [simp]: "world_steps mid w w"
  by (simp add: world_steps_def)

lemma world_steps_same: "w_db w' = w_db w \<Longrightarrow> world_steps mid w w'"
  by (simp add: world_steps_def)

lemma world_steps_trans: "world_steps mid w1 w2 \<Longrightarrow> world_steps mid w2 w3 \<Longrightarrow> world_steps mid w1 w3"
  by (auto simp: world_steps_def)

lemma world_steps_reachable: "world_steps mid w w' \<Longrightarrow> reachable mid (w_db w) \<Longrightarrow> reachable mid (w_db w')"
  using reachable_deferred_ok by (auto simp: world_steps_def intro: reachable.commit)

lemma call_steps:
  assumes "ran mid m" "commits m"
  shows "world_steps mid w (on_session (after_call m) w)"
  using assms
  by (auto simp: world_steps_def on_session_def after_call_def triple_def commits_def split: sum.splits)

interpretation machine: publication_contract mid
    "\<lambda>d d'. (statement mid)\<^sup>*\<^sup>* d d' \<and> (deferred_ok d \<longrightarrow> deferred_ok d')" for mid
  by unfold_locales (auto dest: complete_reachable)

lemmas publication_steps = machine.response_published machine.retained.retained_resolved

lemma perform_steps: "world_steps mid w (perform mid sha clock c w)"
proof (cases c)
  case (Register p b)
  then show ?thesis using call_steps [OF ran_writing [OF register_ran] commits_writing] by (simp add: register_def)
next
  case (Commit p)
  then show ?thesis
    using call_steps [OF ran_writing [OF commit_ran] commits_writing] by (simp add: commit_participant_def)
next
  case (AdvanceGeneration p n)
  then show ?thesis
    using call_steps [OF ran_writing [OF advance_generation_ran] commits_writing]
    by (simp add: advance_generation_def)
next
  case (Accept c)
  have "commits (accept c)" unfolding accept_def by (intro commits_intros)
  with Accept show ?thesis using call_steps [OF accept_ran] by simp
next
  case (TransitionPreengagement c k n)
  then show ?thesis
    using call_steps [OF ran_writing [OF transition_in_ran] commits_writing]
    by (simp add: transition_preengagement_def)
next
  case (RestoreUnboundDelivery c)
  have "commits (restore_unbound_delivery clock c)"
    unfolding restore_unbound_delivery_def transition_preengagement_def by (intro commits_intros)
  with RestoreUnboundDelivery show ?thesis using call_steps [OF restore_ran] by simp
next
  case (SettleHarnessHandoff p sources)
  then show ?thesis
    using call_steps [OF ran_writing [OF settle_harness_inputs_ran] commits_writing] by simp
next
  case (SettleHarnessDelivery p sources)
  then show ?thesis
    using call_steps [OF ran_writing [OF settle_harness_inputs_ran] commits_writing] by simp
next
  case (Create x og p n sources)
  have "commits (create mid clock x og p n sources)" unfolding create_def by (intro commits_intros)
  with Create show ?thesis using call_steps [OF create_ran] by simp
next
  case (CreateAfterTriage x og p n sources settled)
  have "commits (create_after_triage mid clock x og p n sources settled)"
    unfolding create_after_triage_def by (intro commits_intros)
  with CreateAfterTriage show ?thesis using call_steps [OF create_after_triage_ran] by simp
next
  case (MarkPending x n)
  have "commits (mark_pending mid clock x n)" unfolding mark_pending_def by (intro commits_intros)
  with MarkPending show ?thesis using call_steps [OF mark_pending_ran] by simp
next
  case (FailUnstarted x n reason)
  have "commits (fail_unstarted mid clock x n reason)" unfolding fail_unstarted_def by (intro commits_intros)
  with FailUnstarted show ?thesis using call_steps [OF fail_unstarted_ran] by simp
next
  case (Start req)
  have "commits (start mid sha clock req)" unfolding start_def by (intro commits_intros)
  with Start show ?thesis using call_steps [OF start_ran] by simp
next
  case (Advance f p n finished dead progress reason)
  have "commits (advance mid sha clock f p n finished dead progress reason)"
    unfolding advance_def by (intro commits_intros)
  with Advance show ?thesis using call_steps [OF advance_ran] by simp
next
  case (FailUnknown f n)
  have "commits (fail_unknown mid sha clock f n)" unfolding fail_unknown_def by (intro commits_intros)
  with FailUnknown show ?thesis using call_steps [OF fail_unknown_ran] by simp
next
  case (SettleNonpublication f n t reason failure)
  have "commits (settle_nonpublication mid sha clock f n t reason failure)"
    unfolding settle_nonpublication_def by (intro commits_intros)
  with SettleNonpublication show ?thesis using call_steps [OF settle_nonpublication_ran] by simp
next
  case (Prepare b owner f r)
  have "commits (prepare_fenced_response mid sha clock b owner f r)"
    unfolding prepare_fenced_response_def by (intro commits_intros)
  with Prepare show ?thesis using call_steps [OF prepare_ran] by simp
next
  case (Publish b owner f t stop)
  then show ?thesis using publication_steps(1) by (simp add: world_steps_def)
next
  case (ResolveRetained b owner only)
  then show ?thesis using publication_steps(2) by (simp add: world_steps_def)
next
  case (BusMessage m)
  then show ?thesis by (simp add: world_steps_same)
qed

lemma run_from_simps [simp]:
  "run_from mid sha clock s [] = s"
  "run_from mid sha clock s (c # cs) = run_from mid sha clock (perform mid sha clock c s) cs"
  "run_from mid sha clock s (cs @ later) = run_from mid sha clock (run_from mid sha clock s cs) later"
  by (simp_all add: run_from_def)

lemma run_append: "run mid sha clock (cs @ later) = run_from mid sha clock (run mid sha clock cs) later"
  by (simp add: run_def)

lemma run_from_world_steps: "world_steps mid w (run_from mid sha clock w calls)"
proof (induction calls arbitrary: w)
  case (Cons c calls)
  show ?case using world_steps_trans [OF perform_steps Cons.IH] by simp
qed simp

lemma run_from_reachable:
  "reachable mid (w_db w) \<Longrightarrow> reachable mid (w_db (run_from mid sha clock w calls))"
  by (rule world_steps_reachable [OF run_from_world_steps])

lemma run_reachable_lemma: "reachable mid (w_db (run mid sha clock calls))"
  unfolding run_def by (rule run_from_reachable) (simp add: empty_world_def reachable.initial)

lemma run_from_steps: "(statement mid)\<^sup>*\<^sup>* (w_db w) (w_db (run_from mid sha clock w calls))"
  using run_from_world_steps by (simp add: world_steps_def)

lemmas run_sound = reachable_sound [OF run_reachable_lemma]
lemmas run_deferred = reachable_deferred_ok [OF run_reachable_lemma]

end
