(* ===== verification/Store_Contract.thy ===== *)
theory Store_Contract
  imports Coordinator_Calls
begin

text \<open>
  What every store operation keeps when the single statements keep it.  \<open>R\<close> is a relation between the
  databases before and after, and \<open>L\<close> the response states an obligation may be given; the contract
  of the tables is assumed, and the contract of the operations follows once for every such relation.
\<close>

locale store_contract = run_contract "db :: session \<Rightarrow> coordination" R
  for R :: "coordination \<Rightarrow> coordination \<Rightarrow> bool" +
  fixes L :: "response_state set"
  assumes inserts: "insert_row participants_table r1 d = Inr d' \<Longrightarrow> R d d'"
      "insert_row owner_generations_table r2 d = Inr d' \<Longrightarrow> R d d'"
      "insert_row current_executions_table r3 d = Inr d' \<Longrightarrow> R d d'"
      "insert_row executions_table r4 d = Inr d' \<Longrightarrow> R d d'"
      "insert_row attempts_table r5 d = Inr d' \<Longrightarrow> R d d'"
      "insert_row wake_claims_table r6 d = Inr d' \<Longrightarrow> R d d'"
      "insert_row execution_claims_table r7 d = Inr d' \<Longrightarrow> R d d'"
      "insert_row replay_assessments_table r8 d = Inr d' \<Longrightarrow> R d d'"
    and insert_pending: "obl_lifecycle r9 = PendingR \<Longrightarrow> insert_row obligations_table r9 d = Inr d' \<Longrightarrow> R d d'"
    and updates: "update_where participants_table Q1 f1 d = Inr (n, d') \<Longrightarrow> R d d'"
      "update_where owner_generations_table Q2 f2 d = Inr (n, d') \<Longrightarrow> R d d'"
      "update_where current_executions_table Q3 f3 d = Inr (n, d') \<Longrightarrow> R d d'"
      "update_where executions_table Q4 f4 d = Inr (n, d') \<Longrightarrow> R d d'"
      "update_where attempts_table Q5 f5 d = Inr (n, d') \<Longrightarrow> R d d'"
      "update_where wake_claims_table Q6 f6 d = Inr (n, d') \<Longrightarrow> R d d'"
      "update_where replay_assessments_table Q8 f8 d = Inr (n, d') \<Longrightarrow> R d d'"
    and update_response: "(\<And>r. Q9 r \<Longrightarrow> obl_lifecycle (f9 r) \<in> L) \<Longrightarrow>
      update_where obligations_table Q9 f9 d = Inr (n, d') \<Longrightarrow> R d d'"
    and responses: "PendingR \<in> L" "DeferredR \<in> L" "FailedR \<in> L"
begin

lemma held_now: "within db R (now clock floor)"
  by (simp add: triple_def op_simps refl)

lemma held_reading: "within db R (reading f)"
  by (simp add: triple_def op_simps refl)

lemma held_writing: "within db R m \<Longrightarrow> within db R (writing m)"
  by (simp add: triple_def op_simps)

lemma held_inserts:
  "within db R (insert_into participants_table r1)" "within db R (insert_into owner_generations_table r2)"
  "within db R (insert_into current_executions_table r3)" "within db R (insert_into executions_table r4)"
  "within db R (insert_into attempts_table r5)" "within db R (insert_into wake_claims_table r6)"
  "within db R (insert_into execution_claims_table r7)" "within db R (insert_into replay_assessments_table r8)"
  by (auto simp: triple_def op_simps intro: inserts)

lemma held_insert_pending: "obl_lifecycle r = PendingR \<Longrightarrow> within db R (insert_into obligations_table r)"
  by (auto simp: triple_def op_simps intro: insert_pending)

lemma held_updates:
  "within db R (update_in participants_table Q1 f1)" "within db R (update_in owner_generations_table Q2 f2)"
  "within db R (update_in current_executions_table Q3 f3)" "within db R (update_in executions_table Q4 f4)"
  "within db R (update_in attempts_table Q5 f5)" "within db R (update_in wake_claims_table Q6 f6)"
  "within db R (update_in replay_assessments_table Q8 f8)"
  unfolding triple_def update_in_Inr by (auto dest: updates)

lemma held_update_response:
  "(\<And>r. Q r \<Longrightarrow> obl_lifecycle (f r) \<in> L) \<Longrightarrow> within db R (update_in obligations_table Q f)"
  unfolding triple_def update_in_Inr by (auto dest: update_response [rotated])

lemmas held_rules = within_intros held_now held_reading held_writing held_inserts held_updates

lemma register_held: "within db R (register p c)"
  unfolding register_def register_body_def participant_get_def by (intro held_rules)

lemma commit_held: "within db R (commit_participant p)"
  unfolding commit_participant_def commit_body_def participant_get_def by (intro held_rules)

lemma advance_generation_held: "within db R (advance_generation p n)"
  unfolding advance_generation_def advance_generation_body_def participant_get_def
  by (intro held_rules)

lemma list_case_held:
  "within db R m \<Longrightarrow> (\<And>x xs. within db R (k x xs)) \<Longrightarrow> within db R (case rows of [] \<Rightarrow> m | x # xs \<Rightarrow> k x xs)"
  by (cases rows) simp_all

lemma accept_held: "within db R (accept c)"
  unfolding accept_def by (intro list_case_held held_rules)

lemma transition_held: "within db R (transition_in clock c k n)"
  unfolding transition_in_def claim_get_def Let_def by (intro held_rules)

lemma preengagement_held: "within db R (transition_preengagement clock c k n)"
  unfolding transition_preengagement_def by (intro transition_held held_rules)

lemma restore_held: "within db R (restore_unbound_delivery clock c)"
  unfolding restore_unbound_delivery_def transition_preengagement_def claim_get_def
  by (intro transition_held held_rules)

lemma claim_steps_held: "within db R (claim_steps clock ks c)"
  by (induction ks arbitrary: c) (auto intro: held_rules transition_held)

lemma harness_held: "within db R (settle_harness_inputs clock p sources steps)"
  unfolding settle_harness_inputs_def by (intro claim_steps_held held_rules)

lemma create_in_held: "within db R (create_in mid clock x og p n sources claims)"
  unfolding create_in_def create_rows_def engage_source_def open_obligation_def participant_get_def Let_def
    case_prod_beta
  by (intro held_insert_pending held_rules) simp

lemma create_held: "within db R (create mid clock x og p n sources)"
  unfolding create_def by (intro create_in_held held_rules)

lemma create_after_triage_held: "within db R (create_after_triage mid clock x og p n sources settled)"
  unfolding create_after_triage_def by (intro create_in_held held_rules)

lemma mark_pending_held: "within db R (mark_pending mid clock x n)"
  unfolding mark_pending_def by (intro held_rules)

lemma settle_obligation_held: "response \<in> L \<Longrightarrow> within db R (settle_obligation clock response reason ob)"
  unfolding settle_obligation_def by (intro held_update_response held_rules) simp

lemma settle_claim_held: "within db R (settle_claim clock kind c)"
  unfolding settle_claim_def by (intro held_rules)

lemmas settling_held = settle_obligation_held settle_claim_held

lemma fail_unstarted_held: "within db R (fail_unstarted mid clock x n reason)"
  unfolding fail_unstarted_def Let_def by (intro settling_held responses held_rules)

lemma require_fence_held: "within db R (require_fence mid sha f)"
  unfolding require_fence_def participant_get_def by (intro held_rules)

lemma resume_response_held: "within db R (resume_response clock st ob)"
  by (cases st) (auto intro: settling_held responses held_rules)

lemma start_held: "within db R (start mid sha clock req)"
  unfolding start_def activate_def resume_retry_def participant_get_def Let_def
  by (intro resume_response_held settling_held held_rules)

lemma attempt_advance_held: "within db R (attempt_advance clock a phase finished dead progress reason)"
  unfolding attempt_advance_def by (intro held_rules)

lemma advance_held: "within db R (advance mid sha clock f phase n finished dead progress reason)"
  unfolding advance_def case_prod_beta
  by (intro attempt_advance_held require_fence_held held_rules)

lemma record_replay_held: "within db R (record_replay prior after)"
  unfolding record_replay_def by (intro held_rules)

lemma observe_held: "within db R (observe prior x facts safe effects)"
  unfolding observe_def Let_def by (intro record_replay_held held_rules)

lemma prepare_retry_held: "within db R (prepare_execution_retry failure x)"
proof (cases failure)
  case OtherTurnFailure
  have "within db R (revoke x)"
    unfolding revoke_def for_execution_def Let_def by (intro record_replay_held held_rules)
  with OtherTurnFailure show ?thesis by simp
next
  case RetryableProviderFailure
  have "within db R (authorize_if_unobserved x)"
    unfolding authorize_if_unobserved_def for_execution_def by (intro observe_held held_rules)
  with RetryableProviderFailure show ?thesis by simp
qed

lemma accumulate_held: "within db R (accumulate x facts)"
  unfolding accumulate_def by (intro held_rules)

lemma settle_rows_held:
  "(snap_obligations s \<noteq> [] \<Longrightarrow> response \<in> L) \<Longrightarrow>
   within db R (settle_rows clock s a outcome reason state response)"
  unfolding settle_rows_def Let_def by (intro settling_held held_rules) (metis length_pos_if_in_set length_greater_0_conv)

lemma settle_held:
  assumes "outcome = Succeeded \<Longrightarrow> snap_obligations s \<noteq> [] \<Longrightarrow> SilentR \<in> L"
  shows "within db R (settle clock s outcome reason)"
proof -
  have known: "response \<in> L" if "disposition outcome s a = Inr (state, response)" "snap_obligations s \<noteq> []"
    for a state response
    using that assms responses by (cases outcome) (auto split: if_splits)
  have rows: "within db R (obind (olift (disposition outcome s a))
      (\<lambda>(state, response). settle_rows clock s a outcome reason state response))" for a
    by (rule triple_lift_known) (auto intro: settle_rows_held known)
  show ?thesis unfolding settle_def
    by (intro rows accumulate_held triple_option held_rules)
qed

lemma fail_unknown_held: "within db R (fail_unknown mid sha clock f n)"
  unfolding fail_unknown_def case_prod_beta
  by (intro settle_held attempt_advance_held require_fence_held held_rules) simp

lemma settle_nonpublication_held:
  "(outcome = Succeeded \<Longrightarrow> SilentR \<in> L) \<Longrightarrow>
   within db R (settle_nonpublication mid sha clock f n outcome reason failure)"
  unfolding settle_nonpublication_def case_prod_beta
  by (intro settle_held prepare_retry_held require_fence_held held_rules)

lemma finish_held: "within db R (finish_publications clock s)"
  unfolding finish_publications_def finish_rows_def Let_def by (intro held_rules)

end

subsection \<open>Publishing and all calls\<close>

text \<open>With the two publication tables, every call of the coordinator keeps the relation, a success
  without publication apart where \<open>L\<close> does not allow a silent response.\<close>

locale reply_contract = store_contract R L
  for R :: "coordination \<Rightarrow> coordination \<Rightarrow> bool" and L :: "response_state set" +
  fixes mid :: "message \<Rightarrow> string"
  assumes insert_intent: "insert_row (publication_intents_table mid) i d = Inr d' \<Longrightarrow> R d d'"
    and insert_receipt: "insert_row publication_receipts_table e d = Inr d' \<Longrightarrow> R d d'"
    and replies: "PublishingR \<in> L" "PublishedR m n \<in> L"
begin

lemma held_publications:
  "within db R (insert_into (publication_intents_table mid) i)"
  "within db R (insert_into publication_receipts_table e)"
  by (auto simp: triple_def op_simps intro: insert_intent insert_receipt)

lemma freeze_held: "within db R (freeze_reply mid clock b r s answers)"
  unfolding freeze_reply_def Let_def
  by (intro held_publications held_update_response held_rules) (simp add: replies)

lemma final_owner_held: "within db R (require_final_owner mid sha b w f t)"
  unfolding require_final_owner_def case_prod_beta by (intro require_fence_held held_rules)

lemma prepare_held: "within db R (prepare_fenced_response mid sha clock b w f r)"
  unfolding prepare_fenced_response_def by (intro freeze_held final_owner_held held_rules)

lemma complete_held: "within db R (complete mid clock r s i ob q)"
  unfolding complete_def
  by (intro finish_held held_publications held_update_response held_rules) (simp add: replies)

end

sublocale reply_contract \<subseteq> reply: publication_contract mid R
  by unfold_locales (auto intro: refl trans dest: within_run [OF held_writing [OF complete_held]])

context reply_contract begin

lemma called: "within db R m \<Longrightarrow> R (w_db w) (w_db (on_session (after_call m) w))"
  using within_run [of m "w_session w"]
  by (auto simp: on_session_def after_call_def refl split: sum.splits)

lemmas store_held = register_held commit_held advance_generation_held accept_held preengagement_held
  restore_held held_writing [OF harness_held] create_held create_after_triage_held mark_pending_held
  fail_unstarted_held start_held advance_held fail_unknown_held prepare_held

lemma perform_held:
  assumes "\<And>f n reason failure. c = SettleNonpublication f n Succeeded reason failure \<Longrightarrow> SilentR \<in> L"
  shows "R (w_db w) (w_db (perform mid sha clock c w))"
  using assms
  by (cases c)
    (auto intro: called store_held settle_nonpublication_held reply.response_published
      reply.retained.retained_resolved refl)

end

end
