(* ===== verification/Publication_Invariants.thy ===== *)
theory Publication_Invariants
  imports Store_Contract
begin

text \<open>
  Agreement of the bus with the coordinator: one keyed row per reply at most, every keyed row a
  frozen and dispatched reply, every acknowledgement the sequence number and id of a durable row,
  and a reply whose append was abandoned after its dispatch never sent later.
\<close>

subsection \<open>What leaves publications alone\<close>

definition publications :: "coordination \<Rightarrow> intent list \<times> evidence list" where
  "publications d = (publication_intents d, publication_receipts d)"

abbreviation silent :: "'a coordinated \<Rightarrow> bool" where
  "silent m \<equiv> within db (keeps publications) m"

lemma publications_put [simp]:
  "publications (table_put participants_table f1 d) = publications d"
  "publications (table_put owner_generations_table f2 d) = publications d"
  "publications (table_put current_executions_table f3 d) = publications d"
  "publications (table_put executions_table f4 d) = publications d"
  "publications (table_put attempts_table f5 d) = publications d"
  "publications (table_put wake_claims_table f6 d) = publications d"
  "publications (table_put execution_claims_table f7 d) = publications d"
  "publications (table_put replay_assessments_table f8 d) = publications d"
  "publications (table_put obligations_table f9 d) = publications d"
  by (simp_all add: publications_def table_defs)

interpretation pub: store_contract "keeps publications" UNIV
  by unfold_locales
    (auto simp: keeps_def insert_row_Inr dest!: participants_t.update_where_put
      owner_generations_t.update_where_put current_executions_t.update_where_put
      executions_t.update_where_put attempts_t.update_where_put wake_claims_t.update_where_put
      replay_assessments_t.update_where_put obligations_t.update_where_put)

subsection \<open>The publication protocol\<close>

text \<open>What the two stores hold about replies, and the protocol the code promises: a reply is frozen; a
  dispatch is recorded once per reply, alone or together with the append it authorizes; other
  messages are posted; a row that carries a frozen reply is acknowledged.\<close>

record exchange =
  ex_intents :: "intent list"
  ex_receipts :: "evidence list"
  ex_dispatches :: "dispatch list"
  ex_bus :: "bus_row list"

definition dispatched :: "string \<Rightarrow> string \<Rightarrow> dispatch list \<Rightarrow> bool" where
  "dispatched x t rows \<longleftrightarrow> (\<exists>r \<in> set rows. dis_execution r = x \<and> dis_target r = t)"

definition carries :: "intent \<Rightarrow> bus_row \<Rightarrow> bool" where
  "carries i q \<longleftrightarrow> bus_key q = Some (int_key i) \<and> bus_message q = int_message i"

definition keyed_row :: "intent \<Rightarrow> bus_row list \<Rightarrow> bus_row" where
  "keyed_row i rows = \<lparr>bus_seq = next_seq rows, bus_key = Some (int_key i), bus_message = int_message i\<rparr>"

inductive publishing :: "(message \<Rightarrow> string) \<Rightarrow> exchange \<Rightarrow> exchange \<Rightarrow> bool"
  for mid :: "message \<Rightarrow> string" where
  freeze: "intent_valid mid i = Inr () \<Longrightarrow> publishing mid p (p\<lparr>ex_intents := ex_intents p @ [i]\<rparr>)"
| dispatch: "i \<in> set (ex_intents p) \<Longrightarrow> dis_execution r = int_execution i \<Longrightarrow> dis_target r = int_target i \<Longrightarrow>
    \<not> dispatched (int_execution i) (int_target i) (ex_dispatches p) \<Longrightarrow>
    publishing mid p (p\<lparr>ex_dispatches := ex_dispatches p @ [r]\<rparr>)"
| send: "i \<in> set (ex_intents p) \<Longrightarrow> dis_execution r = int_execution i \<Longrightarrow> dis_target r = int_target i \<Longrightarrow>
    \<not> dispatched (int_execution i) (int_target i) (ex_dispatches p) \<Longrightarrow>
    \<forall>q \<in> set (ex_bus p). bus_key q \<noteq> Some (int_key i) \<Longrightarrow>
    publishing mid p (p\<lparr>ex_dispatches := ex_dispatches p @ [r],
      ex_bus := ex_bus p @ [keyed_row i (ex_bus p)]\<rparr>)"
| post: "publishing mid p (p\<lparr>ex_bus := append_message m (ex_bus p)\<rparr>)"
| acknowledge: "i \<in> set (ex_intents p) \<Longrightarrow> q \<in> set (ex_bus p) \<Longrightarrow> carries i q \<Longrightarrow>
    publishing mid p (p\<lparr>ex_receipts := ex_receipts p @
      [\<lparr>evi_execution = int_execution i, evi_target = int_target i, evi_seq = bus_seq q,
        evi_message_id = mid (bus_message q), evi_received = t\<rparr>]\<rparr>)"

definition exchange_of :: "world \<Rightarrow> exchange" where
  "exchange_of w = \<lparr>ex_intents = publication_intents (w_db w), ex_receipts = publication_receipts (w_db w),
     ex_dispatches = w_dispatches w, ex_bus = w_bus w\<rparr>"

abbreviation protocol :: "(message \<Rightarrow> string) \<Rightarrow> world \<Rightarrow> world \<Rightarrow> bool" where
  "protocol mid w w' \<equiv> (publishing mid)\<^sup>*\<^sup>* (exchange_of w) (exchange_of w')"

subsection \<open>The code follows the protocol\<close>

lemma silent_call: "silent m \<Longrightarrow> exchange_of (on_session (after_call m) w) = exchange_of w"
  using kept_run [of publications m "w_session w"]
  by (auto simp: exchange_of_def on_session_def after_call_def publications_def split: sum.splits)

lemma published_message_Some:
  "published_message i rows = Inr (Some q) \<Longrightarrow> q \<in> set rows \<and> carries i q"
proof -
  assume run: "published_message i rows = Inr (Some q)"
  then obtain rest where "keyed_messages (int_key i) rows = q # rest"
    and "int_message i = bus_message q"
    by (auto simp: published_message_def matches_publication_def split: list.splits)
  moreover from this have "q \<in> set (keyed_messages (int_key i) rows)" by simp
  then have "q \<in> set rows \<and> bus_key q = Some (int_key i)"
    unfolding keyed_messages_def by (auto dest: in_set_takeD)
  ultimately show ?thesis by (simp add: carries_def)
qed

lemma published_message_None:
  "published_message i rows = Inr None \<Longrightarrow> \<forall>q \<in> set rows. bus_key q \<noteq> Some (int_key i)"
  by (auto simp: published_message_def keyed_messages_def filter_empty_conv split: list.splits)

lemma publish_keyed_None:
  assumes "publish_keyed_response accepts i rows = Inr (q, rows')" "published_message i rows = Inr None"
  shows "q = keyed_row i rows \<and> rows' = rows @ [q]"
proof -
  have "filter (\<lambda>q. bus_key q = Some (int_key i)) rows = []"
    using published_message_None [OF assms(2)] by (simp add: filter_empty_conv)
  with assms show ?thesis
    by (auto simp: publish_keyed_response_def append_to_def keyed_row_def)
qed

lemma keyed_row_carries: "carries i (keyed_row i rows)"
  by (simp add: carries_def keyed_row_def)

lemma update_obligations_publications:
  "update_where obligations_table Q f d = Inr (n, d') \<Longrightarrow> publications d' = publications d"
  by (drule obligations_t.update_where_put) simp

lemma complete_publications:
  assumes "complete mid clock r s i ob q s0 = Inr (after, s1)"
  shows "\<exists>t. publications (db s1) = (publication_intents (db s0), publication_receipts (db s0) @
    [\<lparr>evi_execution = int_execution i, evi_target = int_target i, evi_seq = bus_seq q,
      evi_message_id = mid (bus_message q), evi_received = t\<rparr>])"
proof -
  let ?row = "\<lambda>t. \<lparr>evi_execution = int_execution i, evi_target = int_target i, evi_seq = bus_seq q,
    evi_message_id = mid (bus_message q), evi_received = t\<rparr>"
  from assms obtain t d where ins: "insert_row publication_receipts_table (?row t) (db s0) = Inr d"
    and "publications (db s1) = publications d"
    by (auto simp: complete_def op_simps dest!: update_obligations_publications kept_run [OF pub.finish_held])
  then show ?thesis by (auto simp: publications_def insert_row_Inr publication_receipts_table_def)
qed

lemma freeze_publications:
  assumes "freeze_reply mid clock b r s answers s0 = Inr (i, s1)"
  shows "publications (db s1) = (publication_intents (db s0) @ [i], publication_receipts (db s0)) \<and>
    intent_valid mid i = Inr ()"
proof -
  from assms obtain d where ins: "insert_row (publication_intents_table mid) i (db s0) = Inr d"
    and "intent_valid mid i = Inr ()" "publications (db s1) = publications d"
    by (auto simp: freeze_reply_def Let_def op_simps
        dest!: update_obligations_publications)
  then show ?thesis
    by (auto simp: publications_def insert_row_Inr publication_intents_table_def)
qed

lemma exchange_session [simp]:
  "publications (db s) = publications (w_db w) \<Longrightarrow> exchange_of (w\<lparr>w_session := s\<rparr>) = exchange_of w"
  by (simp add: exchange_of_def publications_def)

lemma exchange_acknowledged:
  "publications (db s) = (publication_intents (w_db w), publication_receipts (w_db w) @ [e]) \<Longrightarrow>
   exchange_of (w\<lparr>w_session := s\<rparr>) = (exchange_of w)\<lparr>ex_receipts := ex_receipts (exchange_of w) @ [e]\<rparr>"
  by (simp add: exchange_of_def publications_def)

lemma prepare_protocol:
  "protocol mid w (on_session (after_call (prepare_fenced_response mid sha clock b owner f r)) w)"
proof (cases "prepare_fenced_response mid sha clock b owner f r (w_session w)")
  case (Inr v)
  obtain a s1 where v: "v = (a, s1)" by (cases v)
  from Inr have "s1 = w_session w \<or>
      (\<exists>s answers i. freeze_reply mid clock b r s answers (w_session w) = Inr (i, s1))"
    unfolding v prepare_fenced_response_def
    by (auto simp: op_simps split: option.splits dest!: require_final_owner_Inr)
  then show ?thesis
  proof (elim disjE exE)
    fix s answers i assume "freeze_reply mid clock b r s answers (w_session w) = Inr (i, s1)"
    from freeze_publications [OF this] have "intent_valid mid i = Inr ()"
      "exchange_of (w\<lparr>w_session := s1\<rparr>) = (exchange_of w)\<lparr>ex_intents := ex_intents (exchange_of w) @ [i]\<rparr>"
      by (simp_all add: exchange_of_def publications_def)
    with publishing.freeze show ?thesis
      by (simp add: on_session_def after_call_def Inr v r_into_rtranclp)
  qed (simp add: on_session_def after_call_def Inr v)
qed (simp add: on_session_def after_call_def)

lemma complete_protocol:
  assumes "complete mid clock r s i ob q (w_session w) = Inr (after, s1)"
    "i \<in> set (publication_intents (w_db w))" "q \<in> set (w_bus w)" "carries i q"
  shows "protocol mid w (w\<lparr>w_session := s1\<rparr>)"
proof -
  obtain t where "publications (db s1) = (publication_intents (w_db w), publication_receipts (w_db w) @
    [\<lparr>evi_execution = int_execution i, evi_target = int_target i, evi_seq = bus_seq q,
      evi_message_id = mid (bus_message q), evi_received = t\<rparr>])"
    using complete_publications [OF assms(1)] by blast
  from exchange_acknowledged [OF this] show ?thesis
    using publishing.acknowledge [of i "exchange_of w" q mid t] assms(2-4)
    by (auto simp: exchange_of_def)
qed

lemma settle_matched_protocol:
  assumes "i \<in> set (publication_intents (w_db w))" "q \<in> set (w_bus w)" "carries i q"
  shows "protocol mid w (snd (settle_matched mid clock stop (s, i, ob, r) q w))"
  using complete_protocol [OF _ assms]
  by (auto simp: settle_matched_def op_simps split: sum.splits)

text \<open>A call that did not record the dispatch itself never appends.\<close>

lemma settle_recorded_protocol:
  "protocol mid w (snd (settle_response mid sha clock b owner f t stop False w))"
proof (cases "settle_ready mid sha b owner f t (w_dispatches w) (w_bus w) (w_session w)")
  case (Inr v)
  obtain q s1 where v: "v = (q, s1)" by (cases v)
  show ?thesis
  proof (cases "\<exists>s i ob r row. q = Inr (s, i, ob, r, Some row)")
    case True
    then obtain s i ob r row where q: "q = Inr (s, i, ob, r, Some row)" by blast
    note ready = settle_ready_Inr [OF Inr [unfolded v q]]
    with published_message_Some settle_matched_protocol Inr show ?thesis
      by (simp add: settle_response_def v q)
  qed (use Inr in \<open>auto simp: settle_response_def v split: sum.splits option.splits\<close>)
qed (simp add: settle_response_def)

lemma open_dispatch_rows:
  assumes "open_dispatch mid sha clock b owner f t rows bus s0 = Inr (Inr (first, rows'), s1)"
  shows "(\<not> first \<and> rows' = rows) \<or>
    (first \<and> (\<exists>r i. rows' = rows @ [r] \<and> dis_execution r = fence_execution f \<and> dis_target r = t \<and>
       \<not> dispatched (fence_execution f) t rows \<and> i \<in> set (publication_intents (db s0)) \<and>
       int_execution i = fence_execution f \<and> int_target i = t))"
proof -
  have insert: "\<exists>i. rows' = rows @ [r] \<and> i \<in> set (publication_intents d) \<and>
      int_execution i = dis_execution r \<and> int_target i = dis_target r"
    if "insert_row append_dispatches_table r (d, rows) = Inr (d', rows')" for r d d' rows'
    using that intent_at_iff [of d "dis_execution r" "dis_target r"]
    by (auto simp: insert_row_Inr append_dispatches_table_def simp del: not_None_eq)
  from assms show ?thesis
    by (auto simp: open_dispatch_def dispatch_of_def op_simps dispatched_def split: option.splits
        dest!: terminal_replay_Inr require_final_owner_Inr insert dest: one_row_absent)
qed

lemma settle_first_protocol:
  assumes r: "dis_execution r = fence_execution f" "dis_target r = t"
    and fresh: "\<not> dispatched (fence_execution f) t (w_dispatches w)"
    and frozen: "i0 \<in> set (publication_intents (w_db w))" "int_execution i0 = fence_execution f" "int_target i0 = t"
    and same: "db s1 = w_db w"
  defines "w1 \<equiv> w\<lparr>w_session := s1, w_dispatches := w_dispatches w @ [r]\<rparr>"
  shows "protocol mid w (snd (settle_response mid sha clock b owner f t stop True w1))" (is ?settled)
    and "protocol mid w w1" (is ?recorded)
proof -
  have "publishing mid (exchange_of w) (exchange_of w1)"
    using publishing.dispatch [of i0 "exchange_of w" r mid] assms by (simp add: exchange_of_def)
  then show recorded: ?recorded by blast
  show ?settled
  proof (cases "settle_ready mid sha b owner f t (w_dispatches w1) (w_bus w1) (w_session w1)")
    case (Inr v)
    obtain q s2 where v: "v = (q, s2)" by (cases v)
    show ?thesis
    proof (cases "\<exists>s i ob r' matched. q = Inr (s, i, ob, r', matched)")
      case True
      then obtain s i ob r' matched where q: "q = Inr (s, i, ob, r', matched)" by blast
      note ready = settle_ready_Inr [OF Inr [unfolded v q]]
      have i: "i \<in> set (publication_intents (w_db w))" using ready(4) same by (simp add: w1_def)
      show ?thesis
      proof (cases matched)
        case (Some row)
        with ready published_message_Some [of i "w_bus w1" row]
        have "protocol mid w1 (snd (settle_matched mid clock stop (s, i, ob, r') row w1))"
          by (intro settle_matched_protocol) auto
        with recorded Inr Some show ?thesis
          by (auto simp: settle_response_def v q intro: rtranclp_trans)
      next
        case None
        have sent: "protocol mid w (snd (settle_matched mid clock stop (s, i, ob, r') row (w1\<lparr>w_bus := bus\<rparr>)))"
          if "publish_keyed_response (bd_accepts b) i (w_bus w1) = Inr (row, bus)" for row bus
        proof -
          have none: "published_message i (w_bus w) = Inr None" using ready(10) None by (simp add: w1_def)
          with that publish_keyed_None have row: "row = keyed_row i (w_bus w)" "bus = w_bus w @ [row]"
            by (fastforce simp: w1_def)+
          have "publishing mid (exchange_of w) (exchange_of (w1\<lparr>w_bus := bus\<rparr>))"
            using publishing.send [of i "exchange_of w" r mid] i ready(5,6) r fresh same row
              published_message_None [OF none] by (simp add: exchange_of_def w1_def)
          moreover have "protocol mid (w1\<lparr>w_bus := bus\<rparr>)
              (snd (settle_matched mid clock stop (s, i, ob, r') row (w1\<lparr>w_bus := bus\<rparr>)))"
            by (rule settle_matched_protocol) (use i same row keyed_row_carries in \<open>auto simp: w1_def\<close>)
          ultimately show ?thesis by (rule converse_rtranclp_into_rtranclp)
        qed
        with recorded Inr None show ?thesis
          by (auto simp: settle_response_def append_response_def v q split: sum.splits)
      qed
    qed (use Inr recorded in \<open>auto simp: settle_response_def v split: sum.splits\<close>)
  qed (use recorded in \<open>simp add: settle_response_def\<close>)
qed

lemma publish_protocol: "protocol mid w (snd (publish_fenced_response mid sha clock b owner f t stop w))"
proof (cases "require_live owner f")
  case live: (Inr u)
  show ?thesis
  proof (cases "open_dispatch mid sha clock b owner f t (w_dispatches w) (w_bus w) (w_session w)")
    case (Inr v)
    obtain q s1 where v: "v = (q, s1)" by (cases v)
    have same: "db s1 = w_db w" using open_dispatch_Inr [OF Inr [unfolded v]] by simp
    show ?thesis
    proof (cases q)
      case (Inl s)
      with live Inr same show ?thesis by (simp add: publish_fenced_response_def v)
    next
      case (Inr d)
      obtain first rows where d: "d = (first, rows)" by (cases d)
      note opened = \<open>open_dispatch _ _ _ _ _ _ _ _ _ _ = _\<close> [unfolded v Inr d]
      from open_dispatch_rows [OF opened] show ?thesis
      proof (elim disjE conjE exE)
        assume "\<not> first" "rows = w_dispatches w"
        moreover have "exchange_of (w\<lparr>w_session := s1\<rparr>) = exchange_of w" by (simp add: same)
        ultimately show ?thesis
          using live opened settle_recorded_protocol [of mid "w\<lparr>w_session := s1\<rparr>" sha clock b owner f t stop]
          by (simp add: publish_fenced_response_def Let_def)
      next
        fix r i
        assume first "rows = w_dispatches w @ [r]" "dis_execution r = fence_execution f" "dis_target r = t"
          "\<not> dispatched (fence_execution f) t (w_dispatches w)" "i \<in> set (publication_intents (w_db w))"
          "int_execution i = fence_execution f" "int_target i = t"
        with live opened same settle_first_protocol [of r f t w i s1] show ?thesis
          by (simp add: publish_fenced_response_def Let_def)
      qed
    qed
  qed (use live in \<open>simp add: publish_fenced_response_def\<close>)
qed (simp add: publish_fenced_response_def)

lemma resolve_intent_protocol:
  assumes "resolve_intent mid clock b x t (w_dispatches w) (w_bus w) (w_session w) = Inr (v, s1)"
  shows "protocol mid w (w\<lparr>w_session := s1\<rparr>)"
proof -
  from assms obtain s i ob r q after where "get mid (w_db w) x = Inr s"
    "require_publishing_intent b s t = Inr (i, ob)" "published_message i (w_bus w) = Inr (Some q)"
    "complete mid clock r s i ob q (w_session w) = Inr (after, s1)"
    by (auto simp: resolve_intent_def op_simps split: option.splits)
  then show ?thesis
    using complete_protocol published_message_Some require_publishing_intent_Inr get_intents by metis
qed

interpretation resolving: resolve_contract mid "protocol mid" for mid
  by unfold_locales (auto intro: resolve_intent_protocol)

lemmas store_silent = pub.register_held pub.commit_held pub.advance_generation_held pub.accept_held
  pub.preengagement_held pub.restore_held pub.held_writing [OF pub.harness_held] pub.create_held pub.create_after_triage_held
  pub.mark_pending_held pub.fail_unstarted_held pub.start_held pub.advance_held pub.fail_unknown_held
  pub.settle_nonpublication_held [OF UNIV_I]

lemma perform_protocol: "protocol mid w (perform mid sha clock c w)"
  by (cases c)
    (simp_all add: silent_call store_silent prepare_protocol publish_protocol
      resolving.retained_resolved,
     auto simp: exchange_of_def intro!: r_into_rtranclp publishing.post [where p = "exchange_of w", unfolded exchange_of_def, simplified])

lemma run_from_protocol: "protocol mid w (run_from mid sha clock w calls)"
proof (induction calls arbitrary: w)
  case (Cons c calls)
  show ?case using rtranclp_trans [OF perform_protocol Cons.IH] by simp
qed simp

subsection \<open>What the protocol keeps\<close>

definition publication_key :: "string \<Rightarrow> string \<Rightarrow> string" where
  "publication_key x t = ''publication:v1:'' @ x @ '':'' @ t"

lemma publication_key_inject:
  assumes "CHR '':'' \<notin> set x" "CHR '':'' \<notin> set y" "publication_key x t = publication_key y u"
  shows "x = y \<and> t = u"
proof -
  from assms(3) have eq: "x @ CHR '':'' # t = y @ CHR '':'' # u" by (simp add: publication_key_def)
  have take: "takeWhile (\<lambda>c. c \<noteq> CHR '':'') (z @ CHR '':'' # v) = z" if "CHR '':'' \<notin> set z" for z v
    using that by (induction z) auto
  from arg_cong [OF eq, of "takeWhile (\<lambda>c. c \<noteq> CHR '':'')"] have "x = y" using take assms(1,2) by simp
  with eq show ?thesis by simp
qed

lemma intent_valid_key:
  "intent_valid mid i = Inr () \<Longrightarrow> int_key i = publication_key (int_execution i) (int_target i) \<and>
    CHR '':'' \<notin> set (int_execution i)"
  by (auto simp: intent_valid_def canonical_publication_key_def Let_def publication_key_def
      validate_execution_id_def)

definition carried :: "exchange \<Rightarrow> bus_row \<Rightarrow> bool" where
  "carried p q \<longleftrightarrow> (\<exists>i \<in> set (ex_intents p). carries i q \<and>
     dispatched (int_execution i) (int_target i) (ex_dispatches p))"

definition durable :: "(message \<Rightarrow> string) \<Rightarrow> exchange \<Rightarrow> evidence \<Rightarrow> bool" where
  "durable mid p e \<longleftrightarrow> (\<exists>i \<in> set (ex_intents p). \<exists>q \<in> set (ex_bus p). carries i q \<and>
     int_execution i = evi_execution e \<and> int_target i = evi_target e \<and>
     bus_seq q = evi_seq e \<and> mid (bus_message q) = evi_message_id e)"

definition exchange_sound :: "(message \<Rightarrow> string) \<Rightarrow> exchange \<Rightarrow> bool" where
  "exchange_sound mid p \<longleftrightarrow>
     (\<forall>i \<in> set (ex_intents p). intent_valid mid i = Inr ()) \<and>
     (\<forall>k. length (filter (\<lambda>q. bus_key q = Some k) (ex_bus p)) \<le> 1) \<and>
     (\<forall>q \<in> set (ex_bus p). bus_key q \<noteq> None \<longrightarrow> carried p q) \<and>
     (\<forall>e \<in> set (ex_receipts p). durable mid p e) \<and>
     sorted_wrt (<) (map bus_seq (ex_bus p))"

lemma carried_mono:
  "set (ex_intents p) \<subseteq> set (ex_intents p') \<Longrightarrow> set (ex_dispatches p) \<subseteq> set (ex_dispatches p') \<Longrightarrow>
   carried p q \<Longrightarrow> carried p' q"
  unfolding carried_def dispatched_def by blast

lemma durable_mono:
  "set (ex_intents p) \<subseteq> set (ex_intents p') \<Longrightarrow> set (ex_bus p) \<subseteq> set (ex_bus p') \<Longrightarrow>
   durable mid p e \<Longrightarrow> durable mid p' e"
  unfolding durable_def by blast

lemma publishing_grows:
  "publishing mid p p' \<Longrightarrow> set (ex_intents p) \<subseteq> set (ex_intents p') \<and>
    set (ex_dispatches p) \<subseteq> set (ex_dispatches p') \<and> set (ex_bus p) \<subseteq> set (ex_bus p')"
  by (induction rule: publishing.induct) (auto simp: append_message_def)

lemma next_seq_above: "q \<in> set rows \<Longrightarrow> bus_seq q < next_seq rows"
proof -
  have "q \<in> set rows \<Longrightarrow> bus_seq q \<le> foldr max (map bus_seq rows) 0" by (induction rows) auto
  then show "q \<in> set rows \<Longrightarrow> bus_seq q < next_seq rows" by (simp add: next_seq_def)
qed

lemma dispatched_append: "dispatched x t rows \<Longrightarrow> dispatched x t (rows @ more_rows)"
  by (auto simp: dispatched_def)

lemma publishing_sound:
  assumes "publishing mid p p'" "exchange_sound mid p"
  shows "exchange_sound mid p'"
proof -
  note old = assms(2) [unfolded exchange_sound_def]
  have carried: "carried p' q" if "carried p q" for q
    using carried_mono publishing_grows [OF assms(1)] that by blast
  have durable: "durable mid p' e" if "durable mid p e" for e
    using durable_mono publishing_grows [OF assms(1)] that by blast
  from assms(1) show ?thesis
  proof cases
    case (freeze i)
    with old carried durable show ?thesis by (simp add: exchange_sound_def)
  next
    case (dispatch i r)
    with old carried durable show ?thesis by (simp add: exchange_sound_def)
  next
    case (send i r)
    have "filter (\<lambda>q. bus_key q = Some (int_key i)) (ex_bus p) = []"
      using send(6) by (simp add: filter_empty_conv)
    moreover have "carried p' (keyed_row i (ex_bus p))"
      using send(1-4) keyed_row_carries by (auto simp: carried_def dispatched_def)
    ultimately show ?thesis
      using old carried durable send(1) next_seq_above
      by (auto simp: exchange_sound_def sorted_wrt_append keyed_row_def)
  next
    case (post m)
    with old carried durable next_seq_above show ?thesis
      by (auto simp: exchange_sound_def append_message_def sorted_wrt_append)
  next
    case (acknowledge i q t)
    then have "durable mid p' \<lparr>evi_execution = int_execution i, evi_target = int_target i,
      evi_seq = bus_seq q, evi_message_id = mid (bus_message q), evi_received = t\<rparr>"
      by (auto simp: durable_def)
    with old carried durable acknowledge(1) show ?thesis by (simp add: exchange_sound_def)
  qed
qed

definition abandoned :: "string \<Rightarrow> string \<Rightarrow> exchange \<Rightarrow> bool" where
  "abandoned x t p \<longleftrightarrow> dispatched x t (ex_dispatches p) \<and>
     (\<forall>q \<in> set (ex_bus p). bus_key q \<noteq> Some (publication_key x t))"

lemma publishing_abandoned:
  assumes "publishing mid p p'" "exchange_sound mid p" "abandoned x t p" "CHR '':'' \<notin> set x"
  shows "abandoned x t p'"
  using assms(1)
proof cases
  case (send i r)
  have "intent_valid mid i = Inr ()" using send(2) assms(2) by (simp add: exchange_sound_def)
  then have key: "int_key i = publication_key (int_execution i) (int_target i)" "CHR '':'' \<notin> set (int_execution i)"
    using intent_valid_key by auto
  have "int_key i \<noteq> publication_key x t"
  proof
    assume "int_key i = publication_key x t"
    then have "publication_key (int_execution i) (int_target i) = publication_key x t" by (simp only: key(1))
    from publication_key_inject [OF key(2) assms(4) this] have "int_execution i = x" "int_target i = t" by auto
    with send(5) assms(3) show False by (simp add: abandoned_def)
  qed
  with send assms(3) show ?thesis by (auto simp: abandoned_def keyed_row_def dispatched_append)
qed (use assms(3) in \<open>auto simp: abandoned_def append_message_def dispatched_append\<close>)

lemma exchange_sound_empty: "exchange_sound mid (exchange_of empty_world)"
  by (simp add: exchange_sound_def exchange_of_def empty_world_def empty_coordination_def)

lemma protocol_sound: "(publishing mid)\<^sup>*\<^sup>* p p' \<Longrightarrow> exchange_sound mid p \<Longrightarrow> exchange_sound mid p'"
  by (induction rule: rtranclp_induct) (auto intro: publishing_sound)

lemma protocol_abandoned:
  assumes "(publishing mid)\<^sup>*\<^sup>* p p'" "exchange_sound mid p" "abandoned x t p" "CHR '':'' \<notin> set x"
  shows "abandoned x t p'"
  using assms(1)
proof (induction rule: rtranclp_induct)
  case (step p1 p2)
  then show ?case using publishing_abandoned protocol_sound [OF step.hyps(1)] assms(2,4) by blast
qed (rule assms(3))

lemma run_exchange_sound: "exchange_sound mid (exchange_of (run mid sha clock calls))"
  unfolding run_def by (rule protocol_sound [OF run_from_protocol exchange_sound_empty])

end
