(* ===== verification/Example_Runs.thy ===== *)
theory Example_Runs
  imports Publication_Invariants
begin

text \<open>
  Concrete runs of the coordinator, evaluated once: an owner accepts a direct message, creates and
  starts a wire execution, its first attempt fails on a retryable provider failure, the owner moves
  to the next generation and the second attempt starts; the same execution failed after an unknown
  outcome; an execution without claims that completes; and a wire execution whose reply is frozen,
  dispatched and published, once undisturbed and once by a process that dies between the bus and the
  acknowledgement, after which the retained reply is resolved.
\<close>

definition example_mid :: "message \<Rightarrow> string" where
  "example_mid m = msg_body m"

definition example_sha :: "string \<Rightarrow> string" where
  "example_sha t = ''h'' @ t"

definition example_clock :: "nat \<Rightarrow> int" where
  "example_clock n = 1000 + int n"

definition example_claim :: assignment where
  "example_claim = \<lparr>asg_id = ''c1'', asg_recipient = ''alice'', asg_recipient_lookup = ''al'',
     asg_wire_seq = 5, asg_message_id = ''m5'', asg_audience = DIRECT, asg_lifecycle = FullPendingA,
     asg_accepted = 10, asg_updated = 10, asg_revision = 1, asg_resolver = ''resolver-v1'',
     asg_policy = ''policy-v1''\<rparr>"

definition example_source :: selected_source where
  "example_source = \<lparr>src_assignment_id = ''c1'', src_elsewhere = None,
     src_delivery = \<lparr>del_reference = (5, ''m5''), del_reply_target = ''bob'',
       del_recipients = [(''al'', ''alice'')], del_decisions = [WakeDecision ''al'' DIRECT FullWake]\<rparr>\<rparr>"

definition example_start :: attempt_start where
  "example_start = \<lparr>start_execution = ''x1'', start_ordinal = 1, start_owner = ''al'',
     start_generation = 1, start_token = ''tok'', start_execution_revision = 2,
     start_pointer_revision = 0\<rparr>"

definition example_retry :: attempt_start where
  "example_retry = \<lparr>start_execution = ''x1'', start_ordinal = 2, start_owner = ''al'',
     start_generation = 2, start_token = ''tok2'', start_execution_revision = 4,
     start_pointer_revision = 2\<rparr>"

definition example_fence :: "int \<Rightarrow> owner_fence" where
  "example_fence revision = \<lparr>fence_execution = ''x1'', fence_ordinal = 1, fence_owner = ''al'',
     fence_generation = 1, fence_revision = revision, fence_token = ''tok''\<rparr>"

definition started_calls :: "call list" where
  "started_calls = [Register ''al'' True, Accept example_claim,
     Create ''x1'' WireOrigin ''al'' 3 [example_source], MarkPending ''x1'' 1, Start example_start]"

definition retried_calls :: "call list" where
  "retried_calls = [Advance (example_fence 1) (LivePhase PromptStarting) 1 True True False None,
     SettleNonpublication (example_fence 2) 1 AttemptFailed (Some ''down'') (Some RetryableProviderFailure),
     AdvanceGeneration ''al'' 1, Start example_retry]"

definition example_bound :: engagement where
  "example_bound = \<lparr>eng_kind = FullEngagement, eng_execution_id = ''x1'', eng_exact_target = ''bob''\<rparr>"

definition started_session :: session where
  "started_session = \<lparr>db = \<lparr>
     participants = [\<lparr>participant_lookup = ''al'', committed = True\<rparr>],
     owner_generations = [\<lparr>gen_owner = ''al'', generation = 1\<rparr>],
     current_executions = [\<lparr>ptr_owner = ''al'', ptr_execution = Some ''x1'', ptr_attempt = Some 1, ptr_revision = 1\<rparr>],
     executions = [\<lparr>exec_id = ''x1'', exec_origin = WireOrigin, exec_lifecycle = ActiveE 1,
       exec_owner = ''al'', exec_revision = 3, exec_max_attempts = 3, exec_reason = None,
       exec_created = 1000, exec_updated = 1003\<rparr>],
     attempts = [\<lparr>att_execution = ''x1'', att_ordinal = 1, att_owner = ''al'', att_generation = 1,
       att_digest = ''htok'', att_lifecycle = Live PromptStarting 61003 False False, att_revision = 1,
       att_progress = None, att_reason = None, att_created = 1003, att_updated = 1003\<rparr>],
     wake_claims = [example_claim\<lparr>asg_lifecycle := EngagedA example_bound, asg_updated := 1001, asg_revision := 2\<rparr>],
     execution_claims = [\<lparr>link_execution = ''x1'', link_assignment = ''c1'', link_ordinal = 0\<rparr>],
     replay_assessments = [],
     obligations = [\<lparr>obl_execution = ''x1'', obl_target = ''bob'', obl_lifecycle = PendingR,
       obl_reason = None, obl_created = 1000, obl_updated = 1000, obl_revision = 1\<rparr>],
     publication_intents = [], publication_receipts = [], recovery_audits = []\<rparr>, ticks = 4\<rparr>"

definition pending_session :: session where
  "pending_session = \<lparr>db = (db started_session)\<lparr>
     current_executions := [\<lparr>ptr_owner = ''al'', ptr_execution = None, ptr_attempt = None, ptr_revision = 0\<rparr>],
     executions := [\<lparr>exec_id = ''x1'', exec_origin = WireOrigin, exec_lifecycle = PendingE,
       exec_owner = ''al'', exec_revision = 2, exec_max_attempts = 3, exec_reason = None,
       exec_created = 1000, exec_updated = 1002\<rparr>],
     attempts := []\<rparr>, ticks = 3\<rparr>"

definition retried_session :: session where
  "retried_session = \<lparr>db = \<lparr>
     participants = [\<lparr>participant_lookup = ''al'', committed = True\<rparr>],
     owner_generations = [\<lparr>gen_owner = ''al'', generation = 2\<rparr>],
     current_executions = [\<lparr>ptr_owner = ''al'', ptr_execution = Some ''x1'', ptr_attempt = Some 2, ptr_revision = 3\<rparr>],
     executions = [\<lparr>exec_id = ''x1'', exec_origin = WireOrigin, exec_lifecycle = ActiveE 2,
       exec_owner = ''al'', exec_revision = 5, exec_max_attempts = 3, exec_reason = None,
       exec_created = 1000, exec_updated = 1008\<rparr>],
     attempts = [\<lparr>att_execution = ''x1'', att_ordinal = 1, att_owner = ''al'', att_generation = 1,
         att_digest = ''htok'', att_lifecycle = Ended AttemptFailed, att_revision = 3,
         att_progress = None, att_reason = Some ''down'', att_created = 1003, att_updated = 1005\<rparr>,
       \<lparr>att_execution = ''x1'', att_ordinal = 2, att_owner = ''al'', att_generation = 2,
         att_digest = ''htok2'', att_lifecycle = Live PromptStarting 61008 False False, att_revision = 1,
         att_progress = None, att_reason = None, att_created = 1008, att_updated = 1008\<rparr>],
     wake_claims = [example_claim\<lparr>asg_lifecycle := EngagedA example_bound, asg_updated := 1010, asg_revision := 4\<rparr>],
     execution_claims = [\<lparr>link_execution = ''x1'', link_assignment = ''c1'', link_ordinal = 0\<rparr>],
     replay_assessments = [\<lparr>rep_execution = ''x1'', rep_facts = 0, rep_safe = True, rep_effects = False, rep_revision = 1\<rparr>],
     obligations = [\<lparr>obl_execution = ''x1'', obl_target = ''bob'', obl_lifecycle = PendingR,
       obl_reason = None, obl_created = 1000, obl_updated = 1009, obl_revision = 3\<rparr>],
     publication_intents = [], publication_receipts = [], recovery_audits = []\<rparr>, ticks = 11\<rparr>"

definition completed_calls :: "call list" where
  "completed_calls = [Register ''al'' True, Create ''x1'' AcpOrigin ''al'' 3 [], MarkPending ''x1'' 1,
     Start example_start,
     Advance (example_fence 1) (LivePhase PromptAccepted) 1 False False True None,
     Advance (example_fence 2) (LivePhase ModelRunning) 1 False False True None,
     Advance (example_fence 3) (LivePhase Settling) 1 True True False None,
     SettleNonpublication (example_fence 4) 1 Succeeded None None]"

definition completed_session :: session where
  "completed_session = \<lparr>db = \<lparr>
     participants = [\<lparr>participant_lookup = ''al'', committed = True\<rparr>],
     owner_generations = [\<lparr>gen_owner = ''al'', generation = 1\<rparr>],
     current_executions = [\<lparr>ptr_owner = ''al'', ptr_execution = None, ptr_attempt = None, ptr_revision = 2\<rparr>],
     executions = [\<lparr>exec_id = ''x1'', exec_origin = AcpOrigin, exec_lifecycle = CompletedE 1,
       exec_owner = ''al'', exec_revision = 4, exec_max_attempts = 3, exec_reason = None,
       exec_created = 1000, exec_updated = 1006\<rparr>],
     attempts = [\<lparr>att_execution = ''x1'', att_ordinal = 1, att_owner = ''al'', att_generation = 1,
       att_digest = ''htok'', att_lifecycle = Ended Succeeded, att_revision = 5,
       att_progress = Some 1004, att_reason = None, att_created = 1002, att_updated = 1006\<rparr>],
     wake_claims = [], execution_claims = [], replay_assessments = [], obligations = [],
     publication_intents = [], publication_receipts = [], recovery_audits = []\<rparr>, ticks = 7\<rparr>"

definition failed_session :: session where
  "failed_session = \<lparr>db = \<lparr>
     participants = [\<lparr>participant_lookup = ''al'', committed = True\<rparr>],
     owner_generations = [\<lparr>gen_owner = ''al'', generation = 1\<rparr>],
     current_executions = [\<lparr>ptr_owner = ''al'', ptr_execution = None, ptr_attempt = None, ptr_revision = 2\<rparr>],
     executions = [\<lparr>exec_id = ''x1'', exec_origin = WireOrigin, exec_lifecycle = FailedE (Some 1),
       exec_owner = ''al'', exec_revision = 4, exec_max_attempts = 3, exec_reason = Some ''native_unknown'',
       exec_created = 1000, exec_updated = 1005\<rparr>],
     attempts = [\<lparr>att_execution = ''x1'', att_ordinal = 1, att_owner = ''al'', att_generation = 1,
       att_digest = ''htok'', att_lifecycle = Ended UnknownOutcome, att_revision = 3,
       att_progress = None, att_reason = Some ''native_unknown'', att_created = 1003, att_updated = 1005\<rparr>],
     wake_claims = [example_claim\<lparr>asg_lifecycle := FailedA (BoundDecision example_bound),
       asg_updated := 1007, asg_revision := 3\<rparr>],
     execution_claims = [\<lparr>link_execution = ''x1'', link_assignment = ''c1'', link_ordinal = 0\<rparr>],
     replay_assessments = [\<lparr>rep_execution = ''x1'', rep_facts = 512, rep_safe = False, rep_effects = True, rep_revision = 1\<rparr>],
     obligations = [\<lparr>obl_execution = ''x1'', obl_target = ''bob'', obl_lifecycle = FailedR,
       obl_reason = Some ''native_unknown'', obl_created = 1000, obl_updated = 1006, obl_revision = 2\<rparr>],
     publication_intents = [], publication_receipts = [], recovery_audits = []\<rparr>, ticks = 8\<rparr>"

text \<open>The boundary of the published run: the bus's original of the claim and its sealed route.\<close>

definition example_original :: original where
  "example_original = \<lparr>del_reference = (5, ''m5''), del_reply_target = ''bob'',
     del_recipients = [(''al'', ''alice'')], del_decisions = [WakeDecision ''al'' DIRECT FullWake],
     org_target = ''alice'', org_envelope = ''env5'', org_audience = ''aud5'', org_decisions = ''dec5''\<rparr>"

definition example_boundary :: boundary where
  "example_boundary = \<lparr>bd_root = ''root'',
     bd_original = (\<lambda>n. if n = 5 then Some example_original else None),
     bd_routes = (\<lambda>c. if c = ''c1'' then [route_source example_original example_claim] else []),
     bd_name = (\<lambda>p. ''alice''), bd_lookup = (\<lambda>name. if name = ''alice'' then Some ''al'' else None),
     bd_accepts = (\<lambda>_. Inr ())\<rparr>"

definition example_owner :: live_owner where
  "example_owner = \<lparr>own_lookup = ''al'', own_actual = Some ''al''\<rparr>"

definition example_reply :: reply where
  "example_reply = \<lparr>reply_payload = ''pong'', reply_target = ''bob'', reply_content = ''text'',
     reply_stamp = None, reply_wall = 2000, reply_following = []\<rparr>"

definition prepared_calls :: "call list" where
  "prepared_calls = [Advance (example_fence 1) (LivePhase PromptAccepted) 1 False False True None,
     Advance (example_fence 2) (LivePhase ModelRunning) 1 False False True None,
     Advance (example_fence 3) (LivePhase Settling) 1 True True False None,
     Prepare example_boundary example_owner (example_fence 4) example_reply]"

definition example_message :: message where
  "example_message = \<lparr>msg_sender = ''alice'', msg_target = ''bob'', msg_body = ''pong'', msg_timestamp = 2000,
     msg_answers = [(5, ''m5'')], msg_content = ''text''\<rparr>"

definition example_intent :: intent where
  "example_intent = \<lparr>int_execution = ''x1'', int_target = ''bob'', int_message = example_message,
     int_key = ''publication:v1:x1:bob'', int_expected = ''pong''\<rparr>"

definition prepared_session :: session where
  "prepared_session = started_session\<lparr>db := (db started_session)\<lparr>
     attempts := [\<lparr>att_execution = ''x1'', att_ordinal = 1, att_owner = ''al'', att_generation = 1,
       att_digest = ''htok'', att_lifecycle = Live Settling 61003 True True, att_revision = 4,
       att_progress = Some 1005, att_reason = None, att_created = 1003, att_updated = 1006\<rparr>],
     obligations := [\<lparr>obl_execution = ''x1'', obl_target = ''bob'', obl_lifecycle = PublishingR,
       obl_reason = None, obl_created = 1000, obl_updated = 1007, obl_revision = 2\<rparr>],
     publication_intents := [example_intent]\<rparr>, ticks := 8\<rparr>"

definition published_session :: session where
  "published_session = \<lparr>db = (db prepared_session)\<lparr>
     current_executions := [\<lparr>ptr_owner = ''al'', ptr_execution = None, ptr_attempt = None, ptr_revision = 2\<rparr>],
     executions := [\<lparr>exec_id = ''x1'', exec_origin = WireOrigin, exec_lifecycle = CompletedE 1,
       exec_owner = ''al'', exec_revision = 4, exec_max_attempts = 3, exec_reason = None,
       exec_created = 1000, exec_updated = 1012\<rparr>],
     attempts := [\<lparr>att_execution = ''x1'', att_ordinal = 1, att_owner = ''al'', att_generation = 1,
       att_digest = ''htok'', att_lifecycle = Ended Succeeded, att_revision = 5,
       att_progress = Some 1005, att_reason = None, att_created = 1003, att_updated = 1011\<rparr>],
     wake_claims := [example_claim\<lparr>asg_lifecycle := CompletedA example_bound, asg_updated := 1013,
       asg_revision := 3\<rparr>],
     obligations := [\<lparr>obl_execution = ''x1'', obl_target = ''bob'', obl_lifecycle = PublishedR ''pong'' 1,
       obl_reason = None, obl_created = 1000, obl_updated = 1010, obl_revision = 3\<rparr>],
     publication_receipts := [\<lparr>evi_execution = ''x1'', evi_target = ''bob'', evi_seq = 1,
       evi_message_id = ''pong'', evi_received = 1009\<rparr>]\<rparr>, ticks = 14\<rparr>"

definition example_dispatch :: dispatch where
  "example_dispatch = \<lparr>dis_execution = ''x1'', dis_target = ''bob'', dis_root = ''root'',
     dis_generation = 1, dis_ordinal = 1, dis_at = 1008\<rparr>"

definition example_row :: bus_row where
  "example_row = \<lparr>bus_seq = 1, bus_key = Some ''publication:v1:x1:bob'', bus_message = example_message\<rparr>"

definition published_world :: world where
  "published_world = \<lparr>w_session = published_session, w_dispatches = [example_dispatch], w_bus = [example_row]\<rparr>"

text \<open>The process dies after its dispatch is durable, before or after the append.\<close>

definition abandoned_world :: world where
  "abandoned_world = \<lparr>w_session = prepared_session\<lparr>ticks := 9\<rparr>, w_dispatches = [example_dispatch], w_bus = []\<rparr>"

definition unacknowledged_world :: world where
  "unacknowledged_world = abandoned_world\<lparr>w_bus := [example_row]\<rparr>"

abbreviation example_run :: "call list \<Rightarrow> world" where
  "example_run calls \<equiv> run example_mid example_sha example_clock calls"

abbreviation example_from :: "world \<Rightarrow> call list \<Rightarrow> world" where
  "example_from w calls \<equiv> run_from example_mid example_sha example_clock w calls"

abbreviation unpublished :: "session \<Rightarrow> world" where
  "unpublished s \<equiv> \<lparr>w_session = s, w_dispatches = [], w_bus = []\<rparr>"

abbreviation example_publish :: "stop \<Rightarrow> call" where
  "example_publish stop \<equiv> Publish example_boundary example_owner (example_fence 4) ''bob'' stop"

definition published_calls :: "call list" where
  "published_calls = (started_calls @ prepared_calls) @ [example_publish NoStop]"

definition abandoned_calls :: "call list" where
  "abandoned_calls = (started_calls @ prepared_calls) @ [example_publish StopAfterDispatch]"

definition unacknowledged_calls :: "call list" where
  "unacknowledged_calls = (started_calls @ prepared_calls) @ [example_publish StopAfterAppend]"

lemma started_run: "example_run started_calls = unpublished started_session"
  by code_simp

lemma retried_from: "example_from (unpublished started_session) retried_calls = unpublished retried_session"
  by code_simp

lemma retried_run: "example_run (started_calls @ retried_calls) = unpublished retried_session"
  by (simp add: run_append started_run retried_from)

lemma completed_run: "example_run completed_calls = unpublished completed_session"
  by code_simp

lemma failed_from:
  "example_from (unpublished started_session) [FailUnknown (example_fence 1) 1] = unpublished failed_session"
  by code_simp

lemma failed_run: "example_run (started_calls @ [FailUnknown (example_fence 1) 1]) = unpublished failed_session"
  by (simp only: run_append started_run failed_from)

lemma prepared_from: "example_from (unpublished started_session) prepared_calls = unpublished prepared_session"
  by code_simp

lemma prepared_run: "example_run (started_calls @ prepared_calls) = unpublished prepared_session"
  by (simp only: run_append started_run prepared_from)

lemma published_from: "example_from (unpublished prepared_session) [example_publish NoStop] = published_world"
  by code_simp

lemma published_run: "example_run published_calls = published_world"
  by (simp only: published_calls_def run_append started_run prepared_from published_from)

lemma abandoned_from:
  "example_from (unpublished prepared_session) [example_publish StopAfterDispatch] = abandoned_world"
  by code_simp

lemma abandoned_run: "example_run abandoned_calls = abandoned_world"
  by (simp only: abandoned_calls_def run_append started_run prepared_from abandoned_from)

lemma unacknowledged_from:
  "example_from (unpublished prepared_session) [example_publish StopAfterAppend] = unacknowledged_world"
  by code_simp

lemma unacknowledged_run: "example_run unacknowledged_calls = unacknowledged_world"
  by (simp only: unacknowledged_calls_def run_append started_run prepared_from unacknowledged_from)

lemma not_isl: "\<not> isl x \<Longrightarrow> \<exists>a. x = Inr a"
  by (cases x) auto

text \<open>A digest that does not tell tokens apart: two fences that differ in their token are both accepted.\<close>

definition flat_sha :: "string \<Rightarrow> string" where
  "flat_sha t = ''h''"

definition other_fence :: owner_fence where
  "other_fence = (example_fence 1)\<lparr>fence_token := ''alt''\<rparr>"

lemma flat_fences:
  "\<not> isl (require_fence example_mid flat_sha (example_fence 1) (w_session (run example_mid flat_sha example_clock started_calls)))"
  "\<not> isl (require_fence example_mid flat_sha other_fence (w_session (run example_mid flat_sha example_clock started_calls)))"
  by code_simp+

text \<open>An attempt whose backend is done and whose process is dead, ready to be settled by its fence.\<close>

definition settling_calls :: "call list" where
  "settling_calls = started_calls @ take 3 prepared_calls"

lemma settling_fence:
  "\<not> isl (require_fence example_mid example_sha (example_fence 4) (w_session (example_run settling_calls)))"
  "list_ex (\<lambda>ob. obl_execution ob = ''x1'') (obligations (w_db (example_run settling_calls)))"
  by code_simp+

subsection \<open>Single operations\<close>

lemma pending_start:
  "case start example_mid example_sha example_clock example_start pending_session of
     Inr (Applied r, s1) \<Rightarrow> s1 = started_session | _ \<Rightarrow> False"
  by code_simp

lemma started_advance:
  "case advance example_mid example_sha example_clock (example_fence 1) (LivePhase PromptStarting) 1 True True False None
       started_session of
     Inr (Applied r, s1) \<Rightarrow>
       (case settle_nonpublication example_mid example_sha example_clock (example_fence 2) 1 AttemptFailed (Some ''down'')
            (Some RetryableProviderFailure) s1 of Inr (p, s2) \<Rightarrow> True | Inl _ \<Rightarrow> False)
   | _ \<Rightarrow> False"
  by code_simp

lemma start_example:
  obtains r where "start example_mid example_sha example_clock example_start pending_session =
    Inr (Applied r, started_session)"
  using pending_start by (auto split: sum.splits prod.splits applied.splits)

lemma advance_example:
  obtains r s1 p s2 where
    "advance example_mid example_sha example_clock (example_fence 1) (LivePhase PromptStarting) 1 True True False None
       started_session = Inr (Applied r, s1)"
    "settle_nonpublication example_mid example_sha example_clock (example_fence 2) 1 AttemptFailed (Some ''down'')
       (Some RetryableProviderFailure) s1 = Inr (p, s2)"
proof -
  let ?advanced = "advance example_mid example_sha example_clock (example_fence 1) (LivePhase PromptStarting) 1
    True True False None started_session"
  let ?settled = "\<lambda>s1. settle_nonpublication example_mid example_sha example_clock (example_fence 2) 1 AttemptFailed
    (Some ''down'') (Some RetryableProviderFailure) s1"
  obtain r s1 where advanced: "?advanced = Inr (Applied r, s1)" and "\<nexists>e. ?settled s1 = Inl e"
    using started_advance by (cases ?advanced) (auto split: prod.splits applied.splits sum.splits)
  then obtain p s2 where "?settled s1 = Inr (p, s2)" by (cases "?settled s1") auto
  with advanced that show thesis by blast
qed

end
