(* ===== verification/Settlement_Results.thy ===== *)
theory Settlement_Results
  imports Publication_Invariants
begin

text \<open>
  What the settling operations do beyond the statements they issue: a success without a publication
  is only ever recorded for an execution that owes no response, so no obligation of a run is ever
  settled silently and every obligation of a completed execution was published.
\<close>

subsection \<open>A silent success owes nothing\<close>

lemma statements_sound: "(statement mid)\<^sup>*\<^sup>* d d' \<Longrightarrow> coordinator_sound mid d \<Longrightarrow> coordinator_sound mid d'"
  by (induction rule: rtranclp_induct) (auto intro: coordinator_sound_step)

lemma get_obligations_rows: "get mid d x = Inr s \<Longrightarrow> set (snap_obligations s) = set (obligations_of d x)"
  by (auto simp: get_def Let_def)

lemma obligations_put [simp]:
  "obligations (table_put participants_table f1 d) = obligations d"
  "obligations (table_put owner_generations_table f2 d) = obligations d"
  "obligations (table_put current_executions_table f3 d) = obligations d"
  "obligations (table_put executions_table f4 d) = obligations d"
  "obligations (table_put attempts_table f5 d) = obligations d"
  "obligations (table_put wake_claims_table f6 d) = obligations d"
  "obligations (table_put execution_claims_table f7 d) = obligations d"
  "obligations (table_put replay_assessments_table f8 d) = obligations d"
  "obligations (table_put (publication_intents_table mid) f9 d) = obligations d"
  "obligations (table_put publication_receipts_table f10 d) = obligations d"
  by (simp_all add: table_defs)

text \<open>What stands in the database when the execution row was written as completed.\<close>

lemma settle_rows_Inr:
  assumes "settle_rows clock s a outcome reason state response s0 = Inr (u, s1)"
  obtains t sa sb sc sd se i j k u1 u2 where
    "now clock (max (exec_updated (snap_execution s)) (att_updated a)) s0 = Inr (t, sa)"
    "update_in attempts_table (\<lambda>r. att_execution r = exec_id (snap_execution s) \<and> att_ordinal r = att_ordinal a)
       (\<lambda>r. r\<lparr>att_lifecycle := Ended outcome, att_revision := att_revision a + 1, att_updated := t,
             att_reason := reason\<rparr>) sa = Inr (i, sb)"
    "update_in executions_table (\<lambda>r. exec_id r = exec_id (snap_execution s))
       (\<lambda>r. r\<lparr>exec_lifecycle := state, exec_revision := exec_revision (snap_execution s) + 1,
             exec_updated := t, exec_reason := reason\<rparr>) sb = Inr (j, sc)"
    "oforeach (snap_obligations s) (settle_obligation clock response reason) sc = Inr (u1, sd)"
    "oforeach (snap_assignments s) (settle_claim clock (execution_assignment_state (execution_kind_of state))) sd = Inr (u2, se)"
    "update_in current_executions_table (\<lambda>r. ptr_owner r = exec_owner (snap_execution s))
       (\<lambda>r. r\<lparr>ptr_execution := None, ptr_attempt := None, ptr_revision := snap_pointer_revision s + 1\<rparr>) se = Inr (k, s1)"
  using assms unfolding settle_rows_def Let_def obind_Inr othen_Inr oreturn_Inr
  by (elim exE conjE) (rule that, assumption+, simp)

lemma settle_rows_completed:
  assumes "settle_rows clock s a outcome reason (CompletedE n) response s0 = Inr (u, s1)"
    "coordinator_sound mid (db s0)" "x = exec_id (snap_execution s)"
    "e \<in> set (executions (db s0))" "exec_id e = x"
    "open_at x (exec_revision (snap_execution s)) (executions (db s0))"
  shows "\<forall>ob \<in> set (obligations (db s0)). obl_execution ob = x \<longrightarrow> success_terminal (obl_state ob)"
proof -
  obtain t sa sb sc i j where run: "now clock (max (exec_updated (snap_execution s)) (att_updated a)) s0 = Inr (t, sa)"
    "update_in attempts_table (\<lambda>r. att_execution r = x \<and> att_ordinal r = att_ordinal a)
       (\<lambda>r. r\<lparr>att_lifecycle := Ended outcome, att_revision := att_revision a + 1, att_updated := t,
             att_reason := reason\<rparr>) sa = Inr (i, sb)"
    "update_in executions_table (\<lambda>r. exec_id r = x)
       (\<lambda>r. r\<lparr>exec_lifecycle := CompletedE n, exec_revision := exec_revision (snap_execution s) + 1,
             exec_updated := t, exec_reason := reason\<rparr>) sb = Inr (j, sc)"
    unfolding assms(3) by (rule settle_rows_Inr [OF assms(1)])
  have db: "db sa = db s0" using run(1) by (auto simp: op_simps)
  have first: "(statement mid)\<^sup>*\<^sup>* (db s0) (db sb)"
    using steps.within_run [OF ran_update_attempt run(2)] unfolding db .
  have "executions (db sb) = executions (db sa)"
    by (rule kept_run [OF kept_update [OF attempts_t.stored_table_axioms] run(2)]) (simp add: attempts_table_def)
  with assms(6) db have "open_at x (exec_revision (snap_execution s)) (executions (db sb))" by simp
  note second = stepped_update_execution [of x "\<lambda>e. exec_lifecycle e = CompletedE n", unfolded triple_def,
      rule_format, OF _ _ this run(3)]
  have "(statement mid)\<^sup>*\<^sup>* (db sb) (db sc)"
    and all: "\<forall>e \<in> set (executions (db sc)). exec_id e = x \<longrightarrow> exec_lifecycle e = CompletedE n"
    using second by simp_all
  with first have ran: "(statement mid)\<^sup>*\<^sup>* (db s0) (db sc)" by (rule_tac rtranclp_trans)
  have same: "obligations (db sc) = obligations (db s0)"
    using run(2,3) db by (auto simp: op_simps dest!: attempts_t.update_where_put executions_t.update_where_put)
  from statements_history [OF ran] assms(4,5) obtain e' where "e' \<in> set (executions (db sc))" "exec_id e' = x"
    by (auto simp: history_kept_def execution_kept_def dest!: evolves_persist [where V = execution_kept])
  with all same statements_sound [OF ran assms(2)] show ?thesis
    by (auto simp: coordinator_sound_def completions_settled_def)
qed

text \<open>\<open>settle\<close> writes the execution before the obligations, and the schema refuses to complete an
  execution while one of its obligations is open.\<close>

lemma settle_succeeded_claimless:
  assumes "settle clock s Succeeded reason s0 = Inr (u, s1)"
    "coordinator_sound mid (db s0)" "get mid (db s0) x = Inr s"
  shows "snap_obligations s = []"
proof (rule ccontr)
  assume "snap_obligations s \<noteq> []"
  then obtain ob where ob: "ob \<in> set (snap_obligations s)" by (meson hd_in_set)
  note x = get_execution [OF assms(3)]
  from assms(1) obtain a n sa where a: "snap_attempt s = Some a" and current: "snap_is_current s"
    and acc: "accumulate (exec_id (snap_execution s)) (replay_contribution Succeeded) s0 = Inr ((), sa)"
    and unsettled: "require_nonpublication_response s = Inr ()"
    and rows: "settle_rows clock s a Succeeded reason (CompletedE n) SilentR sa = Inr (u, s1)"
    unfolding settle_def by (auto simp: op_simps split: option.splits)
  have "(statement mid)\<^sup>*\<^sup>* (db s0) (db sa)" by (rule steps.within_run [OF accumulate_ran acc])
  from statements_sound [OF this assms(2)] have sound: "coordinator_sound mid (db sa)" .
  have same: "obligations (db sa) = obligations (db s0)" "executions (db sa) = executions (db s0)"
    using acc by (simp_all add: accumulate_def op_simps)
  have "success_terminal (obl_state ob)"
    using settle_rows_completed [OF rows sound refl, of "snap_execution s"] x ob same current
      get_settling [OF assms(3)]
      get_obligations_rows [OF assms(3)] by (auto simp: obligations_of_def)
  moreover have "retryable (obl_state ob)"
    using unsettled ob by (auto simp: require_nonpublication_response_def require_nonpublication_def)
  ultimately show False by (cases "obl_lifecycle ob") (simp_all add: retryable_def)
qed

lemma settle_nonpublication_Inr:
  assumes "settle_nonpublication mid sha clock f n outcome reason failure s0 = Inr (r, s1)"
  obtains s a sa u after where "require_fence mid sha f sa = Inr ((s, a), sa)" "get mid (db sa) (fence_execution f) = Inr s"
    "settle clock s outcome reason sa = Inr (u, s1)" "get mid (db s1) (fence_execution f) = Inr after" "r = Applied after"
    "deferred_ok (db s1)"
    "sa = s0 \<or> (\<exists>failed. prepare_execution_retry failed (fence_execution f) s0 = Inr ((), sa))"
proof -
  from assms obtain s a where first: "require_fence mid sha f s0 = Inr ((s, a), s0)"
    unfolding settle_nonpublication_def by (auto simp: op_simps dest: require_fence_Inr(1))
  show thesis
  proof (cases failure)
    case None
    with assms first obtain u after where "settle clock s outcome reason s0 = Inr (u, s1)"
      "get mid (db s1) (fence_execution f) = Inr after" "r = Applied after" "deferred_ok (db s1)"
      unfolding settle_nonpublication_def by (auto simp: op_simps)
    with first require_fence_Inr(2) [OF first] show thesis by (intro that) auto
  next
    case (Some failed)
    with assms first obtain sa s' a' sb u after where prepared: "prepare_execution_retry failed (fence_execution f) s0 = Inr ((), sa)"
      and fence: "require_fence mid sha f sa = Inr ((s', a'), sb)" and settled: "settle clock s' outcome reason sb = Inr (u, s1)"
      and after: "get mid (db s1) (fence_execution f) = Inr after" "r = Applied after" "deferred_ok (db s1)"
      unfolding settle_nonpublication_def by (auto simp: op_simps)
    have sb: "sb = sa" by (rule require_fence_Inr(1) [OF fence])
    show thesis
      by (rule that [OF fence [unfolded sb] require_fence_Inr(2) [OF fence] settled [unfolded sb] after])
        (use prepared in blast)
  qed
qed

lemma settle_nonpublication_claimless:
  assumes "settle_nonpublication mid sha clock f n Succeeded reason failure s0 = Inr (r, s1)"
    "coordinator_sound mid (db s0)"
  shows "obligations_of (db s0) (fence_execution f) = []"
proof -
  obtain s sa u where s: "get mid (db sa) (fence_execution f) = Inr s"
    and settled: "settle clock s Succeeded reason sa = Inr (u, s1)"
    and sa: "sa = s0 \<or> (\<exists>failed. prepare_execution_retry failed (fence_execution f) s0 = Inr ((), sa))"
    by (rule settle_nonpublication_Inr [OF assms(1)])
  have ran: "(statement mid)\<^sup>*\<^sup>* (db s0) (db sa)"
    using sa steps.within_run [OF prepare_execution_retry_ran] by blast
  have "obligations_of (db sa) (fence_execution f) = []"
    using settle_succeeded_claimless [OF settled statements_sound [OF ran assms(2)] s]
      get_obligations_rows [OF s] by simp
  moreover have "evolves obligation_kept (obligations (db s0)) (obligations (db sa))"
    using statements_history [OF ran] by (simp add: history_kept_def)
  ultimately show ?thesis
    by (auto simp: obligations_of_def filter_empty_conv obligation_kept_def dest!: evolves_persist)
qed

subsection \<open>No obligation is settled silently\<close>

definition unsilenced :: "coordination \<Rightarrow> bool" where
  "unsilenced d \<longleftrightarrow> (\<forall>ob \<in> set (obligations d). obl_lifecycle ob \<noteq> SilentR)"

lemma unsilenced_put [simp]:
  "unsilenced (table_put participants_table f1 d) = unsilenced d"
  "unsilenced (table_put owner_generations_table f2 d) = unsilenced d"
  "unsilenced (table_put current_executions_table f3 d) = unsilenced d"
  "unsilenced (table_put executions_table f4 d) = unsilenced d"
  "unsilenced (table_put attempts_table f5 d) = unsilenced d"
  "unsilenced (table_put wake_claims_table f6 d) = unsilenced d"
  "unsilenced (table_put execution_claims_table f7 d) = unsilenced d"
  "unsilenced (table_put replay_assessments_table f8 d) = unsilenced d"
  "unsilenced (table_put (publication_intents_table mid) f9 d) = unsilenced d"
  "unsilenced (table_put publication_receipts_table f10 d) = unsilenced d"
  by (simp_all add: unsilenced_def)

lemma unsilenced_insert:
  "obl_lifecycle ob = PendingR \<Longrightarrow> insert_row obligations_table ob d = Inr d' \<Longrightarrow> unsilenced d \<Longrightarrow> unsilenced d'"
  by (auto simp: unsilenced_def insert_row_Inr obligations_table_def)

lemma unsilenced_update:
  "(\<And>ob. Q ob \<Longrightarrow> obl_lifecycle (f ob) \<in> - {SilentR}) \<Longrightarrow>
   update_where obligations_table Q f d = Inr (n, d') \<Longrightarrow> unsilenced d \<Longrightarrow> unsilenced d'"
  by (drule obligations_t.update_where_put) (auto simp: unsilenced_def obligations_table_def)

interpretation unsaid: reply_contract "\<lambda>d d'. unsilenced d \<longrightarrow> unsilenced d'" "- {SilentR}" mid for mid
proof (unfold_locales, goal_cases)
  case (2 d1 d2 d3)
  then show ?case by blast
next
  case (11 ob d d')
  then show ?case using unsilenced_insert by blast
next
  case (19 Q f d n d')
  then show ?case using unsilenced_update by metis
qed (auto simp: insert_row_Inr dest!: participants_t.update_where_put
    owner_generations_t.update_where_put current_executions_t.update_where_put
    executions_t.update_where_put attempts_t.update_where_put wake_claims_t.update_where_put
    replay_assessments_t.update_where_put)

lemma perform_unsilenced:
  assumes "coordinator_sound mid (w_db w)" "unsilenced (w_db w)"
  shows "unsilenced (w_db (perform mid sha clock c w))"
proof (cases "\<exists>f n reason failure. c = SettleNonpublication f n Succeeded reason failure")
  case False
  with unsaid.perform_held [of c w mid sha clock] assms(2) show ?thesis by blast
next
  case True
  then obtain f n reason failure where c: "c = SettleNonpublication f n Succeeded reason failure" by blast
  show ?thesis
  proof (cases "settle_nonpublication mid sha clock f n Succeeded reason failure (w_session w)")
    case (Inr p)
    obtain r s1 where p: "p = (r, s1)" by (cases p)
    obtain s sa u where s: "get mid (db sa) (fence_execution f) = Inr s"
        and settled: "settle clock s Succeeded reason sa = Inr (u, s1)"
        and sa: "sa = w_session w \<or> (\<exists>failed. prepare_execution_retry failed (fence_execution f) (w_session w) = Inr ((), sa))"
      by (rule settle_nonpublication_Inr [OF Inr [unfolded p]])
    have ran: "(statement mid)\<^sup>*\<^sup>* (w_db w) (db sa)"
      using sa steps.within_run [OF prepare_execution_retry_ran] by blast
    have "snap_obligations s = []"
      by (rule settle_succeeded_claimless [OF settled statements_sound [OF ran assms(1)] s])
    then have "unsilenced (db sa) \<longrightarrow> unsilenced (db s1)"
      using unsaid.within_run [OF unsaid.settle_held settled] by simp
    moreover have "unsilenced (db sa)"
      using sa unsaid.within_run [OF unsaid.prepare_retry_held] assms(2) by blast
    ultimately show ?thesis by (simp add: c on_session_def after_call_def Inr p)
  qed (simp add: c on_session_def after_call_def assms(2))
qed

lemma run_unsilenced: "unsilenced (w_db (run mid sha clock calls))"
proof (induction calls rule: rev_induct)
  case Nil
  show ?case by (simp add: run_def empty_world_def empty_coordination_def unsilenced_def)
next
  case (snoc c calls)
  with perform_unsilenced [OF run_sound] show ?case by (simp add: run_append)
qed

subsection \<open>A published obligation is on the bus\<close>

text \<open>The rows of one reply on the bus, by the key its execution and target determine.\<close>

definition reply_rows :: "string \<Rightarrow> string \<Rightarrow> bus_row list \<Rightarrow> bus_row list" where
  "reply_rows x t rows = filter (\<lambda>q. bus_key q = Some (publication_key x t)) rows"

lemma reply_row_single:
  assumes "exchange_sound mid p" "q \<in> set (reply_rows x t (ex_bus p))"
  shows "reply_rows x t (ex_bus p) = [q]"
proof -
  have "length (reply_rows x t (ex_bus p)) \<le> 1"
    using assms(1) by (auto simp: exchange_sound_def reply_rows_def)
  with assms(2) show ?thesis by (cases "reply_rows x t (ex_bus p)") auto
qed

lemma receipt_row:
  assumes "exchange_sound mid p" "e \<in> set (ex_receipts p)"
  shows "\<exists>i \<in> set (ex_intents p). int_execution i = evi_execution e \<and> int_target i = evi_target e \<and>
    (\<exists>q. reply_rows (evi_execution e) (evi_target e) (ex_bus p) = [q] \<and> bus_seq q = evi_seq e \<and>
      bus_message q = int_message i \<and> mid (int_message i) = evi_message_id e)"
proof -
  from assms obtain i q where i: "i \<in> set (ex_intents p)" "int_execution i = evi_execution e" "int_target i = evi_target e"
    and q: "q \<in> set (ex_bus p)" "carries i q" "bus_seq q = evi_seq e" "mid (bus_message q) = evi_message_id e"
    unfolding exchange_sound_def durable_def by blast
  have "intent_valid mid i = Inr ()" using assms(1) i(1) by (simp add: exchange_sound_def)
  from intent_valid_key [OF this] i q have "q \<in> set (reply_rows (evi_execution e) (evi_target e) (ex_bus p))"
    by (simp add: reply_rows_def carries_def)
  from reply_row_single [OF assms(1) this] i q show ?thesis by (auto simp: carries_def)
qed

lemma exchange_fields [simp]:
  "ex_intents (exchange_of w) = publication_intents (w_db w)"
  "ex_receipts (exchange_of w) = publication_receipts (w_db w)"
  "ex_dispatches (exchange_of w) = w_dispatches w" "ex_bus (exchange_of w) = w_bus w"
  by (simp_all add: exchange_of_def)

lemma completed_published:
  assumes "coordinator_sound mid (w_db w)" "unsilenced (w_db w)" "exchange_sound mid (exchange_of w)"
    "e \<in> set (executions (w_db w))" "exec_status e = CompletedExecution"
    "ob \<in> set (obligations (w_db w))" "obl_execution ob = exec_id e"
  shows "\<exists>q. reply_rows (exec_id e) (obl_target ob) (w_bus w) = [q] \<and>
    obl_lifecycle ob = PublishedR (mid (bus_message q)) (bus_seq q) \<and> msg_target (bus_message q) = obl_target ob"
proof -
  have "success_terminal (obl_state ob)"
    using assms(1,4-7) by (simp add: coordinator_sound_def completions_settled_def)
  then obtain m n where ob: "obl_lifecycle ob = PublishedR m n"
    using assms(2,6) by (cases "obl_lifecycle ob") (auto simp: unsilenced_def)
  then have "published_receipt (w_db w) ob"
    using assms(1,6) by (simp add: coordinator_sound_def publications_received_def)
  then obtain r where r: "r \<in> set (publication_receipts (w_db w))" "evi_execution r = exec_id e"
    "evi_target r = obl_target ob" "evi_message_id r = m" "evi_seq r = n"
    using ob assms(7) by (auto simp: published_receipt_def)
  then have "r \<in> set (ex_receipts (exchange_of w))" by simp
  from receipt_row [OF assms(3) this] r obtain i q where i: "i \<in> set (publication_intents (w_db w))"
    "int_target i = obl_target ob" and q: "reply_rows (exec_id e) (obl_target ob) (w_bus w) = [q]"
    "bus_seq q = n" "bus_message q = int_message i" "mid (int_message i) = m"
    by auto
  have "intent_valid mid i = Inr ()" using assms(3) i(1) by (simp add: exchange_sound_def)
  then have "msg_target (int_message i) = int_target i" by (auto simp: intent_valid_def)
  with i q ob show ?thesis by auto
qed

end
