(* ===== verification/Fence_Results.thy ===== *)
theory Fence_Results
  imports Settlement_Results
begin

text \<open>
  What an owner fence is worth: the store accepts exactly the fence of the owner's one live attempt,
  at its current revision, and a fence of an attempt that has ended is refused by every operation
  from then on.
\<close>

subsection \<open>Which fence is accepted\<close>

lemma get_live_attempt:
  assumes "get mid d x = Inr s" "snap_is_current s" "snap_attempt s = Some a"
  shows "a \<in> set (attempts d) \<and> \<not> terminal_attempt (att_phase a)"
proof -
  from assms(1,3) have "a \<in> set (attempts d)" and valid: "snapshot_valid s = Inr ()"
    by (auto simp: get_def Let_def dest!: one_row_Some split: option.splits)
  moreover from valid assms(2,3) have "accepts_active_execution (att_lifecycle a)"
    by (auto simp: snapshot_valid_def validate_current_pointer_def Let_def)
  then have "\<not> terminal_attempt (att_phase a)" by (cases "att_lifecycle a") auto
  ultimately show ?thesis by blast
qed

lemma accepted_fence:
  assumes "require_fence mid sha f s0 = Inr ((s, a), s1)"
  shows "a \<in> set (attempts (db s0))" "\<not> terminal_attempt (att_phase a)"
    "fence_authority sha f = Inr (attempt_authority_of a)" "att_revision a = fence_revision f"
  using require_fence_Inr [OF assms] get_live_attempt by metis+

lemma live_fence_accepted:
  assumes "coordinator_sound mid (db s0)" "deferred_ok (db s0)"
    "a \<in> set (attempts (db s0))" "\<not> terminal_attempt (att_phase a)"
    "fence_authority sha f = Inr (attempt_authority_of a)" "att_revision a = fence_revision f"
  obtains s where "require_fence mid sha f s0 = Inr ((s, a), s0)"
proof -
  let ?d = "db s0"
  obtain e p where e: "e \<in> set (executions ?d)" "exec_id e = att_execution a"
    "exec_lifecycle e = ActiveE (att_ordinal a)" "exec_owner e = att_owner a"
    and p: "p \<in> set (current_executions ?d)" "ptr_owner p = att_owner a"
    "ptr_execution p = Some (att_execution a)"
    using live_attempt_pointed [OF assms(2-4)] by metis
  obtain g where g: "g \<in> set (owner_generations ?d)" "gen_owner g = att_owner a" "generation g = att_generation a"
    using live_attempt_current [OF assms(1-4)] by blast
  let ?s = "committed_snapshot ?d e"
  obtain b where b: "snap_attempt ?s = Some b" "b \<in> set (attempts ?d)" "att_execution b = exec_id e"
    "att_ordinal b = att_ordinal a"
    using snapshot_attempt_Some [OF assms(1,2) e(1), of "att_ordinal a"] e(3) by auto
  have "b = a" using attempt_unique [OF sound_tables [OF assms(1)] assms(3) b(2)] b(3,4) e(2) by simp
  moreover obtain q where "pointer_of ?d (exec_owner e) = q" "q \<in> set (current_executions ?d)" "ptr_owner q = exec_owner e"
    using pointer_of_eq [OF assms(1) e(1)] by metis
  then have "pointer_of ?d (exec_owner e) = p"
    using pointer_unique [OF sound_tables [OF assms(1)] p(1)] p(2) e(4) by simp
  moreover obtain person where person: "read_participant ?d (exec_owner e) = Inr person"
    using read_participant_committed [OF assms(1,2) e(1)] by blast
  moreover have "generation (ps_generation person) = att_generation a"
  proof -
    from person have "ps_generation person \<in> set (owner_generations ?d) \<and> gen_owner (ps_generation person) = exec_owner e"
      by (auto simp: read_participant_def dest!: require_row_Inr)
    with generation_unique [OF sound_tables [OF assms(1)] g(1), of "ps_generation person"] g e(4) show ?thesis by simp
  qed
  moreover have "fence_execution f = exec_id e"
    using assms(5) e(2) by (auto simp: fence_authority_def attempt_authority_of_def)
  ultimately have "require_fence mid sha f s0 = Inr ((?s, a), s0)"
    using get_committed [OF assms(1,2) e(1)] b(1) p(3) e(2,4) assms(5,6)
    by (simp add: require_fence_def participant_get_def op_simps require_current_attempt_def
        require_attempt_def snapshot_selectors)
  with that show thesis by blast
qed

text \<open>Two fences an owner holds name the same attempt.\<close>

lemma accepted_fences_agree:
  assumes "coordinator_sound mid (db s0)" "deferred_ok (db s0)"
    "require_fence mid sha f s0 = Inr ((s, a), s1)" "require_fence mid sha g s0 = Inr ((t, b), s2)"
    "fence_owner f = fence_owner g"
  shows "a = b \<and> fence_authority sha f = fence_authority sha g \<and> fence_revision f = fence_revision g"
proof -
  have "a = b"
  proof (rule live_attempt_unique [OF assms(1,2)])
    show "att_owner a = att_owner b"
      using accepted_fence(3) [OF assms(3)] accepted_fence(3) [OF assms(4)] assms(5)
      by (auto simp: fence_authority_def attempt_authority_of_def)
  qed (use accepted_fence [OF assms(3)] accepted_fence [OF assms(4)] in auto)
  then show ?thesis
    using require_fence_Inr(5,6) [OF assms(3)] require_fence_Inr(5,6) [OF assms(4)] by simp
qed

subsection \<open>Fences of ended attempts\<close>

lemma ended_fence_refused:
  assumes "tables_sound mid (db s0)" "b \<in> set (attempts (db s0))" "terminal_attempt (att_phase b)"
    "fence_execution f = att_execution b" "fence_ordinal f = att_ordinal b"
  obtains e where "require_fence mid sha f s0 = Inl e"
proof (cases "require_fence mid sha f s0")
  case (Inr p)
  obtain s a s1 where p: "p = ((s, a), s1)" by (metis surj_pair)
  note accepted = accepted_fence [OF Inr [unfolded p]]
  have "att_execution a = att_execution b \<and> att_ordinal a = att_ordinal b"
    using accepted(3) assms(4,5) by (auto simp: fence_authority_def attempt_authority_of_def)
  with attempt_unique [OF assms(1,2) accepted(1)] accepted(2) assms(3) show thesis by simp
qed

text \<open>The calls that present a fence.\<close>

fun presented_fence :: "call \<Rightarrow> owner_fence option" where
  "presented_fence (Advance f _ _ _ _ _ _) = Some f"
| "presented_fence (FailUnknown f _) = Some f"
| "presented_fence (SettleNonpublication f _ _ _ _) = Some f"
| "presented_fence (Prepare _ _ f _) = Some f"
| "presented_fence (Publish _ _ f _ _) = Some f"
| "presented_fence _ = None"

lemma refused_fence_call:
  assumes "presented_fence c = Some f" "require_fence mid sha f (w_session w) = Inl e"
  shows "perform mid sha clock c w = w"
proof (cases c)
  case (Publish b owner g t stop)
  with assms have g: "g = f" by simp
  have "require_final_owner mid sha b owner f t (w_session w) = Inl e"
    using assms(2) by (simp add: require_final_owner_def obind_def)
  then have "open_dispatch mid sha clock b owner f t (w_dispatches w) (w_bus w) (w_session w) = Inr (q, s1) \<Longrightarrow>
      s1 = w_session w \<and> (\<exists>s. q = Inl s)" for q s1
    by (auto simp: open_dispatch_def op_simps split: option.splits dest!: terminal_replay_Inr)
  then show ?thesis
    using Publish g by (auto simp: publish_fenced_response_def split: sum.splits)
qed (use assms in \<open>auto simp: on_session_def after_call_def advance_def fail_unknown_def settle_nonpublication_def
    prepare_fenced_response_def require_final_owner_def writing_def obind_def othen_def orequire_def olift_def
    ofail_def oreturn_def split: sum.splits\<close>)

lemma ended_attempt_kept:
  assumes "(statement mid)\<^sup>*\<^sup>* d d'" "b \<in> set (attempts d)" "terminal_attempt (att_phase b)"
  shows "b \<in> set (attempts d')"
  using statements_history [OF assms(1)] assms(2,3)
  by (auto simp: history_kept_def attempt_kept_def dest!: evolves_persist [where V = attempt_kept])

lemma ended_fence_forever:
  assumes "b \<in> set (attempts (w_db (run mid sha clock calls)))" "terminal_attempt (att_phase b)"
    "presented_fence c = Some f" "fence_execution f = att_execution b" "fence_ordinal f = att_ordinal b"
  shows "run mid sha clock (calls @ later @ [c]) = run mid sha clock (calls @ later)"
proof -
  let ?w = "run mid sha clock (calls @ later)"
  have "b \<in> set (attempts (w_db ?w))"
    unfolding run_append by (rule ended_attempt_kept [OF run_from_steps assms(1,2)])
  then obtain e where "require_fence mid sha f (w_session ?w) = Inl e"
    using ended_fence_refused [OF sound_tables [OF run_sound] _ assms(2,4,5)] by blast
  from refused_fence_call [OF assms(3) this] show ?thesis by (simp add: run_append)
qed

subsection \<open>Generations\<close>

text \<open>A live attempt blocks its owner's next generation.\<close>

lemma advance_generation_blocked:
  assumes "coordinator_sound mid (db s0)" "deferred_ok (db s0)"
    "a \<in> set (attempts (db s0))" "\<not> terminal_attempt (att_phase a)"
  obtains e where "advance_generation (att_owner a) n s0 = Inl e"
proof (cases "advance_generation (att_owner a) n s0")
  case (Inr v)
  obtain r s1 where v: "v = (r, s1)" by (cases v)
  have "(statement mid)\<^sup>*\<^sup>* (db s0) (db s1)" "deferred_ok (db s1)"
    using steps.within_run [OF ran_writing [OF advance_generation_ran], of "att_owner a" n s0] Inr v
    by (auto simp: advance_generation_def op_simps)
  then have sound: "coordinator_sound mid (db s1)" "deferred_ok (db s1)"
    using statements_sound assms(1) by blast+
  from Inr v obtain person i where person: "read_participant (db s0) (att_owner a) = Inr person"
      "generation (ps_generation person) = n"
    and set: "update_where owner_generations_table (\<lambda>r. gen_owner r = att_owner a \<and> generation r = n)
      (generation_update (\<lambda>_. n + 1)) (db s0) = Inr (i, db s1)"
    by (auto simp: advance_generation_def advance_generation_body_def participant_get_def op_simps)
  have rows: "attempts (db s1) = attempts (db s0)"
    "owner_generations (db s1) = map (\<lambda>r. if gen_owner r = att_owner a \<and> generation r = n
       then r\<lparr>generation := n + 1\<rparr> else r) (owner_generations (db s0))"
    using owner_generations_t.update_where_put [OF set] by (simp_all add: owner_generations_table_def)
  obtain g where g: "g \<in> set (owner_generations (db s0))" "gen_owner g = att_owner a" "generation g = att_generation a"
    using live_attempt_current [OF assms] by blast
  from person have "ps_generation person \<in> set (owner_generations (db s0)) \<and> gen_owner (ps_generation person) = att_owner a"
    by (auto simp: read_participant_def dest!: require_row_Inr)
  with generation_unique [OF sound_tables [OF assms(1)] g(1), of "ps_generation person"] g person(2)
  have n: "att_generation a = n" by simp
  have "a \<in> set (attempts (db s1))" using assms(3) rows by simp
  from live_attempt_current [OF sound this assms(4)] obtain g' where "g' \<in> set (owner_generations (db s1))"
    "gen_owner g' = att_owner a" "generation g' = n" unfolding n by blast
  moreover have "\<forall>r \<in> set (owner_generations (db s1)). gen_owner r = att_owner a \<longrightarrow> generation r \<noteq> n"
    unfolding rows set_map by (rule ballI, erule imageE) simp
  ultimately show thesis by blast
qed

end
