(* ===== verification/Attempt_Results.thy ===== *)
theory Attempt_Results
  imports Fence_Results
begin

text \<open>
  The operations of an attempt: a start that is repeated returns the fence and the snapshot of the
  first, an advance changes nothing but its own attempt row, and a settlement releases the owner.
\<close>

subsection \<open>Repeated starts\<close>

lemma get_execution_valid: "get mid d x = Inr s \<Longrightarrow> execution_valid (snap_execution s) = Inr ()"
  by (auto simp: get_def Let_def dest!: require_row_Inr)

lemma attempts_put [simp]:
  "attempts (table_put current_executions_table f3 d) = attempts d"
  "attempts (table_put executions_table f4 d) = attempts d"
  "attempts (table_put wake_claims_table f6 d) = attempts d"
  "attempts (table_put replay_assessments_table f8 d) = attempts d"
  "attempts (table_put obligations_table f9 d) = attempts d"
  by (simp_all add: table_defs)

lemma resume_retry_attempts: "within db (keeps attempts) (resume_retry clock s)"
proof -
  have "within db (keeps attempts) (settle_obligation clock st reason ob)" for st reason ob
    unfolding settle_obligation_def by (intro kept_intros) simp
  then have "within db (keeps attempts) (resume_response clock st ob)" for st ob
    by (cases st) (auto intro: kept_intros)
  then show ?thesis
    unfolding resume_retry_def settle_claim_def by (intro kept_intros) simp_all
qed

lemma activate_attempts:
  assumes "activate clock dg req s s0 = Inr (u, s1)"
  obtains created where "attempts (db s1) = attempts (db s0) @ [new_attempt dg req (exec_owner (snap_execution s)) created]"
    "attempt_valid (new_attempt dg req (exec_owner (snap_execution s)) created) = Inr ()"
    "exec_updated (snap_execution s) \<le> created"
proof -
  from assms obtain created d1 d2 d3 i j where
    "attempt_valid (new_attempt dg req (exec_owner (snap_execution s)) created) = Inr ()"
    and "exec_updated (snap_execution s) \<le> created"
    and ins: "insert_row attempts_table (new_attempt dg req (exec_owner (snap_execution s)) created) (db s0) = Inr d1"
    and upd: "update_where executions_table (\<lambda>r. exec_id r = start_execution req)
        (\<lambda>r. r\<lparr>exec_lifecycle := ActiveE (start_ordinal req), exec_revision := exec_revision (snap_execution s) + 1,
              exec_reason := None, exec_updated := created\<rparr>) d1 = Inr (i, d2)"
      "update_where current_executions_table (\<lambda>r. ptr_owner r = exec_owner (snap_execution s))
        (\<lambda>r. r\<lparr>ptr_execution := Some (start_execution req), ptr_attempt := Some (start_ordinal req),
              ptr_revision := snap_pointer_revision s + 1\<rparr>) d2 = Inr (j, db s1)"
    by (auto simp: activate_def Let_def op_simps)
  moreover have "attempts (db s1) = attempts d1"
    using executions_t.update_where_put [OF upd(1)] current_executions_t.update_where_put [OF upd(2)] by simp
  moreover have "attempts d1 = attempts (db s0) @ [new_attempt dg req (exec_owner (snap_execution s)) created]"
    using ins by (auto simp: insert_row_Inr attempts_table_def)
  ultimately show thesis using that by simp
qed

text \<open>What a start that was applied has checked and written.\<close>

lemma start_applied:
  assumes "start mid sha clock req s0 = Inr (Applied r, s1)"
  obtains dg s created where "digest sha (start_token req) = Inr dg" "get mid (db s0) (start_execution req) = Inr s"
    "filter (\<lambda>a. att_digest a = dg) (attempts (db s0)) = []"
    "attempts (db s1) = attempts (db s0) @ [new_attempt dg req (start_owner req) created]"
    "attempt_valid (new_attempt dg req (start_owner req) created) = Inr ()"
    "exec_updated (snap_execution s) \<le> created"
    "get mid (db s1) (start_execution req) = Inr (result_snapshot r)" "start_fence req 1 = Inr (result_fence r)"
    "deferred_ok (db s1)"
proof -
  from assms obtain dg s sa sb person after f u v where dg: "digest sha (start_token req) = Inr dg"
    and s: "get mid (db s0) (start_execution req) = Inr s"
    and issued: "one_row attempt_valid (\<lambda>a. att_digest a = dg) (attempts (db s0)) = Inr None"
    and person: "read_participant (db s0) (exec_owner (snap_execution s)) = Inr person"
    and valid: "validate_start req s person = Inr ()"
    and act: "activate clock dg req s s0 = Inr (u, sa)" and res: "resume_retry clock s sa = Inr (v, s1)"
    and after: "get mid (db s1) (start_execution req) = Inr after" "start_fence req 1 = Inr f"
      "r = \<lparr>result_snapshot = after, result_fence = f\<rparr>" "deferred_ok (db s1)"
    unfolding start_def participant_get_def by (auto simp: op_simps split: option.splits)
  have "exec_owner (snap_execution s) = start_owner req"
    using person valid by (auto simp: validate_start_def Let_def read_participant_def dest!: require_row_Inr)
  moreover obtain created where "attempts (db sa) = attempts (db s0) @ [new_attempt dg req (exec_owner (snap_execution s)) created]"
    "attempt_valid (new_attempt dg req (exec_owner (snap_execution s)) created) = Inr ()"
    "exec_updated (snap_execution s) \<le> created"
    using activate_attempts [OF act] by blast
  moreover have "attempts (db s1) = attempts (db sa)" by (rule kept_run [OF resume_retry_attempts res])
  ultimately show thesis using that dg s one_row_None [OF issued] after by simp
qed

lemma start_repeated:
  assumes "start mid sha clock req s0 = Inr (Applied r, s1)"
  shows "start mid sha clock req s1 = Inr (AlreadyApplied r, s1)"
proof -
  obtain dg s created where dg: "digest sha (start_token req) = Inr dg"
    and s: "get mid (db s0) (start_execution req) = Inr s"
    and fresh: "filter (\<lambda>a. att_digest a = dg) (attempts (db s0)) = []"
    and rows: "attempts (db s1) = attempts (db s0) @ [new_attempt dg req (start_owner req) created]"
    and valid: "attempt_valid (new_attempt dg req (start_owner req) created) = Inr ()"
    and time: "exec_updated (snap_execution s) \<le> created"
    and after: "get mid (db s1) (start_execution req) = Inr (result_snapshot r)" "start_fence req 1 = Inr (result_fence r)"
      "deferred_ok (db s1)"
    using start_applied [OF assms] by metis
  let ?new = "new_attempt dg req (start_owner req) created"
  have "filter (\<lambda>a. att_execution a = start_execution req \<and> att_digest a = dg) (attempts (db s1)) = [?new]"
    using fresh by (simp add: rows filter_empty_conv new_attempt_def)
  then have old: "one_row attempt_valid (\<lambda>a. att_execution a = start_execution req \<and> att_digest a = dg)
      (attempts (db s1)) = Inr (Some ?new)"
    using valid by (rule one_row_unique)
  have "evolves execution_kept (executions (db s0)) (executions (db s1))"
    using statements_history [OF steps.within_run [OF start_ran assms]] by (simp add: history_kept_def)
  from evolves_persist [OF this] get_execution [OF s] obtain e
    where e: "e \<in> set (executions (db s1))" "execution_kept (snap_execution s) e" by blast
  then have "exec_created (snap_execution (result_snapshot r)) = exec_created (snap_execution s)"
    using get_execution_only [OF after(1), of e] get_execution [OF s] by (simp add: execution_kept_def)
  moreover have "exec_created (snap_execution s) \<le> exec_updated (snap_execution s)"
    using get_execution_valid [OF s] by (auto simp: execution_valid_def)
  ultimately have "replayed_fence req (result_snapshot r) ?new = Inr (result_fence r)"
    using time after(2) by (simp add: replayed_fence_def new_attempt_def)
  with dg old after show ?thesis
    by (simp add: start_def op_simps)
qed

subsection \<open>Advancing\<close>

definition advanced :: "attempt \<Rightarrow> attempt_state \<Rightarrow> int \<Rightarrow> bool \<Rightarrow> string option \<Rightarrow> attempt \<Rightarrow> attempt" where
  "advanced a st t progress reason r =
     (if att_execution r = att_execution a \<and> att_ordinal r = att_ordinal a
      then r\<lparr>att_lifecycle := st, att_revision := att_revision a + 1, att_updated := t,
             att_progress := (if progress then Some t else att_progress a), att_reason := reason\<rparr>
      else r)"

lemma get_attempt:
  assumes "get mid d x = Inr s" "snap_attempt s = Some a"
  shows "a \<in> set (attempts d) \<and> att_execution a = x \<and> exec_ordinal (snap_execution s) = Some (att_ordinal a)"
  using assms by (auto simp: get_def Let_def dest!: one_row_Some split: option.splits)

lemma advance_effect:
  assumes "advance mid sha clock f phase n finished dead progress reason s0 = Inr (r, s1)"
  obtains a st t where "a \<in> set (attempts (db s0))" "\<not> terminal_attempt (att_phase a)"
    "fence_authority sha f = Inr (attempt_authority_of a)" "att_revision a = fence_revision f"
    "observed (att_lifecycle a) phase finished dead progress = Inr st" "att_updated a \<le> t"
    "db s1 = (db s0)\<lparr>attempts := map (advanced a st t progress reason) (attempts (db s0))\<rparr>"
    "\<exists>after. get mid (db s1) (fence_execution f) = Inr after \<and>
       r = Applied \<lparr>result_snapshot = after, result_fence = f\<lparr>fence_revision := fence_revision f + 1\<rparr>\<rparr>"
    "deferred_ok (db s1)"
proof -
  from assms obtain s a where fence: "require_fence mid sha f s0 = Inr ((s, a), s0)"
    unfolding advance_def by (auto simp: op_simps dest: require_fence_Inr(1))
  define t where "t = max (clock (ticks s0)) (att_updated a)"
  then have t: "att_updated a \<le> t" by simp
  from assms fence obtain i after b st where
        obs: "observed (att_lifecycle a) phase finished dead progress = Inr st"
    and upd: "update_where attempts_table (\<lambda>r. att_execution r = att_execution a \<and> att_ordinal r = att_ordinal a)
       (\<lambda>r. r\<lparr>att_lifecycle := st, att_revision := att_revision a + 1, att_updated := t,
             att_progress := (if progress then Some t else att_progress a), att_reason := reason\<rparr>) (db s0) = Inr (i, db s1)"
    and after: "get mid (db s1) (fence_execution f) = Inr after" "require_attempt after = Inr b"
      "r = Applied \<lparr>result_snapshot = after, result_fence = f\<lparr>fence_revision := att_revision b\<rparr>\<rparr>" "deferred_ok (db s1)"
    unfolding advance_def attempt_advance_def t_def by (auto simp: op_simps)
  have db: "db s1 = (db s0)\<lparr>attempts := map (advanced a st t progress reason) (attempts (db s0))\<rparr>"
    using attempts_t.update_where_put [OF upd] by (simp add: attempts_table_def advanced_def [abs_def])
  note known = require_fence_Inr [OF fence] accepted_fence [OF fence]
  have b: "b \<in> set (attempts (db s1))" "att_execution b = fence_execution f"
    "exec_ordinal (snap_execution after) = Some (att_ordinal b)"
    using get_attempt [OF after(1)] after(2) by (auto simp: require_attempt_def split: option.splits)
  have "snap_execution after = snap_execution s"
    using get_execution_only [OF after(1), of "snap_execution s"] get_execution [OF known(2)] by (simp add: db)
  then have "att_ordinal b = att_ordinal a"
    using get_attempt [OF known(2,4)] b(3) by simp
  with b(1,2) get_attempt [OF known(2,4)] have "att_revision b = fence_revision f + 1"
    using known(6) by (auto simp: db advanced_def)
  then have "r = Applied \<lparr>result_snapshot = after, result_fence = f\<lparr>fence_revision := fence_revision f + 1\<rparr>\<rparr>"
    using after(3) by simp
  with after(1) show thesis
    by (intro that [OF known(8,9,5,6) obs t db _ after(4)] exI conjI)
qed

text \<open>The fence an advance returns is the next one that is accepted, and the one it was given is spent.\<close>

lemma advance_fence:
  assumes "advance mid sha clock f phase n finished dead progress reason s0 = Inr (Applied r, s1)"
    "coordinator_sound mid (db s0)"
  shows "\<exists>p. require_fence mid sha (result_fence r) s1 = Inr (p, s1)" "\<exists>e. require_fence mid sha f s1 = Inl e"
proof -
  obtain a st t where a: "a \<in> set (attempts (db s0))" "\<not> terminal_attempt (att_phase a)"
      "fence_authority sha f = Inr (attempt_authority_of a)" "att_revision a = fence_revision f"
      "observed (att_lifecycle a) phase finished dead progress = Inr st" "att_updated a \<le> t"
    and db: "db s1 = (db s0)\<lparr>attempts := map (advanced a st t progress reason) (attempts (db s0))\<rparr>"
    and returned: "\<exists>after. get mid (db s1) (fence_execution f) = Inr after \<and>
       Applied r = Applied \<lparr>result_snapshot = after, result_fence = f\<lparr>fence_revision := fence_revision f + 1\<rparr>\<rparr>"
    and deferred: "deferred_ok (db s1)"
    by (rule advance_effect [OF assms(1)])
  have r: "result_fence r = f\<lparr>fence_revision := fence_revision f + 1\<rparr>" using returned by auto
  have sound: "coordinator_sound mid (db s1)"
    by (rule statements_sound [OF steps.within_run [OF advance_ran assms(1)] assms(2)])
  let ?b = "advanced a st t progress reason a"
  have b: "?b \<in> set (attempts (db s1))" "attempt_authority_of ?b = attempt_authority_of a"
    "att_revision ?b = fence_revision f + 1" "att_lifecycle ?b = st"
    using a(1,4) by (auto simp: db advanced_def attempt_authority_of_def)
  have "\<not> terminal_attempt (att_phase ?b)"
    by (rule observed_Inr [OF a(5)]) (simp add: advanced_def)
  moreover have "fence_authority sha (result_fence r) = Inr (attempt_authority_of ?b)"
    "att_revision ?b = fence_revision (result_fence r)"
    using a(3) b(2,3) by (simp_all add: r fence_authority_def)
  ultimately obtain s where "require_fence mid sha (result_fence r) s1 = Inr ((s, ?b), s1)"
    by (rule live_fence_accepted [OF sound deferred b(1)])
  then show "\<exists>p. require_fence mid sha (result_fence r) s1 = Inr (p, s1)" by blast
  show "\<exists>e. require_fence mid sha f s1 = Inl e"
  proof (rule ccontr)
    assume "\<nexists>e. require_fence mid sha f s1 = Inl e"
    then obtain s c s2 where "require_fence mid sha f s1 = Inr ((s, c), s2)"
      by (cases "require_fence mid sha f s1") auto
    note accepted = accepted_fence [OF this]
    have "attempt_authority_of c = attempt_authority_of ?b" using accepted(3) a(3) b(2) by simp
    then have "c = ?b"
      by (intro attempt_unique [OF sound_tables [OF sound] b(1) accepted(1)])
        (simp_all add: attempt_authority_of_def)
    with accepted(4) b(3) show False by simp
  qed
qed

subsection \<open>Settling\<close>

lemma executions_put [simp]:
  "executions (table_put current_executions_table f3 d) = executions d"
  "executions (table_put attempts_table f5 d) = executions d"
  "executions (table_put wake_claims_table f6 d) = executions d"
  "executions (table_put obligations_table f9 d) = executions d"
  by (simp_all add: table_defs)

lemma own_put [simp]:
  "attempts (table_put attempts_table g1 d) = g1 (attempts d)"
  "executions (table_put executions_table g2 d) = g2 (executions d)"
  "current_executions (table_put current_executions_table g3 d) = g3 (current_executions d)"
  by (simp_all add: table_defs)

definition released :: "string \<Rightarrow> coordination \<Rightarrow> bool" where
  "released owner d \<longleftrightarrow>
     (\<forall>p \<in> set (current_executions d). ptr_owner p = owner \<longrightarrow> ptr_execution p = None \<and> ptr_attempt p = None)"

text \<open>The rows a settlement leaves behind: the attempt ended, the execution in its new state, the
  owner's pointer cleared.\<close>

lemma settling_keeps:
  assumes "\<And>g d. F (table_put obligations_table g d) = F d" "\<And>g d. F (table_put wake_claims_table g d) = F d"
  shows "within db (keeps F) (oforeach obs (settle_obligation clock response reason))"
    "within db (keeps F) (oforeach claims (settle_claim clock kind))"
  unfolding settle_obligation_def settle_claim_def using assms by (auto intro!: kept_intros)

lemma settle_rows_effect:
  assumes "settle_rows clock s a outcome reason state response s0 = Inr (u, s1)"
  shows "\<forall>r \<in> set (attempts (db s1)). att_execution r = exec_id (snap_execution s) \<and> att_ordinal r = att_ordinal a \<longrightarrow>
      att_lifecycle r = Ended outcome"
    "\<forall>e \<in> set (executions (db s1)). exec_id e = exec_id (snap_execution s) \<longrightarrow> exec_lifecycle e = state"
    "released (exec_owner (snap_execution s)) (db s1)"
proof -
  let ?x = "exec_id (snap_execution s)"
  obtain t sa sb sc sd se i j k u1 u2 where
    a: "update_in attempts_table (\<lambda>r. att_execution r = ?x \<and> att_ordinal r = att_ordinal a)
       (\<lambda>r. r\<lparr>att_lifecycle := Ended outcome, att_revision := att_revision a + 1, att_updated := t,
             att_reason := reason\<rparr>) sa = Inr (i, sb)"
    and e: "update_in executions_table (\<lambda>r. exec_id r = ?x)
       (\<lambda>r. r\<lparr>exec_lifecycle := state, exec_revision := exec_revision (snap_execution s) + 1,
             exec_updated := t, exec_reason := reason\<rparr>) sb = Inr (j, sc)"
    and m: "oforeach (snap_obligations s) (settle_obligation clock response reason) sc = Inr (u1, sd)"
      "oforeach (snap_assignments s) (settle_claim clock (execution_assignment_state (execution_kind_of state))) sd = Inr (u2, se)"
    and p: "update_in current_executions_table (\<lambda>r. ptr_owner r = exec_owner (snap_execution s))
       (\<lambda>r. r\<lparr>ptr_execution := None, ptr_attempt := None, ptr_revision := snap_pointer_revision s + 1\<rparr>) se = Inr (k, s1)"
    by (rule settle_rows_Inr [OF assms])
  note put = attempts_t.update_where_put executions_t.update_where_put current_executions_t.update_where_put
  have same: "attempts (db se) = attempts (db sc)" "executions (db se) = executions (db sc)"
    using kept_run [OF settling_keeps(1) m(1), of attempts] kept_run [OF settling_keeps(2) m(2), of attempts]
      kept_run [OF settling_keeps(1) m(1), of executions] kept_run [OF settling_keeps(2) m(2), of executions]
    by simp_all
  have "attempts (db s1) = attempts (db sb)" "executions (db s1) = executions (db sc)"
    using e p same by (auto simp: op_simps dest!: put)
  moreover have "\<forall>r \<in> set (attempts (db sb)). att_execution r = ?x \<and> att_ordinal r = att_ordinal a \<longrightarrow> att_lifecycle r = Ended outcome"
    "\<forall>e \<in> set (executions (db sc)). exec_id e = ?x \<longrightarrow> exec_lifecycle e = state"
    "released (exec_owner (snap_execution s)) (db s1)"
    using a e p by (auto simp: op_simps released_def dest!: put)
  ultimately show "\<forall>r \<in> set (attempts (db s1)). att_execution r = ?x \<and> att_ordinal r = att_ordinal a \<longrightarrow>
      att_lifecycle r = Ended outcome"
    "\<forall>e \<in> set (executions (db s1)). exec_id e = ?x \<longrightarrow> exec_lifecycle e = state"
    "released (exec_owner (snap_execution s)) (db s1)" by simp_all
qed

text \<open>The states a settlement may give the execution, by the outcome of the attempt.\<close>

fun settled_states :: "terminal_phase \<Rightarrow> int \<Rightarrow> execution_state set" where
  "settled_states Succeeded n = {CompletedE n}"
| "settled_states AttemptFailed n = {DeferredE (Some n), FailedE (Some n)}"
| "settled_states UnknownOutcome n = {FailedE (Some n)}"

lemma disposition_state: "disposition outcome s a = Inr (state, response) \<Longrightarrow> state \<in> settled_states outcome (att_ordinal a)"
  by (cases outcome) (auto split: if_splits)

lemma settle_effect:
  assumes "settle clock s outcome reason s0 = Inr (u, s1)" "get mid (db s0) x = Inr s" "get mid (db s1) x = Inr after"
  obtains a b where "snap_attempt s = Some a" "snap_attempt after = Some b" "att_ordinal b = att_ordinal a"
    "att_lifecycle b = Ended outcome" "exec_lifecycle (snap_execution after) \<in> settled_states outcome (att_ordinal a)"
    "released (exec_owner (snap_execution s)) (db s1)"
proof -
  from assms(1) obtain a sa state response where a: "snap_attempt s = Some a"
    and state: "disposition outcome s a = Inr (state, response)"
    and rows: "settle_rows clock s a outcome reason state response sa = Inr (u, s1)"
    unfolding settle_def by (auto simp: op_simps split: option.splits)
  note effect = settle_rows_effect [OF rows] and x = get_execution [OF assms(2)]
  have life: "exec_lifecycle (snap_execution after) = state"
    using effect(2) [rule_format, of "snap_execution after"] get_execution [OF assms(3)] x by simp
  have settled: "state \<in> settled_states outcome (att_ordinal a)" by (rule disposition_state [OF state])
  then have ordinal: "exec_ordinal (snap_execution after) = Some (att_ordinal a)"
    unfolding life by (cases outcome) auto
  moreover have "snapshot_valid after = Inr ()"
    using assms(3) by (auto simp: get_def Let_def)
  ultimately obtain b where b: "snap_attempt after = Some b"
    by (cases "snap_attempt after") (auto simp: snapshot_valid_def validate_attempt_identity_def Let_def)
  from get_attempt [OF assms(3) b] ordinal have "b \<in> set (attempts (db s1))" "att_execution b = x" "att_ordinal b = att_ordinal a"
    by auto
  with effect(1) [rule_format, of b] x have "att_lifecycle b = Ended outcome" by simp
  with that a b \<open>att_ordinal b = att_ordinal a\<close> settled effect(3) show thesis by (simp add: life)
qed

lemma settle_nonpublication_effect:
  assumes "settle_nonpublication mid sha clock f n outcome reason failure s0 = Inr (r, s1)"
  obtains after b where "r = Applied after" "get mid (db s1) (fence_execution f) = Inr after"
    "snap_attempt after = Some b" "att_ordinal b = fence_ordinal f" "att_lifecycle b = Ended outcome"
    "exec_lifecycle (snap_execution after) \<in> settled_states outcome (fence_ordinal f)"
    "released (fence_owner f) (db s1)"
proof -
  obtain s a sa u after where fence: "require_fence mid sha f sa = Inr ((s, a), sa)"
    and s: "get mid (db sa) (fence_execution f) = Inr s" "settle clock s outcome reason sa = Inr (u, s1)"
    and after: "get mid (db s1) (fence_execution f) = Inr after" "r = Applied after"
    by (rule settle_nonpublication_Inr [OF assms])
  note known = require_fence_Inr [OF fence]
  have own: "att_ordinal a = fence_ordinal f" "att_owner a = fence_owner f"
    using known(5) by (auto simp: fence_authority_def attempt_authority_of_def)
  have "snapshot_valid s = Inr ()" using s(1) by (auto simp: get_def Let_def)
  with known(4) have "exec_owner (snap_execution s) = fence_owner f"
    using own by (auto simp: snapshot_valid_def validate_attempt_identity_def Let_def)
  with settle_effect [OF s(2,1) after(1)] known(4) own that after show thesis by (metis option.inject)
qed

subsection \<open>Replay facts\<close>

lemma or_absorbs: "(a AND b) = b \<Longrightarrow> (a OR b) = a" for a b :: int
proof (rule bit_eqI)
  fix n assume "(a AND b) = b"
  then have "bit (a AND b) n = bit b n" by simp
  then show "bit (a OR b) n \<longleftrightarrow> bit a n" by (auto simp: bit_simps)
qed

lemma replay_row_unique:
  "tables_sound mid d \<Longrightarrow> r \<in> set (replay_assessments d) \<Longrightarrow> r' \<in> set (replay_assessments d) \<Longrightarrow>
   rep_execution r' = rep_execution r \<Longrightarrow> r' = r"
  using rows_sound_unique [of replay_assessments_table d r r']
  by (simp add: tables_sound_def replay_assessments_table_def)

text \<open>Facts are collected by union: what an execution's row knew before stays known, and any new fact
  makes the execution unsafe to replay.\<close>

lemma accumulate_facts:
  assumes "accumulate x facts s0 = Inr (u, s1)" "tables_sound mid (db s0)"
    "r \<in> set (replay_assessments (db s0))" "rep_execution r = x"
  shows "\<exists>r' \<in> set (replay_assessments (db s1)). rep_execution r' = x \<and> rep_facts r' = (rep_facts r OR facts) \<and>
    (facts \<noteq> 0 \<longrightarrow> \<not> rep_safe r' \<and> rep_effects r')"
proof -
  let ?known = "list_ex (\<lambda>r. rep_execution r = x \<and> (rep_facts r AND facts) = facts \<and> \<not> rep_safe r \<and> rep_effects r)
    (replay_assessments (db s0))"
  let ?Q = "\<lambda>r. rep_execution r = x \<and> ((rep_facts r OR facts) \<noteq> rep_facts r \<or> rep_safe r \<or> \<not> rep_effects r)"
  let ?f = "\<lambda>r. r\<lparr>rep_facts := rep_facts r OR facts, rep_safe := False, rep_effects := True,
    rep_revision := rep_revision r + 1\<rparr>"
  have stored: "list_ex (\<lambda>r. rep_execution r = x) (replay_assessments (db s0))"
    using assms(3,4) by (auto simp: list_ex_iff)
  consider "facts = 0" "s1 = s0" | "facts \<noteq> 0" ?known "s1 = s0"
    | n where "facts \<noteq> 0" "update_where replay_assessments_table ?Q ?f (db s0) = Inr (n, db s1)"
    using assms(1) stored by (auto simp: accumulate_def op_simps split: if_splits)
  then show ?thesis
  proof cases
    case 1
    with assms(3,4) show ?thesis by (intro bexI [of _ r]) simp_all
  next
    case 2
    then obtain q where q: "q \<in> set (replay_assessments (db s0))" "rep_execution q = x"
      "(rep_facts q AND facts) = facts" "\<not> rep_safe q" "rep_effects q"
      by (auto simp: list_ex_iff)
    have "q = r" using replay_row_unique [OF assms(2,3) q(1)] q(2) assms(4) by simp
    with q 2 or_absorbs [OF q(3)] show ?thesis by (intro bexI [of _ r]) simp_all
  next
    case 3
    have rows: "replay_assessments (db s1) = map (\<lambda>r. if ?Q r then ?f r else r) (replay_assessments (db s0))"
      using replay_assessments_t.update_where_put [OF 3(2)] by (simp add: replay_assessments_table_def)
    show ?thesis
      by (rule bexI [of _ "if ?Q r then ?f r else r"]) (use assms(3,4) in \<open>auto simp: rows\<close>)
  qed
qed

end
