(* ===== verification/Goal_States.thy ===== *)
theory Goal_States
  imports Lifecycle_Family
begin

text \<open>
  \<open>goal_attempt_phase.py\<close>, \<open>goal_generation.py\<close> and \<open>attempt_resolution.py\<close>: the phases of one launch
  attempt of a goal, the lifecycle of a goal's generation, and what ended an attempt.
\<close>

subsection \<open>Attempt phases\<close>

datatype goal_phase =
  ReservedAttempt | ClaimedAttempt | FailedAttempt | SucceededAttempt | ResolvedAttempt

definition phase_members :: "goal_phase list" where
  "phase_members =
     [ReservedAttempt, ClaimedAttempt, FailedAttempt, SucceededAttempt, ResolvedAttempt]"

fun phase_successors :: "goal_phase \<Rightarrow> goal_phase list" where
  "phase_successors ReservedAttempt = [ClaimedAttempt, FailedAttempt, ResolvedAttempt]"
| "phase_successors ClaimedAttempt = [FailedAttempt, SucceededAttempt, ResolvedAttempt]"
| "phase_successors FailedAttempt = [ResolvedAttempt]"
| "phase_successors _ = []"

fun phase_capabilities :: "goal_phase \<Rightarrow> capability list" where
  "phase_capabilities FailedAttempt = [Failed]"
| "phase_capabilities SucceededAttempt = [Terminal]"
| "phase_capabilities ResolvedAttempt = [Terminal]"
| "phase_capabilities _ = []"

interpretation phases: lifecycle phase_members phase_successors "(=)" phase_capabilities
proof
  show "k \<in> set phase_members" for k
    by (cases k) (simp_all add: phase_members_def)
  show "distinct phase_members"
    by (simp add: phase_members_def)
  show "has_capability phase_capabilities k Terminal \<longleftrightarrow> phase_successors k = []" for k
    by (cases k) (simp_all add: has_capability_def)
qed auto

abbreviation phase_may_become :: "goal_phase \<Rightarrow> goal_phase \<Rightarrow> bool" where
  "phase_may_become \<equiv> may_become phase_successors (=)"

definition launched :: "goal_phase \<Rightarrow> bool" where
  "launched p \<longleftrightarrow> p = ClaimedAttempt"

definition verified_progress :: "goal_phase \<Rightarrow> bool" where
  "verified_progress p \<longleftrightarrow> p = SucceededAttempt"

definition phase_permits_retirement :: "goal_phase \<Rightarrow> bool" where
  "phase_permits_retirement p \<longleftrightarrow> p = FailedAttempt"

definition require_retryable :: "goal_phase \<Rightarrow> unit result" where
  "require_retryable p =
     require (p = FailedAttempt)
       (UnresolvedAttempt ''Only a blocked, recorded failure may be retried explicitly.'')"

subsection \<open>Generations\<close>

datatype generation_state =
  ReadyGeneration | ReservedGeneration | BlockedGeneration | CompletedGeneration
  | CancelledGeneration

definition generation_members :: "generation_state list" where
  "generation_members = [ReadyGeneration, ReservedGeneration, BlockedGeneration,
     CompletedGeneration, CancelledGeneration]"

fun generation_successors :: "generation_state \<Rightarrow> generation_state list" where
  "generation_successors ReadyGeneration =
     [ReadyGeneration, ReservedGeneration, CancelledGeneration]"
| "generation_successors ReservedGeneration =
     [ReadyGeneration, BlockedGeneration, CompletedGeneration, CancelledGeneration]"
| "generation_successors BlockedGeneration = [ReadyGeneration, CancelledGeneration]"
| "generation_successors _ = []"

fun generation_capabilities :: "generation_state \<Rightarrow> capability list" where
  "generation_capabilities BlockedGeneration = [Failed]"
| "generation_capabilities CompletedGeneration = [Complete, Terminal]"
| "generation_capabilities CancelledGeneration = [Terminal]"
| "generation_capabilities _ = []"

interpretation goal_generations: lifecycle generation_members generation_successors "(=)"
  generation_capabilities
proof
  show "k \<in> set generation_members" for k
    by (cases k) (simp_all add: generation_members_def)
  show "distinct generation_members"
    by (simp add: generation_members_def)
  show "has_capability generation_capabilities k Terminal \<longleftrightarrow> generation_successors k = []" for k
    by (cases k) (simp_all add: has_capability_def)
qed auto

abbreviation generation_may_become :: "generation_state \<Rightarrow> generation_state \<Rightarrow> bool" where
  "generation_may_become \<equiv> may_become generation_successors (=)"

lemma may_become_eq: "may_become successors (=) k k' \<longleftrightarrow> k' \<in> set (successors k)"
  by (simp add: may_become_def)

text \<open>\<open>validate_attempt\<close>: which lifecycles name an attempt.\<close>

fun validate_attempt :: "generation_state \<Rightarrow> string option \<Rightarrow> unit result" where
  "validate_attempt ReadyGeneration attempt =
     require (attempt = None) (ValueError ''A value was supplied where absence is required.'')"
| "validate_attempt CancelledGeneration attempt = Inr ()"
| "validate_attempt _ attempt =
     require (attempt \<noteq> None) (ValueError ''A required value is absent.'')"

fun permits_retirement_without_attempt :: "generation_state \<Rightarrow> bool" where
  "permits_retirement_without_attempt ReadyGeneration \<longleftrightarrow> True"
| "permits_retirement_without_attempt _ \<longleftrightarrow> False"

fun permits_retirement :: "generation_state \<Rightarrow> goal_phase \<Rightarrow> bool" where
  "permits_retirement ReservedGeneration p \<longleftrightarrow> phase_may_become p FailedAttempt"
| "permits_retirement BlockedGeneration p \<longleftrightarrow> phase_permits_retirement p"
| "permits_retirement _ p \<longleftrightarrow> False"

fun allows_resume :: "generation_state \<Rightarrow> bool \<Rightarrow> bool" where
  "allows_resume ReadyGeneration active_turn \<longleftrightarrow> True"
| "allows_resume ReservedGeneration active_turn \<longleftrightarrow> active_turn"
| "allows_resume _ active_turn \<longleftrightarrow> False"

subsection \<open>Decisions and resolutions\<close>

datatype work_decision =
    RetryDecision string
  | ComplianceDecision string
  | VerifiedTurnDecision string
  | OrderDecision string

datatype attempt_resolution =
    NoResolution
  | DecidedResolution work_decision
  | GoalCleared
  | OperatorStopped
  | OriginFailed
  | UnverifiedLaunchRetired

end
