(* ===== verification/Goal_Ledger.thy ===== *)
theory Goal_Ledger
  imports Goal_States Typed_Table
begin

text \<open>
  \<open>goal_attempts.py\<close> with \<open>goal_failure_observation.py\<close>: the ledger that fences the autonomous launches of
  a goal.  The durable part is one SQLite file shared by every process; a \<open>GoalAttemptStore\<close> object
  adds capabilities that live in one process only, the ready grants it was acknowledged and the
  attempts it reserved.  A change may be committed and still be reported as uncertain; the argument
  \<open>fault\<close> of an operation says where its storage failed.  Secrets, minted identities and digests
  are arguments.
\<close>

subsection \<open>Rows\<close>

record goal_generation =
  gg_goal :: string
  gg_number :: int
  gg_lifecycle :: generation_state
  gg_attempt :: "string option"
  gg_digest :: string

record reservation =
  res_goal :: string
  res_generation :: int
  res_attempt :: string
  res_token :: string

record attempt_record =
  ar_reservation :: reservation
  ar_phase :: goal_phase
  ar_witness :: "string option"
  ar_resolution :: attempt_resolution

record goal_work_decision =
  gwd_goal :: string
  gwd_decision :: work_decision
  gwd_generation :: int

record provider_usage =
  pu_attempt :: string
  pu_response :: string
  pu_usage :: string

text \<open>The bound evidence of a failed turn.  Its owner is the incarnation, a name with its time of
  birth in the stored spelling.\<close>

record failed_turn =
  ft_attempt :: string
  ft_goal :: string
  ft_generation :: int
  ft_owner :: "string \<times> string"
  ft_worktree :: string
  ft_claim_generation :: int
  ft_turn_generation :: int
  ft_goal_revision :: int
  ft_turn :: string
  ft_failure :: string
  ft_text :: string

record ledger =
  ledger_generations :: "goal_generation list"
  ledger_attempts :: "attempt_record list"
  ledger_decisions :: "goal_work_decision list"
  ledger_usages :: "provider_usage list"
  ledger_failures :: "failed_turn list"

definition empty_ledger :: ledger where
  "empty_ledger = \<lparr>ledger_generations = [], ledger_attempts = [], ledger_decisions = [],
     ledger_usages = [], ledger_failures = []\<rparr>"

subsection \<open>Tables\<close>

definition generation_rows_table :: "(ledger, goal_generation) table_spec" where
  "generation_rows_table =
     \<lparr>table_name = ''generation'', table_rows = ledger_generations,
      table_put = (\<lambda>f d. d\<lparr>ledger_generations := f (ledger_generations d)\<rparr>),
      insert_refused = (\<lambda>d r. False), update_refused = (\<lambda>d old new. False),
      row_checks = (\<lambda>r. 0 < gg_number r \<and>
        (if gg_lifecycle r = ReadyGeneration then gg_attempt r = None \<and> length (gg_digest r) = 64
         else gg_digest r = '''')),
      row_conflict = (\<lambda>r r'. gg_goal r = gg_goal r'),
      row_references = (\<lambda>d r. True), after_refused = (\<lambda>d r. False)\<rparr>"

definition attempt_records_table :: "(ledger, attempt_record) table_spec" where
  "attempt_records_table =
     \<lparr>table_name = ''attempt_record'', table_rows = ledger_attempts,
      table_put = (\<lambda>f d. d\<lparr>ledger_attempts := f (ledger_attempts d)\<rparr>),
      insert_refused = (\<lambda>d r. False), update_refused = (\<lambda>d old new. False),
      row_checks = (\<lambda>r. True),
      row_conflict = (\<lambda>r r'. let x = ar_reservation r; y = ar_reservation r' in
        x = y \<or> res_attempt x = res_attempt y \<or>
        res_goal x = res_goal y \<and> res_generation x = res_generation y),
      row_references = (\<lambda>d r. \<exists>g \<in> set (ledger_generations d). gg_goal g = res_goal (ar_reservation r)),
      after_refused = (\<lambda>d r. False)\<rparr>"

definition work_decisions_table :: "(ledger, goal_work_decision) table_spec" where
  "work_decisions_table =
     \<lparr>table_name = ''goal_work_decision'', table_rows = ledger_decisions,
      table_put = (\<lambda>f d. d\<lparr>ledger_decisions := f (ledger_decisions d)\<rparr>),
      insert_refused = (\<lambda>d r. False), update_refused = (\<lambda>d old new. False),
      row_checks = (\<lambda>r. True),
      row_conflict = (\<lambda>r r'. gwd_goal r = gwd_goal r' \<and> gwd_decision r = gwd_decision r'),
      row_references = (\<lambda>d r. \<exists>g \<in> set (ledger_generations d). gg_goal g = gwd_goal r),
      after_refused = (\<lambda>d r. False)\<rparr>"

definition provider_usages_table :: "(ledger, provider_usage) table_spec" where
  "provider_usages_table =
     \<lparr>table_name = ''goal_provider_usage'', table_rows = ledger_usages,
      table_put = (\<lambda>f d. d\<lparr>ledger_usages := f (ledger_usages d)\<rparr>),
      insert_refused = (\<lambda>d r. False), update_refused = (\<lambda>d old new. False),
      row_checks = (\<lambda>r. True),
      row_conflict = (\<lambda>r r'. pu_attempt r = pu_attempt r' \<and> pu_response r = pu_response r'),
      row_references = (\<lambda>d r. \<exists>a \<in> set (ledger_attempts d). res_attempt (ar_reservation a) = pu_attempt r),
      after_refused = (\<lambda>d r. False)\<rparr>"

definition failed_turns_table :: "(ledger, failed_turn) table_spec" where
  "failed_turns_table =
     \<lparr>table_name = ''failed_turn_evidence'', table_rows = ledger_failures,
      table_put = (\<lambda>f d. d\<lparr>ledger_failures := f (ledger_failures d)\<rparr>),
      insert_refused = (\<lambda>d r. False), update_refused = (\<lambda>d old new. False),
      row_checks = (\<lambda>r. 0 < ft_generation r \<and> 0 < ft_claim_generation r \<and> 0 < ft_turn_generation r \<and>
        0 \<le> ft_goal_revision r),
      row_conflict = (\<lambda>r r'. ft_attempt r = ft_attempt r' \<or> ft_turn r = ft_turn r'),
      row_references = (\<lambda>d r. \<exists>a \<in> set (ledger_attempts d). res_attempt (ar_reservation a) = ft_attempt r),
      after_refused = (\<lambda>d r. False)\<rparr>"

lemmas ledger_tables = generation_rows_table_def attempt_records_table_def
  work_decisions_table_def provider_usages_table_def failed_turns_table_def

interpretation generation_t: stored_table generation_rows_table
  by unfold_locales (auto simp: ledger_tables)

interpretation record_t: stored_table attempt_records_table
  by unfold_locales (auto simp: ledger_tables)

interpretation decision_t: stored_table work_decisions_table
  by unfold_locales (auto simp: ledger_tables)

interpretation usage_t: stored_table provider_usages_table
  by unfold_locales (auto simp: ledger_tables)

interpretation failure_t: stored_table failed_turns_table
  by unfold_locales (auto simp: ledger_tables)

type_synonym 'a entry = "(ledger, 'a) op"

definition enter :: "(ledger, 'r) table_spec \<Rightarrow> 'r \<Rightarrow> unit entry" where
  "enter T r d = rbind (insert_row T r d) (\<lambda>d'. Inr ((), d'))"

definition amend :: "(ledger, 'r) table_spec \<Rightarrow> ('r \<Rightarrow> bool) \<Rightarrow> ('r \<Rightarrow> 'r) \<Rightarrow> nat entry" where
  "amend T P f = update_where T P f"

subsection \<open>Generations\<close>

definition make_generation ::
  "string \<Rightarrow> int \<Rightarrow> generation_state \<Rightarrow> string option \<Rightarrow> string \<Rightarrow> goal_generation result" where
  "make_generation goal n st attempt digest =
     rbind (validate_attempt st attempt) (\<lambda>_.
     rbind (require (1 \<le> n) (ValueError ''Generation must be positive.'')) (\<lambda>_.
     Inr \<lparr>gg_goal = goal, gg_number = n, gg_lifecycle = st, gg_attempt = attempt,
          gg_digest = digest\<rparr>))"

definition generation_check :: "goal_generation \<Rightarrow> unit result" where
  "generation_check g =
     rbind (make_generation (gg_goal g) (gg_number g) (gg_lifecycle g) (gg_attempt g) (gg_digest g))
       (\<lambda>_. Inr ())"

text \<open>The digest takes no part in the comparison of generations.\<close>

definition same_generation :: "goal_generation \<Rightarrow> goal_generation \<Rightarrow> bool" where
  "same_generation g h \<longleftrightarrow> gg_goal g = gg_goal h \<and> gg_number g = gg_number h \<and>
     gg_lifecycle g = gg_lifecycle h \<and> gg_attempt g = gg_attempt h"

definition generation_one :: "ledger \<Rightarrow> string \<Rightarrow> goal_generation option result" where
  "generation_one d goal =
     (case one_row generation_check (\<lambda>g. gg_goal g = goal) (ledger_generations d) of
        Inl _ \<Rightarrow> Inl (StorageUncertain ''Invalid persisted goal generation.'')
      | Inr found \<Rightarrow> Inr found)"

definition require_generation :: "ledger \<Rightarrow> string \<Rightarrow> goal_generation result" where
  "require_generation d goal =
     rbind (generation_one d goal) (\<lambda>found.
       case found of Some g \<Rightarrow> Inr g | None \<Rightarrow> Inl (MissingGoalGeneration goal))"

text \<open>\<open>goal != Generation(...)\<close>: the stored generation of the expected goal, if there is one, equals the
  expected value.\<close>

definition expects :: "goal_generation option \<Rightarrow> goal_generation \<Rightarrow> bool" where
  "expects found g \<longleftrightarrow> (case found of None \<Rightarrow> False | Some h \<Rightarrow> same_generation h g)"

definition has_ready_grant :: "goal_generation \<Rightarrow> int \<Rightarrow> string \<Rightarrow> bool" where
  "has_ready_grant g n digest \<longleftrightarrow>
     gg_lifecycle g = ReadyGeneration \<and> gg_number g = n \<and> gg_digest g = digest"

definition grant_digest :: "(string \<Rightarrow> string) \<Rightarrow> string \<Rightarrow> string result" where
  "grant_digest sha grant =
     rbind (require (length grant = 64 \<and> list_all lower_hex grant)
              (UnresolvedAttempt ''A valid acknowledged ready grant is required.'')) (\<lambda>_.
     Inr (sha grant))"

definition generation_advance :: "goal_generation \<Rightarrow> goal_generation \<Rightarrow> string \<Rightarrow> goal_generation entry" where
  "generation_advance g successor digest =
     othen (orequire (generation_may_become (gg_lifecycle g) (gg_lifecycle successor))
              (StaleAttempt ''Generation transition is no longer permitted.''))
    (othen (amend generation_rows_table (\<lambda>r. gg_goal r = gg_goal g)
              (\<lambda>r. r\<lparr>gg_number := gg_number successor, gg_lifecycle := gg_lifecycle successor,
                    gg_attempt := gg_attempt successor, gg_digest := digest\<rparr>))
       (oreturn successor))"

subsection \<open>Attempts\<close>

text \<open>\<open>read_in\<close>: the recorded attempt of an id, or \<open>MissingAttempt\<close>.\<close>

definition read_attempt :: "ledger \<Rightarrow> string \<Rightarrow> attempt_record option" where
  "read_attempt d attempt = find (\<lambda>a. res_attempt (ar_reservation a) = attempt) (ledger_attempts d)"

definition reserved_by :: "attempt_record option \<Rightarrow> reservation \<Rightarrow> error \<Rightarrow> attempt_record result" where
  "reserved_by found r refusal =
     (case found of
        None \<Rightarrow> Inl refusal
      | Some a \<Rightarrow> if ar_reservation a = r then Inr a else Inl refusal)"

definition identified ::
  "attempt_record option \<Rightarrow> string \<Rightarrow> int \<Rightarrow> string \<Rightarrow> error \<Rightarrow> attempt_record result" where
  "identified found goal n attempt refusal =
     (case found of
        None \<Rightarrow> Inl refusal
      | Some a \<Rightarrow>
          if res_goal (ar_reservation a) = goal \<and> res_generation (ar_reservation a) = n \<and>
             res_attempt (ar_reservation a) = attempt
          then Inr a else Inl refusal)"

definition holds :: "attempt_record option \<Rightarrow> reservation \<Rightarrow> goal_phase \<Rightarrow> bool" where
  "holds found r p \<longleftrightarrow>
     (case found of None \<Rightarrow> False | Some a \<Rightarrow> ar_reservation a = r \<and> ar_phase a = p)"

definition resolved_as :: "attempt_record option \<Rightarrow> goal_phase \<Rightarrow> attempt_resolution \<Rightarrow> bool" where
  "resolved_as found p resolution \<longleftrightarrow>
     (case found of None \<Rightarrow> False | Some a \<Rightarrow> ar_phase a = p \<and> ar_resolution a = resolution)"

definition record_advance ::
  "attempt_record \<Rightarrow> goal_phase \<Rightarrow> string option \<Rightarrow> attempt_resolution \<Rightarrow> unit entry" where
  "record_advance a p witness resolution =
     othen (orequire (phase_may_become (ar_phase a) p)
              (StaleAttempt ''Attempt transition is no longer permitted.''))
    (othen (amend attempt_records_table
              (\<lambda>r. res_attempt (ar_reservation r) = res_attempt (ar_reservation a))
              (\<lambda>r. r\<lparr>ar_phase := p, ar_witness := witness, ar_resolution := resolution\<rparr>))
       (oreturn ()))"

text \<open>The generation a reservation stands for while its attempt is current.\<close>

definition reserved_generation :: "reservation \<Rightarrow> goal_generation result" where
  "reserved_generation r =
     make_generation (res_goal r) (res_generation r) ReservedGeneration (Some (res_attempt r)) ''''"

definition ready_generation :: "string \<Rightarrow> int \<Rightarrow> goal_generation result" where
  "ready_generation goal n = make_generation goal n ReadyGeneration None ''''"

definition require_current :: "reservation \<Rightarrow> goal_phase \<Rightarrow> attempt_record entry" where
  "require_current r p =
     (let stale = StaleAttempt ''Attempt is no longer current or is already claimed.'' in
      obind (ofetch (\<lambda>d. generation_one d (res_goal r))) (\<lambda>found.
      obind (ofetch (\<lambda>d. reserved_by (read_attempt d (res_attempt r)) r stale)) (\<lambda>a.
      obind (olift (reserved_generation r)) (\<lambda>g.
      othen (orequire (expects found g \<and> ar_phase a = p) stale)
        (oreturn a)))))"

subsection \<open>Changing the file\<close>

text \<open>Where storage fails: before the operation runs, as under a maintenance hold that refuses the
  transaction, before the commit is durable, or after it, at the file sync or the readback.  The
  readback of a change that did not fail is evaluated on the committed rows.\<close>

datatype fault = NoFault | BeginFailed | CommitFailed | AttestFailed

fun storage_error :: "error \<Rightarrow> error" where
  "storage_error (SqlConstraint _) = StorageUncertain ''Goal attempt write durability is uncertain.''"
| "storage_error (SqlAbort _) = StorageUncertain ''Goal attempt write durability is uncertain.''"
| "storage_error e = e"

definition change ::
  "fault \<Rightarrow> 'a entry \<Rightarrow> ('a \<Rightarrow> ledger \<Rightarrow> bool result) \<Rightarrow> ledger \<Rightarrow> 'a result \<times> ledger" where
  "change fault operation verify d =
     (if fault = BeginFailed
      then (Inl (StorageUncertain ''Goal attempt write durability is uncertain.''), d)
      else case operation d of
        Inl e \<Rightarrow> (Inl (storage_error e), d)
      | Inr (a, d') \<Rightarrow>
          (case fault of
             CommitFailed \<Rightarrow> (Inl (StorageUncertain ''Goal attempt write durability is uncertain.''), d)
           | AttestFailed \<Rightarrow> (Inl (StorageUncertain ''Goal attempt write durability is uncertain.''), d')
           | _ \<Rightarrow>
               (case verify a d' of
                  Inl e \<Rightarrow> (Inl (storage_error e), d')
                | Inr attested \<Rightarrow>
                    if attested then (Inr a, d')
                    else (Inl (StorageUncertain ''Goal attempt readback does not attest the write.''),
                          d'))))"

definition is_generation :: "goal_generation \<Rightarrow> ledger \<Rightarrow> bool result" where
  "is_generation g d = rbind (generation_one d (gg_goal g)) (\<lambda>found. Inr (expects found g))"

definition readback :: "reservation \<Rightarrow> goal_phase \<Rightarrow> goal_generation \<Rightarrow> ledger \<Rightarrow> bool result" where
  "readback r p g d =
     rbind (is_generation g d) (\<lambda>same.
       Inr (same \<and> holds (read_attempt d (res_attempt r)) r p))"

end
