(* ===== verification/Goal_Store.thy ===== *)
theory Goal_Store
  imports Goal_Ledger
begin

text \<open>
  The operations of \<open>GoalAttemptStore\<close> and of its launch permits (\<open>goal_attempts.py\<close>, \<open>goal_turn_permit.py\<close>,
  \<open>goal_generation.py\<close>), and the processes that call them.  A process holds one store object; reopening
  the store forgets its capabilities.  The world also lists the launch permits that \<open>claim_launch\<close> has
  handed out: each of them authorizes one model call.
\<close>

record store_instance =
  si_owned :: "string list"
  si_grants :: "string \<times> int \<Rightarrow> string option"

definition fresh_instance :: store_instance where
  "fresh_instance = \<lparr>si_owned = [], si_grants = (\<lambda>_. None)\<rparr>"

type_synonym 'a store_op = "store_instance \<Rightarrow> ledger \<Rightarrow> 'a result \<times> store_instance \<times> ledger"

datatype goal_turn_permit = NoLaunchPermit | LaunchPermit reservation

text \<open>Python's \<open>str.strip\<close> leaves nothing.\<close>

definition white :: "char \<Rightarrow> bool" where
  "white c \<longleftrightarrow> of_char c \<in> {9 .. 13 :: nat} \<union> {28 .. 32} \<union> {133, 160}"

definition blank :: "string \<Rightarrow> bool" where
  "blank s \<longleftrightarrow> list_all white s"

definition expected_generation ::
  "string \<Rightarrow> goal_generation result \<Rightarrow> error \<Rightarrow> goal_generation entry" where
  "expected_generation goal expected refusal =
     obind (ofetch (\<lambda>d. generation_one d goal)) (\<lambda>found.
     obind (olift expected) (\<lambda>g.
       case found of
         None \<Rightarrow> ofail refusal
       | Some current \<Rightarrow>
           othen (orequire (same_generation current g) refusal) (oreturn current)))"

subsection \<open>Ready generations\<close>

definition ready_attested :: "string \<Rightarrow> goal_generation \<Rightarrow> ledger \<Rightarrow> bool result" where
  "ready_attested digest g d =
     rbind (is_generation g d) (\<lambda>same.
       if same
       then rbind (require_generation d (gg_goal g)) (\<lambda>stored.
              Inr (has_ready_grant stored (gg_number g) digest))
       else Inr False)"

definition ready_change ::
  "(string \<Rightarrow> string) \<Rightarrow> fault \<Rightarrow> string \<Rightarrow> string \<Rightarrow> int \<Rightarrow> (string \<Rightarrow> goal_generation entry) \<Rightarrow>
   goal_generation store_op" where
  "ready_change sha fault grant goal n write st d =
     (case grant_digest sha grant of
        Inl e \<Rightarrow> (Inl e, st, d)
      | Inr digest \<Rightarrow>
          (case change fault (write digest) (ready_attested digest) d of
             (Inl e, d') \<Rightarrow> (Inl e, st, d')
           | (Inr g, d') \<Rightarrow> (Inr g, st\<lparr>si_grants := (si_grants st)((goal, n) \<mapsto> grant)\<rparr>, d')))"

definition create_write :: "string \<Rightarrow> string \<Rightarrow> goal_generation entry" where
  "create_write goal digest =
     obind (ofetch (\<lambda>d. generation_one d goal)) (\<lambda>found.
     othen (orequire (found = None) (ReservationConflict ''Goal ID already has a ledger.''))
    (obind (olift (make_generation goal 1 ReadyGeneration None digest)) (\<lambda>row.
     othen (enter generation_rows_table row) (oreturn row))))"

definition create_goal ::
  "(string \<Rightarrow> string) \<Rightarrow> fault \<Rightarrow> string \<Rightarrow> string \<Rightarrow> goal_generation store_op" where
  "create_goal sha fault grant goal st d =
     (if blank goal then (Inl (ValueError ''Goal ID is required.''), st, d)
      else ready_change sha fault grant goal 1 (create_write goal) st d)"

definition recover_write :: "string \<Rightarrow> int \<Rightarrow> string \<Rightarrow> goal_generation entry" where
  "recover_write goal n digest =
     obind (expected_generation goal (ready_generation goal n)
              (ReservationConflict ''Only an unreserved READY generation can be recovered.'')) (\<lambda>current.
     generation_advance current current digest)"

definition recover_unreserved_ready ::
  "(string \<Rightarrow> string) \<Rightarrow> fault \<Rightarrow> string \<Rightarrow> string \<Rightarrow> int \<Rightarrow> goal_generation store_op" where
  "recover_unreserved_ready sha fault grant goal n =
     ready_change sha fault grant goal n (recover_write goal n)"

text \<open>\<open>ready_grant\<close>: only a grant this object was acknowledged, and that still matches, is handed on.\<close>

definition ready_grant ::
  "(string \<Rightarrow> string) \<Rightarrow> string \<Rightarrow> int \<Rightarrow> store_instance \<Rightarrow> ledger \<Rightarrow> string result" where
  "ready_grant sha goal n st d =
     (let refusal = UnresolvedAttempt ''No acknowledged ready grant is available; decide explicitly.'' in
      case si_grants st (goal, n) of
        None \<Rightarrow> Inl refusal
      | Some grant \<Rightarrow>
          rbind (require_generation d goal) (\<lambda>g.
          rbind (grant_digest sha grant) (\<lambda>digest.
          rbind (require (has_ready_grant g n digest) refusal) (\<lambda>_. Inr grant))))"

definition resume ::
  "(string \<Rightarrow> string) \<Rightarrow> string \<Rightarrow> int \<Rightarrow> store_instance \<Rightarrow> ledger \<Rightarrow> goal_generation result" where
  "resume sha goal n st d =
     rbind (generation_one d goal) (\<lambda>found.
       case found of
         None \<Rightarrow> Inl (StaleAttempt ''Goal generation changed before resume.'')
       | Some current \<Rightarrow>
           rbind (require (gg_number current = n)
                    (StaleAttempt ''Goal generation changed before resume.'')) (\<lambda>_.
           rbind (require (gg_lifecycle current = ReadyGeneration)
                    (UnresolvedAttempt ''Explicit attempt resolution is required before resume.'')) (\<lambda>_.
           rbind (ready_grant sha goal n st d) (\<lambda>_. Inr current))))"

subsection \<open>Reserving and claiming\<close>

definition reserve_write :: "string \<Rightarrow> reservation \<Rightarrow> reservation entry" where
  "reserve_write digest r =
     obind (expected_generation (res_goal r) (ready_generation (res_goal r) (res_generation r))
              (ReservationConflict ''Goal generation is not ready or already reserved.'')) (\<lambda>current.
     othen (orequire (gg_digest current = digest)
              (UnresolvedAttempt ''Ready grant is stale or was never acknowledged.''))
    (othen (enter attempt_records_table
              \<lparr>ar_reservation = r, ar_phase = ReservedAttempt, ar_witness = None,
               ar_resolution = NoResolution\<rparr>)
    (obind (olift (reserved_generation r)) (\<lambda>g.
     othen (generation_advance current g '''')
       (oreturn r)))))"

definition attested :: "goal_phase \<Rightarrow> reservation \<Rightarrow> ledger \<Rightarrow> bool result" where
  "attested p r d = rbind (reserved_generation r) (\<lambda>g. readback r p g d)"

definition reserve ::
  "(string \<Rightarrow> string) \<Rightarrow> fault \<Rightarrow> string option \<Rightarrow> reservation \<Rightarrow> reservation store_op" where
  "reserve sha fault given r st d =
     (let key = (res_goal r, res_generation r) in
      case (case given of Some grant \<Rightarrow> Some grant | None \<Rightarrow> si_grants st key) of
        None \<Rightarrow>
          (rbind (generation_one d (res_goal r)) (\<lambda>found.
             case found of
               None \<Rightarrow> Inl (ReservationConflict ''Goal generation is not ready or already reserved.'')
             | Some current \<Rightarrow>
                 if gg_number current = res_generation r \<and> gg_lifecycle current = ReadyGeneration
                 then Inl (UnresolvedAttempt ''No acknowledged ready grant; explicit recovery is required.'')
                 else Inl (ReservationConflict ''Goal generation is not ready or already reserved.'')),
           st, d)
      | Some grant \<Rightarrow>
          (case grant_digest sha grant of
             Inl e \<Rightarrow> (Inl e, st, d)
           | Inr digest \<Rightarrow>
               (case change fault (reserve_write digest r) (attested ReservedAttempt) d of
                  (Inl e, d') \<Rightarrow> (Inl e, st, d')
                | (Inr v, d') \<Rightarrow>
                    (Inr v, st\<lparr>si_grants := (si_grants st)(key := None),
                              si_owned := res_attempt r # si_owned st\<rparr>, d'))))"

definition claim_write :: "reservation \<Rightarrow> reservation entry" where
  "claim_write r =
     obind (require_current r ReservedAttempt) (\<lambda>current.
     othen (record_advance current ClaimedAttempt None NoResolution)
       (oreturn r))"

definition claim_launch :: "fault \<Rightarrow> reservation \<Rightarrow> goal_turn_permit store_op" where
  "claim_launch fault r st d =
     (if res_attempt r \<notin> set (si_owned st)
      then (Inl (UnresolvedAttempt ''A reservation cannot be replayed after owner loss.''), st, d)
      else
        let st' = st\<lparr>si_owned := removeAll (res_attempt r) (si_owned st)\<rparr> in
        case change fault (claim_write r) (attested ClaimedAttempt) d of
          (Inl e, d') \<Rightarrow> (Inl e, st', d')
        | (Inr v, d') \<Rightarrow> (Inr (LaunchPermit v), st', d'))"

text \<open>\<open>ReadyGeneration.turn_permit\<close>: reserve with the grant its owner holds, then claim.\<close>

definition turn_permit ::
  "(string \<Rightarrow> string) \<Rightarrow> fault \<Rightarrow> fault \<Rightarrow> string \<Rightarrow> reservation \<Rightarrow> goal_generation \<Rightarrow>
   goal_turn_permit store_op" where
  "turn_permit sha fault fault' grant r g st d =
     (if gg_lifecycle g = ReadyGeneration
      then case reserve sha fault (Some grant) (r\<lparr>res_goal := gg_goal g, res_generation := gg_number g\<rparr>) st d of
             (Inl e, st', d') \<Rightarrow> (Inl e, st', d')
           | (Inr v, st', d') \<Rightarrow> claim_launch fault' v st' d'
      else (Inr NoLaunchPermit, st, d))"

subsection \<open>Ending an attempt\<close>

text \<open>\<open>record_observation\<close>: evidence bound to another attempt, or refused by its table, is dropped.\<close>

definition record_observation :: "reservation \<Rightarrow> reservation \<times> failed_turn \<Rightarrow> unit entry" where
  "record_observation r observation d =
     (let (bound, e) = observation in
      if bound \<noteq> r \<or> ft_goal e \<noteq> res_goal r \<or> ft_generation e \<noteq> res_generation r \<or>
         ft_attempt e \<noteq> res_attempt r
      then Inr ((), d)
      else case enter failed_turns_table e d of
             Inl _ \<Rightarrow> Inr ((), d)
           | Inr entered \<Rightarrow> Inr entered)"

definition fail_write ::
  "reservation \<Rightarrow> attempt_resolution \<Rightarrow> (reservation \<times> failed_turn) option \<Rightarrow> goal_generation entry" where
  "fail_write r diagnostic observation =
     (let late = StaleAttempt ''Late failure cannot modify this goal generation.'' in
      obind (ofetch (\<lambda>d. generation_one d (res_goal r))) (\<lambda>found.
      obind (ofetch (\<lambda>d. reserved_by (read_attempt d (res_attempt r)) r late)) (\<lambda>a.
      obind (olift (reserved_generation r)) (\<lambda>current.
      othen (orequire (expects found current \<and> phase_may_become (ar_phase a) FailedAttempt) late)
     (othen (record_advance a FailedAttempt None diagnostic)
     (othen (case observation of
               None \<Rightarrow> oreturn ()
             | Some evidence \<Rightarrow>
                 if launched (ar_phase a) then record_observation r evidence else oreturn ())
     (obind (olift (make_generation (res_goal r) (res_generation r) BlockedGeneration
                      (Some (res_attempt r)) '''')) (\<lambda>blocked.
      generation_advance current blocked ''''))))))))"

definition fail ::
  "fault \<Rightarrow> attempt_resolution \<Rightarrow> (reservation \<times> failed_turn) option \<Rightarrow> reservation \<Rightarrow>
   goal_generation store_op" where
  "fail fault diagnostic observation r st d =
     (case change fault (fail_write r diagnostic observation) (readback r FailedAttempt) d of
        (result, d') \<Rightarrow> (result, st, d'))"

text \<open>\<open>suppress(StaleAttemptError)\<close>.\<close>

fun suppressed :: "'a result \<times> 's \<Rightarrow> unit result \<times> 's" where
  "suppressed (Inl (StaleAttempt _), rest) = (Inr (), rest)"
| "suppressed (Inl e, rest) = (Inl e, rest)"
| "suppressed (Inr _, rest) = (Inr (), rest)"

definition retire_unverified :: "fault \<Rightarrow> reservation \<Rightarrow> unit store_op" where
  "retire_unverified fault r st d = suppressed (fail fault UnverifiedLaunchRetired None r st d)"

text \<open>The evidence of an attempt that makes its goal ready again: a verified progress witness of a
  success, the resolution of a failure.\<close>

datatype ready_evidence = Progressed string | Resolved attempt_resolution

fun record_ready :: "attempt_record \<Rightarrow> ready_evidence \<Rightarrow> unit entry" where
  "record_ready a (Progressed witness) = record_advance a SucceededAttempt (Some witness) NoResolution"
| "record_ready a (Resolved resolution) = record_advance a FailedAttempt None resolution"

definition advance_write :: "reservation \<Rightarrow> ready_evidence \<Rightarrow> string \<Rightarrow> goal_generation entry" where
  "advance_write r evidence digest =
     obind (require_current r ClaimedAttempt) (\<lambda>a.
     othen (record_ready a evidence)
    (obind (olift (reserved_generation r)) (\<lambda>current.
     obind (olift (ready_generation (res_goal r) (res_generation r + 1))) (\<lambda>successor.
     generation_advance current successor digest))))"

definition advance_ready ::
  "(string \<Rightarrow> string) \<Rightarrow> fault \<Rightarrow> string \<Rightarrow> ready_evidence \<Rightarrow> reservation \<Rightarrow> goal_generation store_op" where
  "advance_ready sha fault grant evidence r =
     ready_change sha fault grant (res_goal r) (res_generation r + 1) (advance_write r evidence)"

definition record_verified_progress ::
  "(string \<Rightarrow> string) \<Rightarrow> fault \<Rightarrow> string \<Rightarrow> string \<Rightarrow> reservation \<Rightarrow> goal_generation store_op" where
  "record_verified_progress sha fault grant witness r st d =
     (if blank witness
      then (Inl (ValueError ''A nonempty verified progress witness is required.''), st, d)
      else advance_ready sha fault grant (Progressed witness) r st d)"

definition has_verified_progress :: "reservation \<Rightarrow> ledger \<Rightarrow> bool result" where
  "has_verified_progress r d =
     rbind (reserved_by (read_attempt d (res_attempt r)) r
              (StaleAttempt ''Original launch attempt changed or is unavailable.'')) (\<lambda>a.
     Inr (verified_progress (ar_phase a)))"

definition stop_launch ::
  "(string \<Rightarrow> string) \<Rightarrow> fault \<Rightarrow> string \<Rightarrow> reservation \<Rightarrow> unit store_op" where
  "stop_launch sha fault grant r st d =
     (case has_verified_progress r d of
        Inl e \<Rightarrow> (Inl e, st, d)
      | Inr verified \<Rightarrow>
          if verified then (Inr (), st, d)
          else
            (case advance_ready sha fault grant (Resolved OperatorStopped) r st d of
               (Inl e, rest) \<Rightarrow> (Inl e, rest)
             | (Inr _, rest) \<Rightarrow> (Inr (), rest)))"

definition complete_write :: "reservation \<Rightarrow> string \<Rightarrow> goal_generation entry" where
  "complete_write r witness =
     obind (require_current r ClaimedAttempt) (\<lambda>a.
     othen (record_advance a SucceededAttempt (Some witness) NoResolution)
    (obind (olift (reserved_generation r)) (\<lambda>current.
     obind (olift (make_generation (res_goal r) (res_generation r) CompletedGeneration
                     (Some (res_attempt r)) '''')) (\<lambda>finished.
     generation_advance current finished ''''))))"

definition record_verified_completion ::
  "fault \<Rightarrow> string \<Rightarrow> reservation \<Rightarrow> goal_generation store_op" where
  "record_verified_completion fault witness r st d =
     (if blank witness
      then (Inl (ValueError ''A nonempty verified completion witness is required.''), st, d)
      else
        (case change fault (complete_write r witness) (readback r SucceededAttempt) d of
           (result, d') \<Rightarrow> (result, st, d')))"

definition usage_of :: "ledger \<Rightarrow> string \<Rightarrow> string \<Rightarrow> provider_usage option" where
  "usage_of d attempt response =
     find (\<lambda>u. pu_attempt u = attempt \<and> pu_response u = response) (ledger_usages d)"

definition usage_write :: "reservation \<Rightarrow> string \<Rightarrow> string \<Rightarrow> string entry" where
  "usage_write r response raw =
     othen (require_current r ClaimedAttempt)
    (obind (oread (\<lambda>d. usage_of d (res_attempt r) response)) (\<lambda>row.
     case row of
       Some u \<Rightarrow>
         othen (orequire (pu_usage u = raw) (ValueError ''Provider response ID has different usage.''))
           (oreturn raw)
     | None \<Rightarrow>
         othen (enter provider_usages_table
                  \<lparr>pu_attempt = res_attempt r, pu_response = response, pu_usage = raw\<rparr>)
           (oreturn raw)))"

definition record_provider_usage :: "fault \<Rightarrow> string \<Rightarrow> string \<Rightarrow> reservation \<Rightarrow> unit store_op" where
  "record_provider_usage fault response raw r st d =
     (case change fault (usage_write r response raw)
             (\<lambda>expected d. Inr (map_option pu_usage (usage_of d (res_attempt r) response) = Some expected)) d of
        (Inl e, d') \<Rightarrow> (Inl e, st, d')
      | (Inr _, d') \<Rightarrow> (Inr (), st, d'))"

subsection \<open>Explicit decisions\<close>

definition claim_decision :: "string \<Rightarrow> work_decision \<Rightarrow> int \<Rightarrow> unit entry" where
  "claim_decision goal decision n d =
     (case enter work_decisions_table
             \<lparr>gwd_goal = goal, gwd_decision = decision, gwd_generation = n\<rparr> d of
        Inl _ \<Rightarrow> Inl (UnresolvedAttempt ''That work decision was already used.'')
      | Inr entered \<Rightarrow> Inr entered)"

definition ready_recovery_write :: "string \<Rightarrow> int \<Rightarrow> work_decision \<Rightarrow> string \<Rightarrow> goal_generation entry" where
  "ready_recovery_write goal n decision digest =
     obind (expected_generation goal (ready_generation goal n)
              (UnresolvedAttempt ''Goal is not ready; an attempt may already be unresolved.'')) (\<lambda>current.
     othen (claim_decision goal decision n)
    (obind (olift (ready_generation goal (n + 1))) (\<lambda>successor.
     generation_advance current successor digest)))"

definition authorize_ready_recovery ::
  "(string \<Rightarrow> string) \<Rightarrow> fault \<Rightarrow> string \<Rightarrow> string \<Rightarrow> int \<Rightarrow> work_decision \<Rightarrow> goal_generation store_op" where
  "authorize_ready_recovery sha fault grant goal n decision =
     ready_change sha fault grant goal (n + 1) (ready_recovery_write goal n decision)"

definition retry_write ::
  "string \<Rightarrow> int \<Rightarrow> string \<Rightarrow> work_decision \<Rightarrow> string \<Rightarrow> goal_generation entry" where
  "retry_write goal n attempt decision digest =
     obind (expected_generation goal (make_generation goal n BlockedGeneration (Some attempt) '''')
              (UnresolvedAttempt ''Blocked attempt changed or is not resolved.'')) (\<lambda>current.
     obind (ofetch (\<lambda>d. identified (read_attempt d attempt) goal n attempt
              (UnresolvedAttempt ''Only a blocked, recorded failure may be retried explicitly.''))) (\<lambda>a.
     othen (olift (require_retryable (ar_phase a)))
    (othen (claim_decision goal decision n)
    (othen (record_advance a ResolvedAttempt None (DecidedResolution decision))
    (obind (olift (ready_generation goal (n + 1))) (\<lambda>successor.
     generation_advance current successor digest))))))"

definition goal_authorize_retry ::
  "(string \<Rightarrow> string) \<Rightarrow> fault \<Rightarrow> string \<Rightarrow> string \<Rightarrow> int \<Rightarrow> string \<Rightarrow> work_decision \<Rightarrow>
   goal_generation store_op" where
  "goal_authorize_retry sha fault grant goal n attempt decision =
     ready_change sha fault grant goal (n + 1) (retry_write goal n attempt decision)"

text \<open>\<open>GenerationState.authorize_retry\<close>, member by member.\<close>

fun lifecycle_authorize_retry ::
  "(string \<Rightarrow> string) \<Rightarrow> fault \<Rightarrow> string \<Rightarrow> goal_generation \<Rightarrow> work_decision \<Rightarrow> generation_state \<Rightarrow>
   goal_generation store_op" where
  "lifecycle_authorize_retry sha fault grant g decision ReadyGeneration st d =
     authorize_ready_recovery sha fault grant (gg_goal g) (gg_number g) decision st d"
| "lifecycle_authorize_retry sha fault grant g decision ReservedGeneration st d =
     (Inl (GoalRefused ''The goal generation is reserved; Retry cannot replace it.''), st, d)"
| "lifecycle_authorize_retry sha fault grant g decision BlockedGeneration st d =
     (case gg_attempt g of
        None \<Rightarrow> (Inl (ValueError ''A required value is absent.''), st, d)
      | Some attempt \<Rightarrow>
          goal_authorize_retry sha fault grant (gg_goal g) (gg_number g) attempt decision st d)"
| "lifecycle_authorize_retry sha fault grant g decision CompletedGeneration st d =
     (Inl (GoalRefused ''The goal generation is completed; Retry cannot restart completed work.''), st, d)"
| "lifecycle_authorize_retry sha fault grant g decision CancelledGeneration st d =
     (Inl (GoalRefused ''The goal generation is cancelled; Retry cannot restart cancelled work.''), st, d)"

definition authorize_current_retry ::
  "(string \<Rightarrow> string) \<Rightarrow> fault \<Rightarrow> string \<Rightarrow> string \<Rightarrow> work_decision \<Rightarrow> goal_generation store_op" where
  "authorize_current_retry sha fault grant goal decision st d =
     (case require_generation d goal of
        Inl e \<Rightarrow> (Inl e, st, d)
      | Inr g \<Rightarrow> lifecycle_authorize_retry sha fault grant g decision (gg_lifecycle g) st d)"

subsection \<open>Retirement\<close>

text \<open>\<open>LedgerAttempt.retire\<close>: without a named attempt, with a missing record, with a record.\<close>

definition retire_attempt :: "goal_generation \<Rightarrow> string option \<Rightarrow> unit entry" where
  "retire_attempt g attempt =
     (case attempt of
        None \<Rightarrow>
          orequire (permits_retirement_without_attempt (gg_lifecycle g))
            (StaleAttempt ''Goal or attempt is no longer eligible for retirement.'')
      | Some identity \<Rightarrow>
          obind (ofetch (\<lambda>d. identified (read_attempt d identity) (gg_goal g) (gg_number g) identity
                   (StaleAttempt ''Unresolved goal has no matching attempt to retire.''))) (\<lambda>a.
          othen (orequire (permits_retirement (gg_lifecycle g) (ar_phase a))
                   (StaleAttempt ''Goal or attempt is no longer eligible for retirement.''))
            (record_advance a ResolvedAttempt None GoalCleared)))"

definition retire_write :: "string \<Rightarrow> int \<Rightarrow> string option \<Rightarrow> goal_generation entry" where
  "retire_write goal n attempt =
     (let changed = StaleAttempt ''Goal generation or attempt changed before retirement.'' in
      obind (ofetch (\<lambda>d. generation_one d goal)) (\<lambda>found.
      case found of
        None \<Rightarrow> ofail changed
      | Some current \<Rightarrow>
          othen (orequire (gg_number current = n \<and> gg_attempt current = attempt) changed)
         (othen (retire_attempt current attempt)
         (obind (olift (make_generation goal n CancelledGeneration attempt '''')) (\<lambda>cancelled.
          generation_advance current cancelled '''')))))"

definition retire_attested :: "string option \<Rightarrow> goal_generation \<Rightarrow> ledger \<Rightarrow> bool result" where
  "retire_attested attempt g d =
     rbind (is_generation g d) (\<lambda>same.
       Inr (same \<and> (case attempt of
          None \<Rightarrow> True
        | Some identity \<Rightarrow> resolved_as (read_attempt d identity) ResolvedAttempt GoalCleared)))"

definition retire_goal :: "fault \<Rightarrow> string \<Rightarrow> int \<Rightarrow> string option \<Rightarrow> goal_generation store_op" where
  "retire_goal fault goal n attempt st d =
     (case change fault (retire_write goal n attempt) (retire_attested attempt) d of
        (Inl e, d') \<Rightarrow> (Inl e, st, d')
      | (Inr g, d') \<Rightarrow>
          (Inr g,
           st\<lparr>si_grants := (si_grants st)((goal, n) := None),
              si_owned := (case attempt of None \<Rightarrow> si_owned st
                           | Some identity \<Rightarrow> removeAll identity (si_owned st))\<rparr>,
           d'))"

text \<open>\<open>fail_origin\<close> of a permit and of a turn without one.\<close>

fun fail_origin :: "fault \<Rightarrow> goal_turn_permit \<Rightarrow> string \<Rightarrow> unit store_op" where
  "fail_origin fault (LaunchPermit r) goal st d = suppressed (fail fault OriginFailed None r st d)"
| "fail_origin fault NoLaunchPermit goal st d =
     (case generation_one d goal of
        Inl e \<Rightarrow> (Inl e, st, d)
      | Inr None \<Rightarrow> (Inr (), st, d)
      | Inr (Some g) \<Rightarrow>
          if allows_resume (gg_lifecycle g) True
          then case retire_goal fault goal (gg_number g) (gg_attempt g) st d of
                 (Inl e, rest) \<Rightarrow> (Inl e, rest)
               | (Inr _, rest) \<Rightarrow> (Inr (), rest)
          else (Inr (), st, d))"

text \<open>\<open>stopped_permit\<close>: the permit with which an operator stops what is reserved.\<close>

definition stopped_permit :: "ledger \<Rightarrow> string \<Rightarrow> goal_turn_permit result" where
  "stopped_permit d goal =
     rbind (require_generation d goal) (\<lambda>g.
       if gg_lifecycle g = ReservedGeneration
       then case gg_attempt g of
              None \<Rightarrow> Inl (ValueError ''A required value is absent.'')
            | Some attempt \<Rightarrow>
                (case read_attempt d attempt of
                   None \<Rightarrow> Inl (StorageUncertain (''Goal attempt '' @ attempt @ '' has no ledger row.''))
                 | Some a \<Rightarrow> Inr (LaunchPermit (ar_reservation a)))
       else Inr NoLaunchPermit)"

definition is_claimed :: "reservation \<Rightarrow> ledger \<Rightarrow> bool result" where
  "is_claimed r d = attested ClaimedAttempt r d"

subsection \<open>Processes\<close>

datatype goal_request =
    CreateGoal string string
  | RecoverReady string string int
  | Reserve "string option" reservation
  | ClaimLaunch reservation
  | TurnPermit fault string reservation goal_generation
  | FailAttempt attempt_resolution "(reservation \<times> failed_turn) option" reservation
  | RetireUnverified reservation
  | VerifiedProgress string string reservation
  | StopLaunch string reservation
  | VerifiedCompletion string reservation
  | ProviderUsage string string reservation
  | AuthorizeReadyRecovery string string int work_decision
  | AuthorizeRetry string string int string work_decision
  | AuthorizeCurrentRetry string string work_decision
  | RetireGoal string int "string option"
  | FailOrigin goal_turn_permit string

definition quiet :: "'a result \<times> 's \<Rightarrow> goal_turn_permit result \<times> 's" where
  "quiet outcome =
     (case outcome of (Inl e, rest) \<Rightarrow> (Inl e, rest) | (Inr _, rest) \<Rightarrow> (Inr NoLaunchPermit, rest))"

fun serve :: "(string \<Rightarrow> string) \<Rightarrow> fault \<Rightarrow> goal_request \<Rightarrow> goal_turn_permit store_op" where
  "serve sha fault (CreateGoal grant goal) st d = quiet (create_goal sha fault grant goal st d)"
| "serve sha fault (RecoverReady grant goal n) st d =
     quiet (recover_unreserved_ready sha fault grant goal n st d)"
| "serve sha fault (Reserve given r) st d = quiet (reserve sha fault given r st d)"
| "serve sha fault (ClaimLaunch r) st d = claim_launch fault r st d"
| "serve sha fault (TurnPermit fault' grant r g) st d = turn_permit sha fault fault' grant r g st d"
| "serve sha fault (FailAttempt resolution observation r) st d =
     quiet (fail fault resolution observation r st d)"
| "serve sha fault (RetireUnverified r) st d = quiet (retire_unverified fault r st d)"
| "serve sha fault (VerifiedProgress grant witness r) st d =
     quiet (record_verified_progress sha fault grant witness r st d)"
| "serve sha fault (StopLaunch grant r) st d = quiet (stop_launch sha fault grant r st d)"
| "serve sha fault (VerifiedCompletion witness r) st d =
     quiet (record_verified_completion fault witness r st d)"
| "serve sha fault (ProviderUsage response raw r) st d =
     quiet (record_provider_usage fault response raw r st d)"
| "serve sha fault (AuthorizeReadyRecovery grant goal n decision) st d =
     quiet (authorize_ready_recovery sha fault grant goal n decision st d)"
| "serve sha fault (AuthorizeRetry grant goal n attempt decision) st d =
     quiet (goal_authorize_retry sha fault grant goal n attempt decision st d)"
| "serve sha fault (AuthorizeCurrentRetry grant goal decision) st d =
     quiet (authorize_current_retry sha fault grant goal decision st d)"
| "serve sha fault (RetireGoal goal n attempt) st d = quiet (retire_goal fault goal n attempt st d)"
| "serve sha fault (FailOrigin permit goal) st d = quiet (fail_origin fault permit goal st d)"

record goal_world =
  gw_ledger :: ledger
  gw_stores :: "nat \<Rightarrow> store_instance"
  gw_permits :: "reservation list"

definition empty_goal_world :: goal_world where
  "empty_goal_world = \<lparr>gw_ledger = empty_ledger, gw_stores = (\<lambda>_. fresh_instance), gw_permits = []\<rparr>"

datatype goal_call = Reopen nat | Request nat fault goal_request

fun granted :: "goal_turn_permit result \<Rightarrow> reservation list" where
  "granted (Inr (LaunchPermit r)) = [r]"
| "granted _ = []"

fun goal_perform :: "(string \<Rightarrow> string) \<Rightarrow> goal_call \<Rightarrow> goal_world \<Rightarrow> goal_world" where
  "goal_perform sha (Reopen i) w = w\<lparr>gw_stores := (gw_stores w)(i := fresh_instance)\<rparr>"
| "goal_perform sha (Request i fault request) w =
     (case serve sha fault request (gw_stores w i) (gw_ledger w) of
        (result, st, d) \<Rightarrow>
          \<lparr>gw_ledger = d, gw_stores = (gw_stores w)(i := st),
           gw_permits = gw_permits w @ granted result\<rparr>)"

definition goal_run :: "(string \<Rightarrow> string) \<Rightarrow> goal_call list \<Rightarrow> goal_world" where
  "goal_run sha calls = foldl (\<lambda>w c. goal_perform sha c w) empty_goal_world calls"

end
