(* ===== verification/Goal_Protocol.thy ===== *)
theory Goal_Protocol
  imports Goal_Store
begin

text \<open>
  The ledger as a state machine: \<open>ledger_step\<close> has one rule per kind of transaction, with what the
  transaction found and what it wrote.  Every operation of the store, whatever its storage does,
  changes the ledger by such steps, so the runs of the processes stay among the states the machine
  reaches; the invariants are shown on the machine.
\<close>

subsection \<open>Transactions\<close>

definition set_generation ::
  "string \<Rightarrow> int \<Rightarrow> generation_state \<Rightarrow> string option \<Rightarrow> string \<Rightarrow> ledger \<Rightarrow> ledger" where
  "set_generation goal n st attempt digest d =
     d\<lparr>ledger_generations := map (\<lambda>r. if gg_goal r = goal
         then r\<lparr>gg_number := n, gg_lifecycle := st, gg_attempt := attempt, gg_digest := digest\<rparr> else r)
         (ledger_generations d)\<rparr>"

definition set_phase ::
  "string \<Rightarrow> goal_phase \<Rightarrow> string option \<Rightarrow> attempt_resolution \<Rightarrow> ledger \<Rightarrow> ledger" where
  "set_phase attempt p witness resolution d =
     d\<lparr>ledger_attempts := map (\<lambda>r. if res_attempt (ar_reservation r) = attempt
         then r\<lparr>ar_phase := p, ar_witness := witness, ar_resolution := resolution\<rparr> else r)
         (ledger_attempts d)\<rparr>"

text \<open>The attempt that holds its goal's generation.\<close>

definition held :: "ledger \<Rightarrow> reservation \<Rightarrow> attempt_record \<Rightarrow> bool" where
  "held d r a \<longleftrightarrow> a \<in> set (ledger_attempts d) \<and> ar_reservation a = r \<and>
     (\<exists>g \<in> set (ledger_generations d). gg_goal g = res_goal r \<and> gg_number g = res_generation r \<and>
        gg_lifecycle g = ReservedGeneration \<and> gg_attempt g = Some (res_attempt r))"

definition unused :: "ledger \<Rightarrow> string \<Rightarrow> work_decision \<Rightarrow> bool" where
  "unused d goal decision \<longleftrightarrow>
     (\<forall>w \<in> set (ledger_decisions d). \<not> (gwd_goal w = goal \<and> gwd_decision w = decision))"

inductive ledger_step :: "ledger \<Rightarrow> ledger \<Rightarrow> bool" where
  created: "\<forall>g \<in> set (ledger_generations d). gg_goal g \<noteq> goal \<Longrightarrow>
    ledger_step d (d\<lparr>ledger_generations := ledger_generations d @
      [\<lparr>gg_goal = goal, gg_number = 1, gg_lifecycle = ReadyGeneration, gg_attempt = None,
        gg_digest = digest\<rparr>]\<rparr>)"
| rotated: "g \<in> set (ledger_generations d) \<Longrightarrow> gg_lifecycle g = ReadyGeneration \<Longrightarrow>
    ledger_step d (set_generation (gg_goal g) (gg_number g) ReadyGeneration None digest d)"
| reserved: "g \<in> set (ledger_generations d) \<Longrightarrow> gg_lifecycle g = ReadyGeneration \<Longrightarrow>
    gg_goal g = res_goal r \<Longrightarrow> gg_number g = res_generation r \<Longrightarrow>
    \<forall>a \<in> set (ledger_attempts d). res_attempt (ar_reservation a) \<noteq> res_attempt r \<and>
      \<not> (res_goal (ar_reservation a) = res_goal r \<and> res_generation (ar_reservation a) = res_generation r) \<Longrightarrow>
    ledger_step d (set_generation (res_goal r) (res_generation r) ReservedGeneration
      (Some (res_attempt r)) '''' (d\<lparr>ledger_attempts := ledger_attempts d @
        [\<lparr>ar_reservation = r, ar_phase = ReservedAttempt, ar_witness = None,
          ar_resolution = NoResolution\<rparr>]\<rparr>))"
| claimed: "held d r a \<Longrightarrow> ar_phase a = ReservedAttempt \<Longrightarrow>
    ledger_step d (set_phase (res_attempt r) ClaimedAttempt None NoResolution d)"
| failed: "held d r a \<Longrightarrow> ar_phase a = ReservedAttempt \<or> ar_phase a = ClaimedAttempt \<Longrightarrow>
    ledger_step d (set_generation (res_goal r) (res_generation r) BlockedGeneration
      (Some (res_attempt r)) '''' (set_phase (res_attempt r) FailedAttempt None resolution
        (d\<lparr>ledger_failures := ledger_failures d @ evidence\<rparr>)))"
| advanced: "held d r a \<Longrightarrow> ar_phase a = ClaimedAttempt \<Longrightarrow>
    p = SucceededAttempt \<or> p = FailedAttempt \<Longrightarrow>
    ledger_step d (set_generation (res_goal r) (res_generation r + 1) ReadyGeneration None digest
      (set_phase (res_attempt r) p witness resolution d))"
| completed: "held d r a \<Longrightarrow> ar_phase a = ClaimedAttempt \<Longrightarrow>
    ledger_step d (set_generation (res_goal r) (res_generation r) CompletedGeneration
      (Some (res_attempt r)) '''' (set_phase (res_attempt r) SucceededAttempt witness NoResolution d))"
| charged: "held d r a \<Longrightarrow> ar_phase a = ClaimedAttempt \<Longrightarrow>
    \<forall>u \<in> set (ledger_usages d). \<not> (pu_attempt u = res_attempt r \<and> pu_response u = response) \<Longrightarrow>
    ledger_step d (d\<lparr>ledger_usages := ledger_usages d @
      [\<lparr>pu_attempt = res_attempt r, pu_response = response, pu_usage = raw\<rparr>]\<rparr>)"
| decided: "g \<in> set (ledger_generations d) \<Longrightarrow> gg_lifecycle g = ReadyGeneration \<Longrightarrow>
    unused d (gg_goal g) decision \<Longrightarrow>
    ledger_step d (set_generation (gg_goal g) (gg_number g + 1) ReadyGeneration None digest
      (d\<lparr>ledger_decisions := ledger_decisions d @
        [\<lparr>gwd_goal = gg_goal g, gwd_decision = decision, gwd_generation = gg_number g\<rparr>]\<rparr>))"
| retried: "g \<in> set (ledger_generations d) \<Longrightarrow> gg_lifecycle g = BlockedGeneration \<Longrightarrow>
    gg_attempt g = Some attempt \<Longrightarrow> a \<in> set (ledger_attempts d) \<Longrightarrow>
    res_goal (ar_reservation a) = gg_goal g \<Longrightarrow> res_generation (ar_reservation a) = gg_number g \<Longrightarrow>
    res_attempt (ar_reservation a) = attempt \<Longrightarrow> ar_phase a = FailedAttempt \<Longrightarrow>
    unused d (gg_goal g) decision \<Longrightarrow>
    ledger_step d (set_generation (gg_goal g) (gg_number g + 1) ReadyGeneration None digest
      (set_phase attempt ResolvedAttempt None (DecidedResolution decision)
        (d\<lparr>ledger_decisions := ledger_decisions d @
          [\<lparr>gwd_goal = gg_goal g, gwd_decision = decision, gwd_generation = gg_number g\<rparr>]\<rparr>)))"
| withdrawn: "g \<in> set (ledger_generations d) \<Longrightarrow> gg_lifecycle g = ReadyGeneration \<Longrightarrow>
    ledger_step d (set_generation (gg_goal g) (gg_number g) CancelledGeneration None '''' d)"
| retired: "g \<in> set (ledger_generations d) \<Longrightarrow> gg_attempt g = Some attempt \<Longrightarrow>
    a \<in> set (ledger_attempts d) \<Longrightarrow> res_goal (ar_reservation a) = gg_goal g \<Longrightarrow>
    res_generation (ar_reservation a) = gg_number g \<Longrightarrow> res_attempt (ar_reservation a) = attempt \<Longrightarrow>
    permits_retirement (gg_lifecycle g) (ar_phase a) \<Longrightarrow>
    ledger_step d (set_generation (gg_goal g) (gg_number g) CancelledGeneration (Some attempt) ''''
      (set_phase attempt ResolvedAttempt None GoalCleared d))"

subsection \<open>What the writes find and write\<close>

lemma generation_one_Some:
  "generation_one d goal = Inr (Some g) \<Longrightarrow>
   g \<in> set (ledger_generations d) \<and> gg_goal g = goal \<and> generation_check g = Inr ()"
  by (auto simp: generation_one_def split: sum.splits dest: one_row_Some)

lemma generation_one_None:
  "generation_one d goal = Inr None \<Longrightarrow> g \<in> set (ledger_generations d) \<Longrightarrow> gg_goal g \<noteq> goal"
  by (auto simp: generation_one_def filter_empty_conv split: sum.splits dest!: one_row_None)

lemma make_generation_Inr [simp]:
  "make_generation goal n st attempt digest = Inr g \<longleftrightarrow>
     validate_attempt st attempt = Inr () \<and> 1 \<le> n \<and>
     g = \<lparr>gg_goal = goal, gg_number = n, gg_lifecycle = st, gg_attempt = attempt, gg_digest = digest\<rparr>"
  by (auto simp: make_generation_def)

lemma read_attempt_Some:
  "read_attempt d attempt = Some a \<Longrightarrow>
   a \<in> set (ledger_attempts d) \<and> res_attempt (ar_reservation a) = attempt"
  by (auto simp: read_attempt_def dest: find_Some_in)

lemma reserved_by_Inr: "reserved_by found r e = Inr a \<longleftrightarrow> found = Some a \<and> ar_reservation a = r"
  by (auto simp: reserved_by_def split: option.splits)

lemma identified_Inr:
  "identified found goal n attempt e = Inr a \<longleftrightarrow> found = Some a \<and> res_goal (ar_reservation a) = goal \<and>
     res_generation (ar_reservation a) = n \<and> res_attempt (ar_reservation a) = attempt"
  by (auto simp: identified_def split: option.splits)

lemma expects_iff: "expects found g \<longleftrightarrow> (\<exists>h. found = Some h \<and> same_generation h g)"
  by (auto simp: expects_def split: option.splits)

lemma generation_advance_Inr:
  "generation_advance g successor digest d = Inr (v, d') \<Longrightarrow>
   v = successor \<and> d' = set_generation (gg_goal g) (gg_number successor) (gg_lifecycle successor)
     (gg_attempt successor) digest d"
  by (auto simp: generation_advance_def op_simps amend_def set_generation_def
      dest!: generation_t.update_where_put) (simp add: generation_rows_table_def)

lemma record_advance_Inr:
  "record_advance a p witness resolution d = Inr (u, d') \<Longrightarrow>
   phase_may_become (ar_phase a) p \<and> d' = set_phase (res_attempt (ar_reservation a)) p witness resolution d"
  by (auto simp: record_advance_def op_simps amend_def set_phase_def
      dest!: record_t.update_where_put) (simp add: attempt_records_table_def)

lemma enter_Inr: "enter T r d = Inr (u, d') \<longleftrightarrow> insert_row T r d = Inr d'"
  by (auto simp: enter_def)

lemma claim_decision_Inr:
  "claim_decision goal decision n d = Inr (u, d') \<Longrightarrow> unused d goal decision \<and>
   d' = d\<lparr>ledger_decisions := ledger_decisions d @
     [\<lparr>gwd_goal = goal, gwd_decision = decision, gwd_generation = n\<rparr>]\<rparr>"
  by (auto simp: claim_decision_def enter_Inr insert_row_Inr unused_def work_decisions_table_def
      split: sum.splits)

lemma record_observation_Inr:
  "record_observation r observation d = Inr (u, d') \<Longrightarrow>
   \<exists>evidence. d' = d\<lparr>ledger_failures := ledger_failures d @ evidence\<rparr>"
  by (auto simp: record_observation_def enter_Inr insert_row_Inr failed_turns_table_def Let_def
      split: sum.splits prod.splits if_splits intro: exI [of _ "[]"])

lemma expected_generation_Inr:
  "expected_generation goal expected e d = Inr (current, d') \<Longrightarrow> d' = d \<and>
   (\<exists>g. expected = Inr g \<and> same_generation current g) \<and> current \<in> set (ledger_generations d) \<and>
   gg_goal current = goal"
  by (auto simp: expected_generation_def op_simps split: option.splits dest: generation_one_Some)

lemma require_current_Inr:
  "require_current r p d = Inr (a, d') \<Longrightarrow> d' = d \<and> held d r a \<and> ar_reservation a = r \<and> ar_phase a = p"
  by (auto simp: require_current_def op_simps Let_def reserved_by_Inr expects_iff held_def
      same_generation_def reserved_generation_def dest!: generation_one_Some read_attempt_Some)

subsection \<open>Every operation is a step\<close>

lemmas write_effects = generation_advance_Inr record_advance_Inr claim_decision_Inr
  expected_generation_Inr require_current_Inr

lemma create_write_step: "create_write goal digest d = Inr (g, d') \<Longrightarrow> ledger_step d d'"
  by (auto simp: create_write_def op_simps enter_Inr insert_row_Inr generation_rows_table_def
      intro!: created dest: generation_one_None)

lemma recover_write_step: "recover_write goal n digest d = Inr (g, d') \<Longrightarrow> ledger_step d d'"
  by (auto simp: recover_write_def op_simps same_generation_def ready_generation_def
      intro: rotated dest!: write_effects)

lemma reserve_write_step: "reserve_write digest r d = Inr (v, d') \<Longrightarrow> ledger_step d d'"
  by (auto simp: reserve_write_def op_simps enter_Inr insert_row_Inr attempt_records_table_def
      same_generation_def ready_generation_def reserved_generation_def Let_def
      dest!: write_effects)
     (rule reserved, assumption, auto)

lemma claim_write_step: "claim_write r d = Inr (v, d') \<Longrightarrow> ledger_step d d'"
  by (auto simp: claim_write_def op_simps intro: claimed dest!: write_effects)

lemma failed_edge: "phase_may_become p FailedAttempt \<longleftrightarrow> p = ReservedAttempt \<or> p = ClaimedAttempt"
  by (cases p) (simp_all add: may_become_eq)

lemma observation_Inr:
  assumes "(case observation of
      None \<Rightarrow> oreturn ()
    | Some evidence \<Rightarrow> if known then record_observation r evidence else oreturn ()) d = Inr (u, d')"
  shows "\<exists>evidence. d' = d\<lparr>ledger_failures := ledger_failures d @ evidence\<rparr>"
  using assms record_observation_Inr
  by (auto simp: op_simps split: option.splits if_splits intro: exI [of _ "[]"])

lemma fail_write_step:
  assumes "fail_write r resolution observation d = Inr (g, d')"
  shows "ledger_step d d'"
proof -
  from assms obtain a d1 d2 where a: "held d r a" "ar_phase a = ReservedAttempt \<or> ar_phase a = ClaimedAttempt"
    and d1: "d1 = set_phase (res_attempt r) FailedAttempt None resolution d"
    and d2: "(case observation of
        None \<Rightarrow> oreturn ()
      | Some evidence \<Rightarrow> if launched (ar_phase a) then record_observation r evidence else oreturn ())
        d1 = Inr ((), d2)"
    and d': "d' = set_generation (res_goal r) (res_generation r) BlockedGeneration (Some (res_attempt r)) '''' d2"
    by (auto simp: fail_write_def op_simps reserved_generation_def reserved_by_Inr expects_iff Let_def
        failed_edge same_generation_def held_def simp del: split_paired_Ex
        dest!: generation_one_Some read_attempt_Some generation_advance_Inr record_advance_Inr) blast+
  from observation_Inr [OF d2] obtain evidence where
    evidence: "d2 = d1\<lparr>ledger_failures := ledger_failures d1 @ evidence\<rparr>" ..
  have "d2 = set_phase (res_attempt r) FailedAttempt None resolution
      (d\<lparr>ledger_failures := ledger_failures d @ evidence\<rparr>)"
    unfolding evidence d1 set_phase_def by simp
  with failed [OF a] show ?thesis by (simp add: d')
qed

lemma record_ready_Inr:
  assumes "record_ready a evidence d = Inr (u, d')"
  obtains p witness resolution where "p = SucceededAttempt \<or> p = FailedAttempt"
    "d' = set_phase (res_attempt (ar_reservation a)) p witness resolution d"
  using assms by (cases evidence) (auto dest!: record_advance_Inr)

lemma advance_write_step: "advance_write r evidence digest d = Inr (g, d') \<Longrightarrow> ledger_step d d'"
  by (auto simp: advance_write_def op_simps reserved_generation_def ready_generation_def
      intro: advanced dest!: write_effects elim!: record_ready_Inr)

lemma complete_write_step: "complete_write r witness d = Inr (g, d') \<Longrightarrow> ledger_step d d'"
  by (auto simp: complete_write_def op_simps reserved_generation_def
      intro: completed dest!: write_effects)

lemma usage_write_step:
  assumes "usage_write r response raw d = Inr (v, d')"
  shows "d' = d \<or> ledger_step d d'"
proof -
  from assms obtain a where a: "held d r a" "ar_phase a = ClaimedAttempt"
    by (auto simp: usage_write_def op_simps dest!: require_current_Inr)
  show ?thesis
  proof (cases "usage_of d (res_attempt r) response")
    case None
    with assms have "insert_row provider_usages_table
        \<lparr>pu_attempt = res_attempt r, pu_response = response, pu_usage = raw\<rparr> d = Inr d'"
      by (auto simp: usage_write_def op_simps enter_Inr dest!: require_current_Inr)
    then have "ledger_step d d'"
      using charged [OF a, of response raw] by (force simp: insert_row_Inr provider_usages_table_def)
    then show ?thesis ..
  next
    case (Some u)
    with assms show ?thesis by (auto simp: usage_write_def op_simps dest!: require_current_Inr)
  qed
qed

lemma ready_recovery_write_step:
  "ready_recovery_write goal n decision digest d = Inr (g, d') \<Longrightarrow> ledger_step d d'"
  by (auto simp: ready_recovery_write_def op_simps same_generation_def ready_generation_def
      dest!: write_effects intro: decided)

lemma retry_write_step: "retry_write goal n attempt decision digest d = Inr (g, d') \<Longrightarrow> ledger_step d d'"
  by (auto simp: retry_write_def op_simps same_generation_def ready_generation_def identified_Inr
      require_retryable_def dest!: write_effects read_attempt_Some)
     (metis retried)

lemma retire_attempt_Inr:
  assumes "retire_attempt g attempt d = Inr (u, d')"
  shows "(attempt = None \<and> gg_lifecycle g = ReadyGeneration \<and> d' = d) \<or>
    (\<exists>identity a. attempt = Some identity \<and> a \<in> set (ledger_attempts d) \<and>
       res_goal (ar_reservation a) = gg_goal g \<and> res_generation (ar_reservation a) = gg_number g \<and>
       res_attempt (ar_reservation a) = identity \<and> permits_retirement (gg_lifecycle g) (ar_phase a) \<and>
       d' = set_phase identity ResolvedAttempt None GoalCleared d)"
proof (cases attempt)
  case None
  with assms show ?thesis
    by (cases "gg_lifecycle g") (auto simp: retire_attempt_def op_simps)
next
  case (Some identity)
  with assms show ?thesis
    by (auto simp: retire_attempt_def op_simps identified_Inr dest!: record_advance_Inr read_attempt_Some)
qed

lemma retire_write_step:
  assumes "retire_write goal n attempt d = Inr (g, d')"
  shows "ledger_step d d'"
proof -
  from assms obtain current d1 where current: "generation_one d goal = Inr (Some current)"
      "gg_number current = n" "gg_attempt current = attempt"
    and retire: "retire_attempt current attempt d = Inr ((), d1)"
    and d': "d' = set_generation goal n CancelledGeneration attempt '''' d1"
    by (fastforce simp: retire_write_def op_simps Let_def split: option.splits
        dest!: generation_advance_Inr generation_one_Some)
  from generation_one_Some [OF current(1)]
  have found: "current \<in> set (ledger_generations d)" "gg_goal current = goal" by simp_all
  from retire_attempt_Inr [OF retire] withdrawn [OF found(1)] retired [OF found(1)]
  show ?thesis unfolding d' using found(2) current(2,3) by auto
qed

lemma change_effect:
  "change fault operation verify d = (result, d') \<Longrightarrow> d' = d \<or> (\<exists>a. operation d = Inr (a, d'))"
  by (auto simp: change_def split: sum.splits fault.splits if_splits)

lemma change_returned: "change fault operation verify d = (Inr a, d') \<Longrightarrow> operation d = Inr (a, d')"
  by (auto simp: change_def split: sum.splits fault.splits if_splits)

lemma suppressed_inner: "suppressed outcome = (result, rest) \<Longrightarrow> \<exists>x. outcome = (x, rest)"
  by (cases outcome rule: suppressed.cases) auto

lemma quiet_inner: "quiet outcome = (result, rest) \<Longrightarrow> \<exists>x. outcome = (x, rest)"
  by (auto simp: quiet_def split: prod.splits sum.splits)

text \<open>What every transaction keeps, every operation keeps, and so does every run.\<close>

locale ledger_contract =
  fixes R :: "ledger \<Rightarrow> ledger \<Rightarrow> bool"
  assumes refl: "R d d"
    and trans: "R d1 d2 \<Longrightarrow> R d2 d3 \<Longrightarrow> R d1 d3"
    and step: "ledger_step d d' \<Longrightarrow> R d d'"
begin

lemma change_kept:
  assumes "change fault operation verify d = (result, d')"
    and "\<And>a d'. operation d = Inr (a, d') \<Longrightarrow> d' = d \<or> ledger_step d d'"
  shows "R d d'"
  using change_effect [OF assms(1)] assms(2) step refl by blast

lemma change_stepped:
  "change fault operation verify d = (result, d') \<Longrightarrow>
   (\<And>a d'. operation d = Inr (a, d') \<Longrightarrow> ledger_step d d') \<Longrightarrow> R d d'"
  by (rule change_kept) blast+

lemma ready_change_kept:
  assumes "ready_change sha fault grant goal n write st d = (result, st', d')"
    and "\<And>digest g d'. write digest d = Inr (g, d') \<Longrightarrow> ledger_step d d'"
  shows "R d d'"
  using assms(1)
  by (auto simp: ready_change_def refl split: sum.splits prod.splits
      elim!: change_stepped [OF _ assms(2)])

lemma create_kept: "create_goal sha fault grant goal st d = (result, st', d') \<Longrightarrow> R d d'"
  by (auto simp: create_goal_def refl split: if_splits elim: ready_change_kept [OF _ create_write_step])

lemma reserve_kept: "reserve sha fault given r st d = (result, st', d') \<Longrightarrow> R d d'"
  by (auto simp: reserve_def refl Let_def split: sum.splits prod.splits option.splits
      elim!: change_stepped [OF _ reserve_write_step])

lemma goal_claim_kept: "claim_launch fault r st d = (result, st', d') \<Longrightarrow> R d d'"
  by (auto simp: claim_launch_def refl Let_def split: sum.splits prod.splits if_splits
      elim!: change_stepped [OF _ claim_write_step])

lemma turn_permit_kept:
  "turn_permit sha fault fault' grant r g st d = (result, st', d') \<Longrightarrow> R d d'"
  by (auto simp: turn_permit_def refl split: sum.splits prod.splits if_splits
      dest!: reserve_kept goal_claim_kept intro: trans)

lemma fail_kept: "fail fault resolution observation r st d = (result, st', d') \<Longrightarrow> R d d'"
  by (auto simp: fail_def split: prod.splits elim!: change_stepped [OF _ fail_write_step])

lemma advance_kept: "advance_ready sha fault grant evidence r st d = (result, st', d') \<Longrightarrow> R d d'"
  unfolding advance_ready_def by (rule ready_change_kept [OF _ advance_write_step])

lemma progress_kept:
  "record_verified_progress sha fault grant witness r st d = (result, st', d') \<Longrightarrow> R d d'"
  by (auto simp: record_verified_progress_def refl split: if_splits elim: advance_kept)

lemma stop_kept: "stop_launch sha fault grant r st d = (result, st', d') \<Longrightarrow> R d d'"
  by (auto simp: stop_launch_def refl split: if_splits sum.splits prod.splits elim: advance_kept)

lemma completion_kept: "record_verified_completion fault witness r st d = (result, st', d') \<Longrightarrow> R d d'"
  by (auto simp: record_verified_completion_def refl split: if_splits prod.splits
      elim!: change_stepped [OF _ complete_write_step])

lemma usage_kept: "record_provider_usage fault response raw r st d = (result, st', d') \<Longrightarrow> R d d'"
  by (auto simp: record_provider_usage_def split: prod.splits sum.splits
      elim!: change_kept [OF _ usage_write_step])

lemma recovery_kept:
  "authorize_ready_recovery sha fault grant goal n decision st d = (result, st', d') \<Longrightarrow> R d d'"
  unfolding authorize_ready_recovery_def by (rule ready_change_kept [OF _ ready_recovery_write_step])

lemma retry_kept:
  "goal_authorize_retry sha fault grant goal n attempt decision st d = (result, st', d') \<Longrightarrow> R d d'"
  unfolding goal_authorize_retry_def by (rule ready_change_kept [OF _ retry_write_step])

lemma current_retry_kept:
  assumes "authorize_current_retry sha fault grant goal decision st d = (result, st', d')"
  shows "R d d'"
proof (cases "require_generation d goal")
  case (Inr g)
  with assms show ?thesis
    by (cases "gg_lifecycle g")
      (auto simp: authorize_current_retry_def refl split: option.splits elim: recovery_kept retry_kept)
qed (use assms in \<open>simp add: authorize_current_retry_def refl\<close>)

lemma retire_kept: "retire_goal fault goal n attempt st d = (result, st', d') \<Longrightarrow> R d d'"
  by (auto simp: retire_goal_def split: prod.splits sum.splits
      elim!: change_stepped [OF _ retire_write_step])

lemma suppressed_fail_kept:
  "suppressed (fail fault resolution observation r st d) = (result, st', d') \<Longrightarrow> R d d'"
  by (auto dest!: suppressed_inner fail_kept)

lemma origin_kept: "fail_origin fault permit goal st d = (result, st', d') \<Longrightarrow> R d d'"
  by (cases permit)
    (auto simp: refl split: sum.splits option.splits if_splits prod.splits
      elim: suppressed_fail_kept retire_kept)

lemma serve_kept: "serve sha fault request st d = (result, st', d') \<Longrightarrow> R d d'"
  by (cases request)
    (auto simp: recover_unreserved_ready_def retire_unverified_def dest!: quiet_inner
      elim: create_kept reserve_kept goal_claim_kept turn_permit_kept fail_kept suppressed_fail_kept
        progress_kept stop_kept completion_kept usage_kept recovery_kept retry_kept current_retry_kept
        retire_kept origin_kept ready_change_kept [OF _ recover_write_step])

lemma perform_kept: "R (gw_ledger w) (gw_ledger (goal_perform sha c w))"
  by (cases c) (auto simp: refl split: prod.splits elim: serve_kept)

lemma run_from_kept: "R (gw_ledger w) (gw_ledger (foldl (\<lambda>w c. goal_perform sha c w) w calls))"
proof (induction calls arbitrary: w)
  case Nil
  show ?case by (simp add: refl)
next
  case (Cons c calls)
  from trans [OF perform_kept Cons.IH] show ?case by simp
qed

lemma goal_run_kept: "R empty_ledger (gw_ledger (goal_run sha calls))"
  using run_from_kept [of empty_goal_world] by (simp add: goal_run_def empty_goal_world_def)

lemma goal_run_later: "R (gw_ledger (goal_run sha calls)) (gw_ledger (goal_run sha (calls @ more_calls)))"
  using run_from_kept by (simp add: goal_run_def)

end

interpretation ledger_machine: ledger_contract "ledger_step\<^sup>*\<^sup>*"
  by unfold_locales auto

end
