(* ===== verification/Goal_Results.thy ===== *)
theory Goal_Results
  imports Goal_Protocol
begin

text \<open>
  What the ledger guarantees: its generations, attempts, decisions and usage rows agree in every state
  it can reach, what is settled stays settled, and over a whole run of any number of processes, some
  of which may lose their memory and see their writes fail, one generation of a goal is launched at
  most once.
\<close>

subsection \<open>Invariants\<close>

abbreviation ar_attempt :: "attempt_record \<Rightarrow> string" where
  "ar_attempt a \<equiv> res_attempt (ar_reservation a)"

abbreviation ar_goal :: "attempt_record \<Rightarrow> string" where
  "ar_goal a \<equiv> res_goal (ar_reservation a)"

abbreviation ar_generation :: "attempt_record \<Rightarrow> int" where
  "ar_generation a \<equiv> res_generation (ar_reservation a)"

text \<open>Keys are unique.\<close>

definition ledger_keys :: "ledger \<Rightarrow> bool" where
  "ledger_keys d \<longleftrightarrow>
     distinct (map gg_goal (ledger_generations d)) \<and>
     distinct (map ar_attempt (ledger_attempts d)) \<and>
     distinct (map (\<lambda>a. (ar_goal a, ar_generation a)) (ledger_attempts d)) \<and>
     distinct (map (\<lambda>w. (gwd_goal w, gwd_decision w)) (ledger_decisions d)) \<and>
     distinct (map (\<lambda>u. (pu_attempt u, pu_response u)) (ledger_usages d))"

text \<open>The phase of the attempt a generation names, by the generation's lifecycle.\<close>

fun phase_agrees :: "generation_state \<Rightarrow> goal_phase \<Rightarrow> bool" where
  "phase_agrees ReadyGeneration p \<longleftrightarrow> False"
| "phase_agrees ReservedGeneration p \<longleftrightarrow> p = ReservedAttempt \<or> p = ClaimedAttempt"
| "phase_agrees BlockedGeneration p \<longleftrightarrow> p = FailedAttempt"
| "phase_agrees CompletedGeneration p \<longleftrightarrow> p = SucceededAttempt"
| "phase_agrees CancelledGeneration p \<longleftrightarrow> p = ResolvedAttempt"

definition in_flight :: "goal_phase \<Rightarrow> bool" where
  "in_flight p \<longleftrightarrow> p = ReservedAttempt \<or> p = ClaimedAttempt"

definition attempt_agrees :: "goal_generation \<Rightarrow> attempt_record \<Rightarrow> bool" where
  "attempt_agrees g a \<longleftrightarrow>
     (if ar_generation a = gg_number g
      then gg_attempt g = Some (ar_attempt a) \<and> phase_agrees (gg_lifecycle g) (ar_phase a)
      else ar_generation a < gg_number g \<and> \<not> in_flight (ar_phase a))"

text \<open>Attempts agree with the generation of their goal, and a generation names a stored attempt unless
  it is ready or was withdrawn before it was reserved.\<close>

definition ledger_agrees :: "ledger \<Rightarrow> bool" where
  "ledger_agrees d \<longleftrightarrow>
     (\<forall>a \<in> set (ledger_attempts d). \<exists>g \<in> set (ledger_generations d).
        gg_goal g = ar_goal a \<and> attempt_agrees g a) \<and>
     (\<forall>g \<in> set (ledger_generations d). 1 \<le> gg_number g \<and>
        (case gg_attempt g of
           None \<Rightarrow> gg_lifecycle g = ReadyGeneration \<or> gg_lifecycle g = CancelledGeneration
         | Some attempt \<Rightarrow> \<exists>a \<in> set (ledger_attempts d).
             ar_attempt a = attempt \<and> ar_goal a = gg_goal g \<and> ar_generation a = gg_number g))"

definition ledger_sound :: "ledger \<Rightarrow> bool" where
  "ledger_sound d \<longleftrightarrow> ledger_keys d \<and> ledger_agrees d"

lemma set_generation_fields [simp]:
  "ledger_attempts (set_generation goal n st attempt digest d) = ledger_attempts d"
  "ledger_decisions (set_generation goal n st attempt digest d) = ledger_decisions d"
  "ledger_usages (set_generation goal n st attempt digest d) = ledger_usages d"
  "map gg_goal (ledger_generations (set_generation goal n st attempt digest d)) =
     map gg_goal (ledger_generations d)"
  by (simp_all add: set_generation_def)

lemma set_phase_fields [simp]:
  "ledger_generations (set_phase attempt p witness resolution d) = ledger_generations d"
  "ledger_decisions (set_phase attempt p witness resolution d) = ledger_decisions d"
  "ledger_usages (set_phase attempt p witness resolution d) = ledger_usages d"
  "map ar_reservation (ledger_attempts (set_phase attempt p witness resolution d)) =
     map ar_reservation (ledger_attempts d)"
  by (simp_all add: set_phase_def)

lemma set_phase_keys [simp]:
  "map ar_attempt (ledger_attempts (set_phase attempt p witness resolution d)) =
     map ar_attempt (ledger_attempts d)"
  "map (\<lambda>a. (ar_goal a, ar_generation a)) (ledger_attempts (set_phase attempt p witness resolution d)) =
     map (\<lambda>a. (ar_goal a, ar_generation a)) (ledger_attempts d)"
  by (simp_all add: set_phase_def)

lemma keys_step: "ledger_step d d' \<Longrightarrow> ledger_keys d \<Longrightarrow> ledger_keys d'"
  by (induction rule: ledger_step.induct) (auto simp: ledger_keys_def unused_def)

lemma key_unique:
  "distinct (map f xs) \<Longrightarrow> x \<in> set xs \<Longrightarrow> y \<in> set xs \<Longrightarrow> f x = f y \<Longrightarrow> x = y"
  by (simp add: distinct_map inj_on_def)

lemma goal_unique:
  "ledger_keys d \<Longrightarrow> g \<in> set (ledger_generations d) \<Longrightarrow> h \<in> set (ledger_generations d) \<Longrightarrow>
   gg_goal g = gg_goal h \<Longrightarrow> g = h"
  unfolding ledger_keys_def by (metis key_unique)

lemma record_unique:
  "ledger_keys d \<Longrightarrow> a \<in> set (ledger_attempts d) \<Longrightarrow> b \<in> set (ledger_attempts d) \<Longrightarrow>
   ar_attempt a = ar_attempt b \<Longrightarrow> a = b"
  unfolding ledger_keys_def by (metis key_unique)

lemma launch_unique:
  assumes "ledger_keys d" "a \<in> set (ledger_attempts d)" "b \<in> set (ledger_attempts d)"
    "ar_goal a = ar_goal b" "ar_generation a = ar_generation b"
  shows "a = b"
  using assms key_unique [of "\<lambda>a. (ar_goal a, ar_generation a)" "ledger_attempts d" a b]
  by (simp add: ledger_keys_def)

lemma agreesI:
  assumes "\<And>a. a \<in> set (ledger_attempts d) \<Longrightarrow> \<exists>g \<in> set (ledger_generations d). gg_goal g = ar_goal a \<and> attempt_agrees g a"
    and "\<And>g. g \<in> set (ledger_generations d) \<Longrightarrow> 1 \<le> gg_number g"
    and "\<And>g. g \<in> set (ledger_generations d) \<Longrightarrow> gg_attempt g = None \<Longrightarrow>
      gg_lifecycle g = ReadyGeneration \<or> gg_lifecycle g = CancelledGeneration"
    and "\<And>g attempt. g \<in> set (ledger_generations d) \<Longrightarrow> gg_attempt g = Some attempt \<Longrightarrow>
      \<exists>a \<in> set (ledger_attempts d). ar_attempt a = attempt \<and> ar_goal a = gg_goal g \<and> ar_generation a = gg_number g"
  shows "ledger_agrees d"
  unfolding ledger_agrees_def using assms by (auto split: option.splits)

lemma agreesD:
  assumes "ledger_agrees d"
  shows "a \<in> set (ledger_attempts d) \<Longrightarrow> \<exists>g \<in> set (ledger_generations d). gg_goal g = ar_goal a \<and> attempt_agrees g a"
    and "g \<in> set (ledger_generations d) \<Longrightarrow> 1 \<le> gg_number g"
    and "g \<in> set (ledger_generations d) \<Longrightarrow> gg_attempt g = None \<Longrightarrow>
      gg_lifecycle g = ReadyGeneration \<or> gg_lifecycle g = CancelledGeneration"
    and "g \<in> set (ledger_generations d) \<Longrightarrow> gg_attempt g = Some attempt \<Longrightarrow>
      \<exists>a \<in> set (ledger_attempts d). ar_attempt a = attempt \<and> ar_goal a = gg_goal g \<and> ar_generation a = gg_number g"
  using assms unfolding ledger_agrees_def by (fastforce split: option.splits)+

lemma attempt_agreesD:
  assumes "ledger_keys d" "ledger_agrees d" "g \<in> set (ledger_generations d)" "a \<in> set (ledger_attempts d)"
    "ar_goal a = gg_goal g"
  shows "attempt_agrees g a"
  using agreesD(1) [OF assms(2,4)] goal_unique [OF assms(1,3)] assms(5) by metis

lemma ready_unnamed:
  assumes "ledger_keys d" "ledger_agrees d" "g \<in> set (ledger_generations d)" "gg_lifecycle g = ReadyGeneration"
  shows "gg_attempt g = None"
proof (cases "gg_attempt g")
  case (Some attempt)
  then obtain a where a: "a \<in> set (ledger_attempts d)" "ar_goal a = gg_goal g" "ar_generation a = gg_number g"
    using agreesD(4) [OF assms(2,3)] by blast
  from attempt_agreesD [OF assms(1-3) a(1,2)] a(3) assms(4) show ?thesis by (simp add: attempt_agrees_def)
qed

lemma unnamed_attempts:
  assumes "ledger_keys d" "ledger_agrees d" "g \<in> set (ledger_generations d)" "gg_attempt g = None"
    "a \<in> set (ledger_attempts d)" "ar_goal a = gg_goal g"
  shows "ar_generation a < gg_number g \<and> \<not> in_flight (ar_phase a)"
  using attempt_agreesD [OF assms(1-3,5,6)] assms(4) by (auto simp: attempt_agrees_def split: if_splits)

lemma agrees_unnamed:
  assumes keys: "ledger_keys d" and agrees: "ledger_agrees d" and g: "g \<in> set (ledger_generations d)"
    and unnamed: "gg_attempt g = None"
    and later: "gg_number g \<le> n" and st: "st = ReadyGeneration \<or> st = CancelledGeneration"
  shows "ledger_agrees (set_generation (gg_goal g) n st None digest d)"
proof (rule agreesI)
  let ?f = "\<lambda>r. if gg_goal r = gg_goal g
    then r\<lparr>gg_number := n, gg_lifecycle := st, gg_attempt := None, gg_digest := digest\<rparr> else r"
  let ?d = "set_generation (gg_goal g) n st None digest d"
  have gens: "set (ledger_generations ?d) = ?f ` set (ledger_generations d)"
    by (simp add: set_generation_def)
  fix a assume "a \<in> set (ledger_attempts ?d)"
  then have a: "a \<in> set (ledger_attempts d)" by simp
  from agreesD(1) [OF agrees a] obtain h where h: "h \<in> set (ledger_generations d)" "gg_goal h = ar_goal a"
    "attempt_agrees h a" by blast
  have "attempt_agrees (?f h) a"
    using h unnamed_attempts [OF keys agrees g unnamed a] later by (auto simp: attempt_agrees_def)
  with h(1,2) show "\<exists>g \<in> set (ledger_generations ?d). gg_goal g = ar_goal a \<and> attempt_agrees g a"
    unfolding gens by (intro bexI [of _ "?f h"]) auto
next
  show "1 \<le> gg_number h" if "h \<in> set (ledger_generations (set_generation (gg_goal g) n st None digest d))" for h
    using that agreesD(2) [OF agrees] agreesD(2) [OF agrees g] later by (auto simp: set_generation_def)
  show "gg_lifecycle h = ReadyGeneration \<or> gg_lifecycle h = CancelledGeneration"
    if "h \<in> set (ledger_generations (set_generation (gg_goal g) n st None digest d))" "gg_attempt h = None" for h
    using that st agreesD(3) [OF agrees] by (auto simp: set_generation_def split: if_splits)
  show "\<exists>a \<in> set (ledger_attempts (set_generation (gg_goal g) n st None digest d)).
      ar_attempt a = attempt \<and> ar_goal a = gg_goal h \<and> ar_generation a = gg_number h"
    if "h \<in> set (ledger_generations (set_generation (gg_goal g) n st None digest d))"
      "gg_attempt h = Some attempt" for h attempt
    using that agreesD(4) [OF agrees] by (auto simp: set_generation_def split: if_splits)
qed

lemma agrees_settled:
  assumes keys: "ledger_keys d" and agrees: "ledger_agrees d" and g: "g \<in> set (ledger_generations d)"
    and a: "a \<in> set (ledger_attempts d)" "ar_goal a = gg_goal g" "ar_generation a = gg_number g"
    and settled: "n = gg_number g \<and> attempt = Some (ar_attempt a) \<and> phase_agrees st p \<or>
      n = gg_number g + 1 \<and> st = ReadyGeneration \<and> attempt = None \<and> \<not> in_flight p"
  shows "ledger_agrees (set_generation (gg_goal g) n st attempt digest
    (set_phase (ar_attempt a) p witness resolution d))"
    (is "ledger_agrees ?d")
proof (rule agreesI)
  let ?f = "\<lambda>r. if gg_goal r = gg_goal g
    then r\<lparr>gg_number := n, gg_lifecycle := st, gg_attempt := attempt, gg_digest := digest\<rparr> else r"
  let ?k = "\<lambda>r. if ar_attempt r = ar_attempt a
    then r\<lparr>ar_phase := p, ar_witness := witness, ar_resolution := resolution\<rparr> else r"
  have gens: "set (ledger_generations ?d) = ?f ` set (ledger_generations d)"
    by (simp add: set_generation_def set_phase_def)
  have atts: "set (ledger_attempts ?d) = ?k ` set (ledger_attempts d)"
    by (simp add: set_generation_def set_phase_def)
  have only: "b = a" if "b \<in> set (ledger_attempts d)" "ar_attempt b = ar_attempt a" for b
    using record_unique [OF keys that(1) a(1) that(2)] .
  have same: "b = a" if "b \<in> set (ledger_attempts d)" "ar_goal b = gg_goal g" "ar_generation b = gg_number g" for b
    using launch_unique [OF keys that(1) a(1)] that a by simp
  show "\<exists>h \<in> set (ledger_generations ?d). gg_goal h = ar_goal b \<and> attempt_agrees h b"
    if "b \<in> set (ledger_attempts ?d)" for b
  proof -
    from that obtain b' where b: "b = ?k b'" "b' \<in> set (ledger_attempts d)" unfolding atts by blast
    from agreesD(1) [OF agrees b(2)] obtain h where h: "h \<in> set (ledger_generations d)"
      "gg_goal h = ar_goal b'" "attempt_agrees h b'" by blast
    have "attempt_agrees (?f h) b"
    proof (cases "gg_goal h = gg_goal g")
      case True
      then have "h = g" using goal_unique [OF keys h(1) g] by simp
      show ?thesis
      proof (cases "ar_attempt b' = ar_attempt a")
        case True
        then have "b' = a" by (rule only [OF b(2)])
        with settled a(3) show ?thesis by (auto simp: b(1) \<open>h = g\<close> attempt_agrees_def)
      next
        case False
        then have "ar_generation b' \<noteq> gg_number g" using same [OF b(2)] h(2) \<open>h = g\<close> by auto
        with h(3) settled False show ?thesis by (auto simp: b(1) \<open>h = g\<close> attempt_agrees_def)
      qed
    next
      case False
      with h a(2) have "ar_attempt b' \<noteq> ar_attempt a" using only [OF b(2)] by auto
      with False h(3) show ?thesis unfolding b(1) by simp
    qed
    with h(1,2) show ?thesis unfolding gens b(1) by (intro bexI [of _ "?f h"]) auto
  qed
  show "1 \<le> gg_number h" if "h \<in> set (ledger_generations ?d)" for h
    using that agreesD(2) [OF agrees] agreesD(2) [OF agrees g] settled unfolding gens by auto
  show "gg_lifecycle h = ReadyGeneration \<or> gg_lifecycle h = CancelledGeneration"
    if "h \<in> set (ledger_generations ?d)" "gg_attempt h = None" for h
    using that settled agreesD(3) [OF agrees] unfolding gens by (auto split: if_splits)
  show "\<exists>b \<in> set (ledger_attempts ?d). ar_attempt b = x \<and> ar_goal b = gg_goal h \<and> ar_generation b = gg_number h"
    if "h \<in> set (ledger_generations ?d)" "gg_attempt h = Some x" for h x
  proof -
    from that obtain h' where h: "h = ?f h'" "h' \<in> set (ledger_generations d)" unfolding gens by blast
    show ?thesis
    proof (cases "gg_goal h' = gg_goal g")
      case True
      with that(2) h(1) settled a show ?thesis
        unfolding atts by (intro bexI [of _ "?k a"]) auto
    next
      case False
      with that(2) h obtain b where b: "b \<in> set (ledger_attempts d)" "ar_attempt b = x"
        "ar_goal b = gg_goal h" "ar_generation b = gg_number h"
        using agreesD(4) [OF agrees h(2)] by auto
      then show ?thesis unfolding atts by (intro bexI [of _ "?k b"]) auto
    qed
  qed
qed

text \<open>The attempt a generation names is settled together with it.\<close>

text \<open>A generation without an attempt is rewritten without one.\<close>

lemma set_generation_same:
  assumes "ledger_keys d" "g \<in> set (ledger_generations d)"
  shows "set_generation (gg_goal g) (gg_number g) (gg_lifecycle g) (gg_attempt g) (gg_digest g) d = d"
proof -
  have "(if gg_goal h = gg_goal g
      then h\<lparr>gg_number := gg_number g, gg_lifecycle := gg_lifecycle g, gg_attempt := gg_attempt g,
        gg_digest := gg_digest g\<rparr> else h) = h" if "h \<in> set (ledger_generations d)" for h
    using goal_unique [OF assms(1) that assms(2)] by auto
  then show ?thesis by (simp add: set_generation_def map_idI)
qed

lemma ledger_inv_cong:
  assumes "ledger_generations d = ledger_generations d'" "ledger_attempts d = ledger_attempts d'"
  shows "ledger_agrees d = ledger_agrees d'"
  unfolding ledger_agrees_def assms ..

lemma agrees_other_tables [simp]:
  "ledger_agrees (d\<lparr>ledger_failures := evidence\<rparr>) = ledger_agrees d"
  "ledger_agrees (d\<lparr>ledger_decisions := decisions\<rparr>) = ledger_agrees d"
  "ledger_agrees (d\<lparr>ledger_usages := usages\<rparr>) = ledger_agrees d"
  by (rule ledger_inv_cong; simp)+

lemma heldE:
  assumes "held d r a"
  obtains g where "g \<in> set (ledger_generations d)" "a \<in> set (ledger_attempts d)" "ar_reservation a = r"
    "gg_goal g = res_goal r" "gg_number g = res_generation r" "gg_lifecycle g = ReservedGeneration"
    "gg_attempt g = Some (res_attempt r)"
  using assms by (auto simp: held_def)

lemma agrees_held:
  assumes "ledger_keys d" "ledger_agrees d" "held d r a"
    and "n = res_generation r \<and> attempt = Some (res_attempt r) \<and> phase_agrees st p \<or>
      n = res_generation r + 1 \<and> st = ReadyGeneration \<and> attempt = None \<and> \<not> in_flight p"
  shows "ledger_agrees (set_generation (res_goal r) n st attempt digest
    (set_phase (res_attempt r) p witness resolution d))"
proof -
  from assms(3) obtain g where g: "g \<in> set (ledger_generations d)" "a \<in> set (ledger_attempts d)"
    "ar_reservation a = r" "gg_goal g = res_goal r" "gg_number g = res_generation r"
    by (rule heldE)
  from agrees_settled [OF assms(1,2) g(1,2), of n attempt st p digest witness resolution] g assms(4)
  show ?thesis by simp
qed

lemma agrees_created:
  assumes "ledger_agrees d" "\<forall>g \<in> set (ledger_generations d). gg_goal g \<noteq> goal"
  shows "ledger_agrees (d\<lparr>ledger_generations := ledger_generations d @
    [\<lparr>gg_goal = goal, gg_number = 1, gg_lifecycle = ReadyGeneration, gg_attempt = None,
      gg_digest = digest\<rparr>]\<rparr>)"
  using agreesD [OF assms(1)] by (intro agreesI) auto

lemma agrees_reserved:
  assumes keys: "ledger_keys d" and agrees: "ledger_agrees d" and g: "g \<in> set (ledger_generations d)"
    "gg_lifecycle g = ReadyGeneration" "gg_goal g = res_goal r" "gg_number g = res_generation r"
  shows "ledger_agrees (set_generation (res_goal r) (res_generation r) ReservedGeneration
    (Some (res_attempt r)) digest (d\<lparr>ledger_attempts := ledger_attempts d @
      [\<lparr>ar_reservation = r, ar_phase = ReservedAttempt, ar_witness = None, ar_resolution = NoResolution\<rparr>]\<rparr>))"
    (is "ledger_agrees ?d")
proof (rule agreesI)
  let ?f = "\<lambda>h. if gg_goal h = res_goal r then h\<lparr>gg_number := res_generation r,
    gg_lifecycle := ReservedGeneration, gg_attempt := Some (res_attempt r), gg_digest := digest\<rparr> else h"
  let ?a = "\<lparr>ar_reservation = r, ar_phase = ReservedAttempt, ar_witness = None, ar_resolution = NoResolution\<rparr>"
  have gens: "set (ledger_generations ?d) = ?f ` set (ledger_generations d)"
    by (simp add: set_generation_def)
  have atts: "set (ledger_attempts ?d) = insert ?a (set (ledger_attempts d))"
    by simp
  have older: "ar_generation b < res_generation r \<and> \<not> in_flight (ar_phase b)"
    if "b \<in> set (ledger_attempts d)" "ar_goal b = res_goal r" for b
    using unnamed_attempts [OF keys agrees g(1) ready_unnamed [OF keys agrees g(1,2)] that(1)] that(2) g by simp
  show "\<exists>h \<in> set (ledger_generations ?d). gg_goal h = ar_goal b \<and> attempt_agrees h b"
    if "b \<in> set (ledger_attempts ?d)" for b
  proof (cases "b = ?a")
    case True
    with g show ?thesis unfolding gens by (intro bexI [of _ "?f g"]) (auto simp: attempt_agrees_def)
  next
    case False
    with that have b: "b \<in> set (ledger_attempts d)" by auto
    from agreesD(1) [OF agrees b] obtain h where h: "h \<in> set (ledger_generations d)" "gg_goal h = ar_goal b"
      "attempt_agrees h b" by blast
    with older [OF b] show ?thesis unfolding gens
      by (intro bexI [of _ "?f h"]) (auto simp: attempt_agrees_def)
  qed
  show "1 \<le> gg_number h" if "h \<in> set (ledger_generations ?d)" for h
    using that agreesD(2) [OF agrees] agreesD(2) [OF agrees g(1)] g(4) unfolding gens by auto
  show "gg_lifecycle h = ReadyGeneration \<or> gg_lifecycle h = CancelledGeneration"
    if "h \<in> set (ledger_generations ?d)" "gg_attempt h = None" for h
    using that agreesD(3) [OF agrees] unfolding gens by (auto split: if_splits)
  show "\<exists>b \<in> set (ledger_attempts ?d). ar_attempt b = x \<and> ar_goal b = gg_goal h \<and> ar_generation b = gg_number h"
    if "h \<in> set (ledger_generations ?d)" "gg_attempt h = Some x" for h x
    using that agreesD(4) [OF agrees] unfolding gens atts by (auto split: if_splits)
qed

lemma agrees_claimed:
  assumes "ledger_keys d" "ledger_agrees d" "held d r a"
  shows "ledger_agrees (set_phase (res_attempt r) ClaimedAttempt witness resolution d)"
proof -
  let ?d = "set_phase (res_attempt r) ClaimedAttempt witness resolution d"
  from assms(3) obtain g where g: "g \<in> set (ledger_generations d)" "gg_goal g = res_goal r"
    "gg_number g = res_generation r" "gg_lifecycle g = ReservedGeneration" "gg_attempt g = Some (res_attempt r)"
    by (rule heldE)
  have "set_generation (gg_goal g) (gg_number g) (gg_lifecycle g) (gg_attempt g) (gg_digest g) ?d = ?d"
    by (rule set_generation_same) (use assms(1) g(1) in \<open>simp_all add: ledger_keys_def\<close>)
  with agrees_held [OF assms, of "gg_number g" "gg_attempt g" "gg_lifecycle g" ClaimedAttempt "gg_digest g"
      witness resolution] g
  show ?thesis by simp
qed

lemma permits_retirement_iff:
  "permits_retirement st p \<longleftrightarrow> st = ReservedGeneration \<and> in_flight p \<or> st = BlockedGeneration \<and> p = FailedAttempt"
  by (cases st) (auto simp: in_flight_def failed_edge phase_permits_retirement_def)

lemma sound_step: "ledger_step d d' \<Longrightarrow> ledger_sound d \<Longrightarrow> ledger_sound d'"
  unfolding ledger_sound_def
proof (intro conjI; elim conjE)
  assume step: "ledger_step d d'" and keys: "ledger_keys d" and agrees: "ledger_agrees d"
  show "ledger_keys d'" using keys_step [OF step keys] .
  from step keys agrees show "ledger_agrees d'"
  proof (induction rule: ledger_step.induct)
    case (created d goal digest)
    then show ?case by (intro agrees_created)
  next
    case (rotated g d digest)
    then show ?case by (intro agrees_unnamed) (auto intro: ready_unnamed)
  next
    case (reserved g d r)
    then show ?case by (intro agrees_reserved)
  next
    case (claimed d r a)
    then show ?case by (intro agrees_claimed)
  next
    case (failed d r a resolution evidence)
    let ?d = "d\<lparr>ledger_failures := ledger_failures d @ evidence\<rparr>"
    have "ledger_keys ?d" "ledger_agrees ?d" "held ?d r a"
      using failed by (simp_all add: ledger_keys_def held_def)
    then show ?case by (rule agrees_held) simp
  next
    case (advanced d r a p digest witness resolution)
    then show ?case by (intro agrees_held) (auto simp: in_flight_def)
  next
    case (completed d r a witness)
    then show ?case by (intro agrees_held) auto
  next
    case (charged d r a response raw)
    then show ?case by simp
  next
    case (decided g d decision digest)
    let ?d = "d\<lparr>ledger_decisions := ledger_decisions d @
      [\<lparr>gwd_goal = gg_goal g, gwd_decision = decision, gwd_generation = gg_number g\<rparr>]\<rparr>"
    have "ledger_keys ?d" "ledger_agrees ?d"
      using decided by (auto simp: ledger_keys_def unused_def)
    then show ?case using decided by (intro agrees_unnamed) (auto intro: ready_unnamed)
  next
    case (retried g d attempt a decision digest)
    let ?d = "d\<lparr>ledger_decisions := ledger_decisions d @
      [\<lparr>gwd_goal = gg_goal g, gwd_decision = decision, gwd_generation = gg_number g\<rparr>]\<rparr>"
    have "ledger_keys ?d" "ledger_agrees ?d"
      using retried by (auto simp: ledger_keys_def unused_def)
    from agrees_settled [OF this, of g a "gg_number g + 1" None ReadyGeneration ResolvedAttempt] retried
    show ?case by (auto simp: in_flight_def)
  next
    case (withdrawn g d)
    then show ?case by (intro agrees_unnamed) (auto intro: ready_unnamed)
  next
    case (retired g d attempt a)
    from agrees_settled [OF retired.prems, of g a "gg_number g" "Some attempt" CancelledGeneration ResolvedAttempt]
      retired.hyps
    show ?case by auto
  qed
qed

text \<open>What later states keep: generations only count up, an ended generation and an ended attempt stay
  as they are, an attempt that was claimed never becomes unclaimed, and decisions, usage rows and
  failure evidence are never removed.\<close>

definition generation_later :: "goal_generation \<Rightarrow> goal_generation \<Rightarrow> bool" where
  "generation_later g g' \<longleftrightarrow> gg_goal g' = gg_goal g \<and> gg_number g \<le> gg_number g' \<and>
     (has_capability generation_capabilities (gg_lifecycle g) Terminal \<longrightarrow> g' = g)"

definition attempt_later :: "attempt_record \<Rightarrow> attempt_record \<Rightarrow> bool" where
  "attempt_later a a' \<longleftrightarrow> ar_reservation a' = ar_reservation a \<and>
     phase_may_become\<^sup>*\<^sup>* (ar_phase a) (ar_phase a') \<and>
     (has_capability phase_capabilities (ar_phase a) Terminal \<longrightarrow> a' = a)"

definition ledger_later :: "ledger \<Rightarrow> ledger \<Rightarrow> bool" where
  "ledger_later d d' \<longleftrightarrow>
     (\<forall>g \<in> set (ledger_generations d). \<exists>g' \<in> set (ledger_generations d'). generation_later g g') \<and>
     (\<forall>a \<in> set (ledger_attempts d). \<exists>a' \<in> set (ledger_attempts d'). attempt_later a a') \<and>
     set (ledger_decisions d) \<subseteq> set (ledger_decisions d') \<and>
     set (ledger_usages d) \<subseteq> set (ledger_usages d') \<and>
     set (ledger_failures d) \<subseteq> set (ledger_failures d')"

lemma phase_terminal_iff [simp]:
  "has_capability phase_capabilities p Terminal \<longleftrightarrow> p = SucceededAttempt \<or> p = ResolvedAttempt"
  by (cases p) (simp_all add: has_capability_def)

lemma generation_terminal_iff [simp]:
  "has_capability generation_capabilities st Terminal \<longleftrightarrow>
     st = CompletedGeneration \<or> st = CancelledGeneration"
  by (cases st) (simp_all add: has_capability_def)

lemma generation_later_refl [simp]: "generation_later g g"
  by (simp add: generation_later_def)

lemma attempt_later_refl [simp]: "attempt_later a a"
  by (simp add: attempt_later_def)

lemma later_grown:
  assumes "set (ledger_generations d) \<subseteq> set (ledger_generations d')"
    "set (ledger_attempts d) \<subseteq> set (ledger_attempts d')"
    "set (ledger_decisions d) \<subseteq> set (ledger_decisions d')"
    "set (ledger_usages d) \<subseteq> set (ledger_usages d')"
    "set (ledger_failures d) \<subseteq> set (ledger_failures d')"
  shows "ledger_later d d'"
  using assms generation_later_refl attempt_later_refl unfolding ledger_later_def by blast

lemma ledger_later_refl [simp]: "ledger_later d d"
  by (rule later_grown) simp_all

lemma generation_later_trans: "generation_later g h \<Longrightarrow> generation_later h k \<Longrightarrow> generation_later g k"
  by (auto simp: generation_later_def)

lemma attempt_later_trans: "attempt_later a b \<Longrightarrow> attempt_later b c \<Longrightarrow> attempt_later a c"
  by (auto simp: attempt_later_def)

lemma ledger_later_trans:
  assumes "ledger_later d1 d2" "ledger_later d2 d3"
  shows "ledger_later d1 d3"
  using assms unfolding ledger_later_def
  by (meson attempt_later_trans generation_later_trans subset_trans)

lemma later_mapped:
  assumes "ledger_generations d' = map f (ledger_generations d)"
    "\<And>g. g \<in> set (ledger_generations d) \<Longrightarrow> generation_later g (f g)"
    "ledger_attempts d' = map k (ledger_attempts d)"
    "\<And>a. a \<in> set (ledger_attempts d) \<Longrightarrow> attempt_later a (k a)"
    "ledger_decisions d' = ledger_decisions d" "ledger_usages d' = ledger_usages d"
    "ledger_failures d' = ledger_failures d"
  shows "ledger_later d d'"
  unfolding ledger_later_def assms(1,3,5-7) using assms(2,4) by auto

lemma later_generation:
  assumes "ledger_keys d" "g \<in> set (ledger_generations d)" "gg_number g \<le> n"
    "gg_lifecycle g \<noteq> CompletedGeneration" "gg_lifecycle g \<noteq> CancelledGeneration"
  shows "ledger_later d (set_generation (gg_goal g) n st attempt digest d)"
proof (rule later_mapped [where k = id])
  let ?f = "\<lambda>r. if gg_goal r = gg_goal g
    then r\<lparr>gg_number := n, gg_lifecycle := st, gg_attempt := attempt, gg_digest := digest\<rparr> else r"
  show "ledger_generations (set_generation (gg_goal g) n st attempt digest d) = map ?f (ledger_generations d)"
    by (simp add: set_generation_def)
  show "generation_later h (?f h)" if "h \<in> set (ledger_generations d)" for h
    using goal_unique [OF assms(1) that assms(2)] assms(3-5) by (auto simp: generation_later_def)
qed (simp_all add: set_generation_def)

lemma later_phase:
  assumes "ledger_keys d" "a \<in> set (ledger_attempts d)" "phase_may_become (ar_phase a) p"
  shows "ledger_later d (set_phase (ar_attempt a) p witness resolution d)"
proof (rule later_mapped [where f = id])
  let ?k = "\<lambda>r. if ar_attempt r = ar_attempt a
    then r\<lparr>ar_phase := p, ar_witness := witness, ar_resolution := resolution\<rparr> else r"
  show "ledger_attempts (set_phase (ar_attempt a) p witness resolution d) = map ?k (ledger_attempts d)"
    by (simp add: set_phase_def)
  show "attempt_later b (?k b)" if "b \<in> set (ledger_attempts d)" for b
    using record_unique [OF assms(1) that assms(2)] assms(3)
    by (auto simp: attempt_later_def may_become_eq)
qed (simp_all add: set_phase_def)

lemma later_settled:
  assumes "ledger_keys d" "g \<in> set (ledger_generations d)" "gg_number g \<le> n"
    "gg_lifecycle g \<noteq> CompletedGeneration" "gg_lifecycle g \<noteq> CancelledGeneration"
    "a \<in> set (ledger_attempts d)" "phase_may_become (ar_phase a) p"
  shows "ledger_later d (set_generation (gg_goal g) n st attempt digest
    (set_phase (ar_attempt a) p witness resolution d))"
proof (rule ledger_later_trans)
  let ?d = "set_phase (ar_attempt a) p witness resolution d"
  show "ledger_later d ?d" by (rule later_phase [OF assms(1,6,7)])
  have "ledger_keys ?d" using assms(1) by (simp add: ledger_keys_def)
  from later_generation [OF this, of g n st attempt digest] assms(2-5)
  show "ledger_later ?d (set_generation (gg_goal g) n st attempt digest ?d)" by simp
qed

lemma later_held:
  assumes "ledger_keys d" "held d r a" "phase_may_become (ar_phase a) p" "res_generation r \<le> n"
  shows "ledger_later d (set_generation (res_goal r) n st attempt digest
    (set_phase (res_attempt r) p witness resolution d))"
proof -
  from assms(2) obtain g where g: "g \<in> set (ledger_generations d)" "a \<in> set (ledger_attempts d)"
    "ar_reservation a = r" "gg_goal g = res_goal r" "gg_number g = res_generation r"
    "gg_lifecycle g = ReservedGeneration"
    by (rule heldE)
  from later_settled [OF assms(1) g(1) _ _ _ g(2) assms(3), of n] g assms(4) show ?thesis by simp
qed

lemma later_step: "ledger_step d d' \<Longrightarrow> ledger_keys d \<Longrightarrow> ledger_later d d'"
proof (induction rule: ledger_step.induct)
  case (created d goal digest)
  show ?case by (rule later_grown) auto
next
  case (rotated g d digest)
  then show ?case by (intro later_generation) auto
next
  case (reserved g d r)
  have "ledger_later d (d\<lparr>ledger_attempts := ledger_attempts d @
      [\<lparr>ar_reservation = r, ar_phase = ReservedAttempt, ar_witness = None, ar_resolution = NoResolution\<rparr>]\<rparr>)"
    (is "ledger_later d ?d") by (rule later_grown) auto
  moreover have "ledger_keys ?d" using reserved by (auto simp: ledger_keys_def)
  from later_generation [OF this, of g "res_generation r"] reserved(1-4)
  have "ledger_later ?d (set_generation (res_goal r) (res_generation r) ReservedGeneration
      (Some (res_attempt r)) '''' ?d)" by simp
  ultimately show ?case by (rule ledger_later_trans)
next
  case (claimed d r a)
  then have "a \<in> set (ledger_attempts d)" "ar_attempt a = res_attempt r" by (auto simp: held_def)
  with later_phase [OF claimed.prems this(1), of ClaimedAttempt] claimed.hyps(2)
  show ?case by (simp add: may_become_eq)
next
  case (failed d r a resolution evidence)
  let ?d = "d\<lparr>ledger_failures := ledger_failures d @ evidence\<rparr>"
  have "ledger_later d ?d" by (rule later_grown) auto
  moreover have "ledger_keys ?d" "held ?d r a" using failed by (simp_all add: ledger_keys_def held_def)
  from later_held [OF this] failed.hyps(2)
  have "ledger_later ?d (set_generation (res_goal r) (res_generation r) BlockedGeneration
      (Some (res_attempt r)) '''' (set_phase (res_attempt r) FailedAttempt None resolution ?d))"
    by (auto simp: failed_edge)
  ultimately show ?case by (rule ledger_later_trans)
next
  case (advanced d r a p digest witness resolution)
  then show ?case by (intro later_held) (auto simp: may_become_eq)
next
  case (completed d r a witness)
  then show ?case by (intro later_held) (auto simp: may_become_eq)
next
  case (charged d r a response raw)
  show ?case by (rule later_grown) auto
next
  case (decided g d decision digest)
  let ?d = "d\<lparr>ledger_decisions := ledger_decisions d @
    [\<lparr>gwd_goal = gg_goal g, gwd_decision = decision, gwd_generation = gg_number g\<rparr>]\<rparr>"
  have "ledger_later d ?d" by (rule later_grown) auto
  moreover have "ledger_keys ?d" using decided by (auto simp: ledger_keys_def unused_def)
  from later_generation [OF this, of g] decided.hyps
  have "ledger_later ?d (set_generation (gg_goal g) (gg_number g + 1) ReadyGeneration None digest ?d)" by simp
  ultimately show ?case by (rule ledger_later_trans)
next
  case (retried g d attempt a decision digest)
  let ?d = "d\<lparr>ledger_decisions := ledger_decisions d @
    [\<lparr>gwd_goal = gg_goal g, gwd_decision = decision, gwd_generation = gg_number g\<rparr>]\<rparr>"
  have "ledger_later d ?d" by (rule later_grown) auto
  moreover have "ledger_keys ?d" using retried by (auto simp: ledger_keys_def unused_def)
  from later_settled [OF this, of g "gg_number g + 1" a ResolvedAttempt] retried.hyps
  have "ledger_later ?d (set_generation (gg_goal g) (gg_number g + 1) ReadyGeneration None digest
      (set_phase attempt ResolvedAttempt None (DecidedResolution decision) ?d))" by (simp add: may_become_eq)
  ultimately show ?case by (rule ledger_later_trans)
next
  case (withdrawn g d)
  then show ?case by (intro later_generation) auto
next
  case (retired g d attempt a)
  from later_settled [OF retired.prems, of g "gg_number g" a ResolvedAttempt] retired.hyps
  show ?case by (auto simp: permits_retirement_iff in_flight_def may_become_eq)
qed

interpretation lasting: ledger_contract "\<lambda>d d'. ledger_sound d \<longrightarrow> ledger_sound d' \<and> ledger_later d d'"
proof
  show "ledger_sound d \<longrightarrow> ledger_sound d' \<and> ledger_later d d'" if "ledger_step d d'" for d d'
    using sound_step [OF that] later_step [OF that] by (auto simp: ledger_sound_def)
qed (auto intro: ledger_later_trans)

lemma empty_ledger_sound: "ledger_sound empty_ledger"
  by (simp add: ledger_sound_def ledger_keys_def ledger_agrees_def empty_ledger_def)

lemma goal_run_sound: "ledger_sound (gw_ledger (goal_run sha calls))"
  using lasting.goal_run_kept empty_ledger_sound by blast

text \<open>A step that rewrites a generation that has not ended, and moves the phase of an attempt along an
  edge.\<close>

lemma in_flight_iff:
  assumes "ledger_sound d" "a \<in> set (ledger_attempts d)"
  shows "in_flight (ar_phase a) \<longleftrightarrow> held d (ar_reservation a) a"
proof -
  have keys: "ledger_keys d" and agrees: "ledger_agrees d" using assms(1) by (simp_all add: ledger_sound_def)
  from agreesD(1) [OF agrees assms(2)] obtain g where g: "g \<in> set (ledger_generations d)"
    "gg_goal g = ar_goal a" "attempt_agrees g a" by blast
  show ?thesis
  proof
    assume "in_flight (ar_phase a)"
    with g(3) have "ar_generation a = gg_number g" "gg_attempt g = Some (ar_attempt a)"
      "gg_lifecycle g = ReservedGeneration"
      by (auto simp: attempt_agrees_def in_flight_def split: if_splits elim: phase_agrees.elims)
    with g assms(2) show "held d (ar_reservation a) a" unfolding held_def by auto
  next
    assume "held d (ar_reservation a) a"
    then obtain h where h: "h \<in> set (ledger_generations d)" "gg_goal h = ar_goal a"
      "gg_number h = ar_generation a" "gg_lifecycle h = ReservedGeneration" "gg_attempt h = Some (ar_attempt a)"
      by (rule heldE)
    have "h = g" using goal_unique [OF keys h(1) g(1)] h(2) g(2) by simp
    with g(3) h(3,4,5) show "in_flight (ar_phase a)"
      by (auto simp: attempt_agrees_def in_flight_def split: if_splits elim: phase_agrees.elims)
  qed
qed

end
