(* ===== verification/Goal_Launches.thy ===== *)
theory Goal_Launches
  imports Goal_Results
begin

text \<open>
  Launch authority over whole runs: a generation is launched at most once, a work decision is used at
  most once, a rotated grant is dead, and a goal whose attempt failed can be launched again after an
  explicit decision.
\<close>

subsection \<open>One launch for each generation\<close>

abbreviation launch_key :: "reservation \<Rightarrow> string \<times> int" where
  "launch_key r \<equiv> (res_goal r, res_generation r)"

definition permits_sound :: "goal_world \<Rightarrow> bool" where
  "permits_sound w \<longleftrightarrow> ledger_sound (gw_ledger w) \<and> distinct (map launch_key (gw_permits w)) \<and>
     (\<forall>r \<in> set (gw_permits w). \<exists>a \<in> set (ledger_attempts (gw_ledger w)).
        ar_reservation a = r \<and> ar_phase a \<noteq> ReservedAttempt)"

lemma claim_granted:
  assumes "claim_launch fault r st d = (Inr permit, st', d')"
  shows "permit = LaunchPermit r \<and> d' = set_phase (res_attempt r) ClaimedAttempt None NoResolution d \<and>
    (\<exists>a. held d r a \<and> ar_phase a = ReservedAttempt)"
  using assms
  by (auto simp: claim_launch_def claim_write_def op_simps Let_def
      split: if_splits sum.splits prod.splits dest!: change_returned write_effects)

lemma quiet_grants_nothing: "quiet outcome \<noteq> (Inr (LaunchPermit r), rest)"
  by (auto simp: quiet_def split: prod.splits sum.splits)

lemma reserve_returned:
  "reserve sha fault given r st d = (Inr v, st', d') \<Longrightarrow> \<exists>digest. reserve_write digest r d = Inr (v, d')"
  by (auto simp: reserve_def Let_def rbind_def split: option.splits sum.splits prod.splits if_splits
      dest!: change_returned)

lemma serve_granted:
  assumes "serve sha fault request st d = (Inr (LaunchPermit r), st', d')"
  shows "\<exists>d1 a. (ledger_sound d \<longrightarrow> ledger_sound d1 \<and> ledger_later d d1) \<and>
    held d1 r a \<and> ar_phase a = ReservedAttempt \<and>
    d' = set_phase (res_attempt r) ClaimedAttempt None NoResolution d1"
proof (cases request)
  case (ClaimLaunch r')
  with assms claim_granted show ?thesis by fastforce
next
  case (TurnPermit fault' grant r' g)
  with assms obtain v st1 d1 where
    reserve: "reserve sha fault (Some grant) (r'\<lparr>res_goal := gg_goal g, res_generation := gg_number g\<rparr>) st d =
      (Inr v, st1, d1)"
    and claim: "claim_launch fault' v st1 d1 = (Inr (LaunchPermit r), st', d')"
    by (auto simp: turn_permit_def split: if_splits prod.splits sum.splits)
  from lasting.reserve_kept [OF reserve] claim_granted [OF claim] show ?thesis by fastforce
qed (use assms in \<open>simp_all add: quiet_grants_nothing\<close>)

lemma claimed_lasts:
  assumes "ledger_later d d'" "a \<in> set (ledger_attempts d)" "ar_phase a \<noteq> ReservedAttempt"
  shows "\<exists>a' \<in> set (ledger_attempts d'). ar_reservation a' = ar_reservation a \<and> ar_phase a' \<noteq> ReservedAttempt"
proof -
  from assms(1,2) obtain a' where a': "a' \<in> set (ledger_attempts d')" "attempt_later a a'"
    by (auto simp: ledger_later_def)
  have "q \<noteq> ReservedAttempt" if "phase_may_become\<^sup>*\<^sup>* p q" "p \<noteq> ReservedAttempt" for p q
    using that
  proof (induction rule: rtranclp_induct)
    case (step q q')
    then show ?case by (cases q) (auto simp: may_become_eq)
  qed simp
  with a' assms(3) show ?thesis by (auto simp: attempt_later_def)
qed

lemma permits_kept:
  assumes "permits_sound w" "ledger_sound (gw_ledger w')" "ledger_later (gw_ledger w) (gw_ledger w')"
    "gw_permits w' = gw_permits w"
  shows "permits_sound w'"
  using assms claimed_lasts unfolding permits_sound_def by metis

lemma permit_added:
  assumes sound: "permits_sound w"
    and kept: "ledger_sound d1 \<and> ledger_later (gw_ledger w) d1"
    and claimed: "held d1 r a" "ar_phase a = ReservedAttempt"
    and w': "gw_ledger w' = set_phase (res_attempt r) ClaimedAttempt None NoResolution d1"
      "gw_permits w' = gw_permits w @ [r]"
  shows "permits_sound w'"
proof -
  let ?d = "set_phase (res_attempt r) ClaimedAttempt None NoResolution d1"
  have a: "a \<in> set (ledger_attempts d1)" "ar_reservation a = r" using claimed(1) by (auto simp: held_def)
  have step: "ledger_step d1 ?d" by (rule ledger_step.claimed [OF claimed])
  have sound': "ledger_sound ?d" using sound_step [OF step] kept by blast
  have later: "ledger_later d1 ?d" using later_step [OF step] kept by (simp add: ledger_sound_def)
  have held: "\<exists>b \<in> set (ledger_attempts d1). ar_reservation b = x \<and> ar_phase b \<noteq> ReservedAttempt"
    if "x \<in> set (gw_permits w)" for x
    using that sound kept claimed_lasts unfolding permits_sound_def by metis
  have fresh: "launch_key x \<noteq> launch_key r" if x: "x \<in> set (gw_permits w)" for x
  proof
    assume key: "launch_key x = launch_key r"
    from held [OF x] obtain b where b: "b \<in> set (ledger_attempts d1)" "ar_reservation b = x"
      "ar_phase b \<noteq> ReservedAttempt" by blast
    have "ledger_keys d1" using kept by (simp add: ledger_sound_def)
    from launch_unique [OF this b(1) a(1)] key have "b = a" by (simp add: a(2) b(2))
    with b(3) claimed(2) show False by simp
  qed
  have "\<exists>b \<in> set (ledger_attempts ?d). ar_reservation b = x \<and> ar_phase b \<noteq> ReservedAttempt"
    if "x \<in> set (gw_permits w) \<or> x = r" for x
  proof (cases "x = r")
    case True
    let ?k = "\<lambda>b. if ar_attempt b = res_attempt r
      then b\<lparr>ar_phase := ClaimedAttempt, ar_witness := None, ar_resolution := NoResolution\<rparr> else b"
    have "?k a \<in> set (ledger_attempts ?d)" using a(1) by (simp add: set_phase_def image_iff) blast
    with True a(2) show ?thesis by (intro bexI [of _ "?k a"]) simp_all
  next
    case False
    with that held claimed_lasts [OF later] show ?thesis by metis
  qed
  moreover have "distinct (map launch_key (gw_permits w @ [r]))"
    using sound fresh by (fastforce simp: permits_sound_def)
  ultimately show ?thesis using sound' unfolding permits_sound_def w' by simp
qed

lemma perform_permits: "permits_sound w \<Longrightarrow> permits_sound (goal_perform sha c w)"
proof (cases c)
  case (Reopen i)
  then show "permits_sound w \<Longrightarrow> permits_sound (goal_perform sha c w)" by (simp add: permits_sound_def)
next
  case (Request i fault request)
  assume sound: "permits_sound w"
  then have led: "ledger_sound (gw_ledger w)" by (simp add: permits_sound_def)
  obtain result st d where served: "serve sha fault request (gw_stores w i) (gw_ledger w) = (result, st, d)"
    by (cases "serve sha fault request (gw_stores w i) (gw_ledger w)")
  show ?thesis
  proof (cases "\<exists>r. result = Inr (LaunchPermit r)")
    case True
    then obtain r where r: "result = Inr (LaunchPermit r)" ..
    from serve_granted [OF served [unfolded r]] led obtain d1 a where
      "ledger_sound d1 \<and> ledger_later (gw_ledger w) d1" "held d1 r a" "ar_phase a = ReservedAttempt"
      "d = set_phase (res_attempt r) ClaimedAttempt None NoResolution d1" by blast
    from permit_added [OF sound this(1-3), of "goal_perform sha c w"] this(4) served r Request
    show ?thesis by simp
  next
    case False
    then have "granted result = []" by (cases result rule: granted.cases) auto
    with permits_kept [OF sound, of "goal_perform sha c w"] lasting.serve_kept [OF served] led served Request
    show ?thesis by simp
  qed
qed

lemma goal_run_permits: "permits_sound (goal_run sha calls)"
proof -
  have "permits_sound (foldl (\<lambda>w c. goal_perform sha c w) w calls)" if "permits_sound w" for w
    using that by (induction calls arbitrary: w) (simp_all add: perform_permits)
  moreover have "permits_sound empty_goal_world"
    using empty_ledger_sound by (simp add: permits_sound_def empty_goal_world_def)
  ultimately show ?thesis by (simp add: goal_run_def)
qed

end
