(* ===== verification/Goal_Progress.thy ===== *)
theory Goal_Progress
  imports Goal_Launches
begin

text \<open>
  Forward execution of the ledger's operations: where a transaction's conditions hold and storage does
  not fail, it returns, and the state it leaves is the one its step describes.
\<close>

subsection \<open>Reads\<close>

lemma generation_checked:
  assumes "ledger_sound d" "g \<in> set (ledger_generations d)"
  shows "generation_check g = Inr ()"
proof -
  have keys: "ledger_keys d" and agrees: "ledger_agrees d" using assms(1) by (simp_all add: ledger_sound_def)
  have "validate_attempt (gg_lifecycle g) (gg_attempt g) = Inr ()"
    using ready_unnamed [OF keys agrees assms(2)] agreesD(3) [OF agrees assms(2)]
    by (cases "gg_lifecycle g") auto
  then show ?thesis
    using agreesD(2) [OF agrees assms(2)] by (simp add: generation_check_def make_generation_def)
qed

lemma generation_found:
  assumes "ledger_sound d" "g \<in> set (ledger_generations d)"
  shows "generation_one d (gg_goal g) = Inr (Some g)"
proof -
  have "filter (\<lambda>h. gg_goal h = gg_goal g) (ledger_generations d) = [g]"
    using assms by (intro filter_key_single) (simp_all add: ledger_sound_def ledger_keys_def)
  then have "one_row generation_check (\<lambda>h. gg_goal h = gg_goal g) (ledger_generations d) = Inr (Some g)"
    by (rule one_row_unique) (rule generation_checked [OF assms])
  then show ?thesis by (simp add: generation_one_def)
qed

lemma attempt_found:
  assumes "ledger_sound d" "a \<in> set (ledger_attempts d)"
  shows "read_attempt d (ar_attempt a) = Some a"
  unfolding read_attempt_def
  using assms record_unique by (intro find_unique) (auto simp: ledger_sound_def)

lemma generation_attested:
  assumes "ledger_sound d" "h \<in> set (ledger_generations d)" "same_generation h g"
  shows "is_generation g d = Inr True"
  using generation_found [OF assms(1,2)] assms(3)
  by (auto simp: is_generation_def expects_def same_generation_def)

lemma expected_found:
  assumes "ledger_sound d" "g \<in> set (ledger_generations d)"
    "gg_number g = n" "gg_lifecycle g = st" "gg_attempt g = attempt"
  shows "expected_generation (gg_goal g) (make_generation (gg_goal g) n st attempt digest) e d = Inr (g, d)"
proof -
  from generation_checked [OF assms(1,2)] assms(3-5)
  have "make_generation (gg_goal g) n st attempt digest =
      Inr \<lparr>gg_goal = gg_goal g, gg_number = n, gg_lifecycle = st, gg_attempt = attempt, gg_digest = digest\<rparr>"
    by (auto simp: generation_check_def)
  with generation_found [OF assms(1,2)] assms(3-5) show ?thesis
    by (simp add: expected_generation_def op_eval same_generation_def del: make_generation_Inr)
qed

subsection \<open>Writes\<close>

lemma generation_written:
  assumes keys: "ledger_keys d" and g: "g \<in> set (ledger_generations d)" "gg_goal h = gg_goal g"
    "generation_may_become (gg_lifecycle h) (gg_lifecycle successor)"
    and checks: "0 < gg_number successor"
      "if gg_lifecycle successor = ReadyGeneration then gg_attempt successor = None \<and> length digest = 64
       else digest = ''''"
  shows "generation_advance h successor digest d = Inr (successor,
    set_generation (gg_goal g) (gg_number successor) (gg_lifecycle successor) (gg_attempt successor) digest d)"
proof -
  let ?f = "\<lambda>r. r\<lparr>gg_number := gg_number successor, gg_lifecycle := gg_lifecycle successor,
    gg_attempt := gg_attempt successor, gg_digest := digest\<rparr>"
  let ?rows = "ledger_generations d"
  obtain i where i: "i < length ?rows" "?rows ! i = g" using g(1) by (metis in_set_conv_nth)
  have other: "gg_goal (?rows ! j) \<noteq> gg_goal g" if "j < length ?rows" "j \<noteq> i" for j
    using distinct_keys_nth [of gg_goal ?rows j i] keys that i by (simp add: ledger_keys_def)
  have "\<exists>d'. update_row generation_rows_table i (?f (?rows ! i)) d = Inr d'"
    using i other checks unfolding update_row_Inr by (auto simp: generation_rows_table_def) metis+
  then obtain d' where upd: "update_row generation_rows_table i (?f (?rows ! i)) d = Inr d'" ..
  have "update_where generation_rows_table (\<lambda>r. gg_goal r = gg_goal h) ?f d = Inr (1, d')"
    by (rule generation_t.update_where_single [of i])
      (use i other upd g(2) in \<open>simp_all add: generation_rows_table_def\<close>)
  then have "generation_advance h successor digest d = Inr (successor, d')"
    using g(3) by (simp add: generation_advance_def amend_def op_eval)
  with generation_advance_Inr [OF this] g(2) show ?thesis by simp
qed

lemma phase_written:
  assumes keys: "ledger_keys d" and a: "a \<in> set (ledger_attempts d)" "phase_may_become (ar_phase a) p"
    and goal: "\<exists>g \<in> set (ledger_generations d). gg_goal g = ar_goal a"
  shows "record_advance a p witness resolution d = Inr ((), set_phase (ar_attempt a) p witness resolution d)"
proof -
  let ?f = "\<lambda>r. r\<lparr>ar_phase := p, ar_witness := witness, ar_resolution := resolution\<rparr>"
  let ?rows = "ledger_attempts d"
  obtain i where i: "i < length ?rows" "?rows ! i = a" using a(1) by (metis in_set_conv_nth)
  have other: "ar_attempt (?rows ! j) \<noteq> ar_attempt a" "launch_key (ar_reservation (?rows ! j)) \<noteq> launch_key (ar_reservation a)"
    if "j < length ?rows" "j \<noteq> i" for j
    using distinct_keys_nth [of ar_attempt ?rows j i]
      distinct_keys_nth [of "\<lambda>a. launch_key (ar_reservation a)" ?rows j i] keys that i
    by (simp_all add: ledger_keys_def)
  have "\<exists>d'. update_row attempt_records_table i (?f (?rows ! i)) d = Inr d'"
    using i other goal unfolding update_row_Inr by (auto simp: attempt_records_table_def Let_def) metis+
  then obtain d' where upd: "update_row attempt_records_table i (?f (?rows ! i)) d = Inr d'" ..
  have "update_where attempt_records_table (\<lambda>r. ar_attempt r = ar_attempt a) ?f d = Inr (1, d')"
    by (rule record_t.update_where_single [of i])
      (use i other upd in \<open>simp_all add: attempt_records_table_def\<close>)
  then have "record_advance a p witness resolution d = Inr ((), d')"
    using a(2) by (simp add: record_advance_def amend_def op_eval)
  with record_advance_Inr [OF this] show ?thesis by simp
qed

lemma decision_written:
  assumes "unused d goal decision" "\<exists>g \<in> set (ledger_generations d). gg_goal g = goal"
  shows "claim_decision goal decision n d = Inr ((), d\<lparr>ledger_decisions := ledger_decisions d @
    [\<lparr>gwd_goal = goal, gwd_decision = decision, gwd_generation = n\<rparr>]\<rparr>)"
proof -
  have "insert_row work_decisions_table \<lparr>gwd_goal = goal, gwd_decision = decision, gwd_generation = n\<rparr> d =
    Inr (d\<lparr>ledger_decisions := ledger_decisions d @
      [\<lparr>gwd_goal = goal, gwd_decision = decision, gwd_generation = n\<rparr>]\<rparr>)"
    using assms by (auto simp: insert_row_Inr work_decisions_table_def unused_def)
  then show ?thesis by (simp add: claim_decision_def enter_def)
qed

subsection \<open>Operations that return\<close>

lemma ready_returned:
  assumes "length (sha grant) = 64" "length grant = 64" "list_all lower_hex grant"
    and wrote: "operation (sha grant) d = Inr (g, d')" and sound: "ledger_sound d'"
    and h: "h \<in> set (ledger_generations d')" "same_generation h g" "gg_lifecycle h = ReadyGeneration"
      "gg_digest h = sha grant"
  shows "ready_change sha NoFault grant goal n operation st d =
    (Inr g, st\<lparr>si_grants := (si_grants st)((goal, n) \<mapsto> grant)\<rparr>, d')"
proof -
  have "gg_goal h = gg_goal g" "gg_number h = gg_number g" using h(2) by (simp_all add: same_generation_def)
  then have "ready_attested (sha grant) g d' = Inr True"
    using generation_attested [OF sound h(1,2)] generation_found [OF sound h(1)] h(3,4)
    by (simp add: ready_attested_def require_generation_def has_ready_grant_def)
  with wrote assms(2,3) show ?thesis
    by (simp add: ready_change_def grant_digest_def change_def require_def)
qed

lemma set_generation_member:
  assumes "g \<in> set (ledger_generations d)"
  shows "g\<lparr>gg_number := n, gg_lifecycle := st, gg_attempt := attempt, gg_digest := digest\<rparr> \<in>
    set (ledger_generations (set_generation (gg_goal g) n st attempt digest d))"
  using assms by (force simp: set_generation_def)

lemma set_phase_member:
  assumes "a \<in> set (ledger_attempts d)"
  shows "a\<lparr>ar_phase := p, ar_witness := witness, ar_resolution := resolution\<rparr> \<in>
    set (ledger_attempts (set_phase (ar_attempt a) p witness resolution d))"
  using assms by (force simp: set_phase_def)

text \<open>An explicit retry of a blocked goal with a decision that was not used before.\<close>

lemma retry_returns:
  assumes sound: "ledger_sound d" and g: "g \<in> set (ledger_generations d)"
    "gg_lifecycle g = BlockedGeneration" "gg_attempt g = Some attempt"
    and unused: "unused d (gg_goal g) decision"
    and grant: "length (sha grant) = 64" "length grant = 64" "list_all lower_hex grant"
  obtains d' where "goal_authorize_retry sha NoFault grant (gg_goal g) (gg_number g) attempt decision st d =
      (Inr \<lparr>gg_goal = gg_goal g, gg_number = gg_number g + 1, gg_lifecycle = ReadyGeneration,
         gg_attempt = None, gg_digest = ''''\<rparr>,
       st\<lparr>si_grants := (si_grants st)((gg_goal g, gg_number g + 1) \<mapsto> grant)\<rparr>, d')"
    "ledger_sound d'" "map ar_reservation (ledger_attempts d') = map ar_reservation (ledger_attempts d)"
    "g\<lparr>gg_number := gg_number g + 1, gg_lifecycle := ReadyGeneration, gg_attempt := None,
       gg_digest := sha grant\<rparr> \<in> set (ledger_generations d')"
proof -
  let ?n = "gg_number g + 1"
  let ?row = "\<lparr>gwd_goal = gg_goal g, gwd_decision = decision, gwd_generation = gg_number g\<rparr>"
  let ?d1 = "d\<lparr>ledger_decisions := ledger_decisions d @ [?row]\<rparr>"
  let ?d2 = "set_phase attempt ResolvedAttempt None (DecidedResolution decision) ?d1"
  let ?d3 = "set_generation (gg_goal g) ?n ReadyGeneration None (sha grant) ?d2"
  let ?s = "\<lparr>gg_goal = gg_goal g, gg_number = ?n, gg_lifecycle = ReadyGeneration, gg_attempt = None,
    gg_digest = ''''\<rparr>"
  have keys: "ledger_keys d" and agrees: "ledger_agrees d" using sound by (simp_all add: ledger_sound_def)
  obtain a where a: "a \<in> set (ledger_attempts d)" "ar_attempt a = attempt" "ar_goal a = gg_goal g"
    "ar_generation a = gg_number g"
    using agreesD(4) [OF agrees g(1,3)] by blast
  have failed: "ar_phase a = FailedAttempt"
    using attempt_agreesD [OF keys agrees g(1) a(1,3)] a(4) g(2) by (simp add: attempt_agrees_def)
  have step: "ledger_step d ?d3"
    using retried [OF g a(1,3,4,2) failed unused] by simp
  have sound': "ledger_sound ?d3" by (rule sound_step [OF step sound])
  have n: "1 \<le> gg_number g" by (rule agreesD(2) [OF agrees g(1)])
  have keys1: "ledger_keys ?d1" using keys unused by (auto simp: ledger_keys_def unused_def)
  then have keys2: "ledger_keys ?d2" by (simp add: ledger_keys_def)
  have phase: "record_advance a ResolvedAttempt None (DecidedResolution decision) ?d1 = Inr ((), ?d2)"
    using phase_written [OF keys1, of a ResolvedAttempt None "DecidedResolution decision"] a g(1) failed
    by (fastforce simp: may_become_eq)
  have advance: "generation_advance g ?s (sha grant) ?d2 = Inr (?s, ?d3)"
    using generation_written [OF keys2, of g g ?s "sha grant"] g n grant(1) by (simp add: may_become_eq)
  have expected: "expected_generation (gg_goal g)
      (make_generation (gg_goal g) (gg_number g) BlockedGeneration (Some attempt) '''') e d = Inr (g, d)" for e
    by (rule expected_found [OF sound g(1) refl g(2,3)])
  have decided: "claim_decision (gg_goal g) decision (gg_number g) d = Inr ((), ?d1)"
    by (rule decision_written [OF unused]) (use g(1) in blast)
  have found: "identified (read_attempt d attempt) (gg_goal g) (gg_number g) attempt e = Inr a" for e
    using attempt_found [OF sound a(1)] a(2-4) by (simp add: identified_def)
  have ready: "ready_generation (gg_goal g) ?n = Inr ?s"
    using n by (simp add: ready_generation_def)
  have wrote: "retry_write (gg_goal g) (gg_number g) attempt decision (sha grant) d = Inr (?s, ?d3)"
    by (simp add: retry_write_def op_eval expected found failed require_retryable_def require_def
        decided phase ready advance)
  let ?h = "g\<lparr>gg_number := ?n, gg_lifecycle := ReadyGeneration, gg_attempt := None, gg_digest := sha grant\<rparr>"
  have member: "?h \<in> set (ledger_generations ?d3)"
    by (rule set_generation_member) (use g(1) in simp)
  have "goal_authorize_retry sha NoFault grant (gg_goal g) (gg_number g) attempt decision st d =
      (Inr ?s, st\<lparr>si_grants := (si_grants st)((gg_goal g, ?n) \<mapsto> grant)\<rparr>, ?d3)"
    unfolding goal_authorize_retry_def
    by (rule ready_returned [where sha = sha and grant = grant and h = ?h, OF grant _ sound' member])
      (use wrote in \<open>simp_all add: same_generation_def\<close>)
  then show thesis
    by (rule that) (use sound' member in simp_all)
qed

lemma attested_held:
  assumes "ledger_sound d" "held d r a" "ar_phase a = p"
  shows "attested p r d = Inr True"
proof -
  from assms(2) obtain g where g: "g \<in> set (ledger_generations d)" "a \<in> set (ledger_attempts d)"
    "ar_reservation a = r" "gg_goal g = res_goal r" "gg_number g = res_generation r"
    "gg_lifecycle g = ReservedGeneration" "gg_attempt g = Some (res_attempt r)"
    by (rule heldE)
  let ?s = "\<lparr>gg_goal = res_goal r, gg_number = res_generation r, gg_lifecycle = ReservedGeneration,
    gg_attempt = Some (res_attempt r), gg_digest = ''''\<rparr>"
  have "1 \<le> res_generation r" using assms(1) g(1,5) agreesD(2) [of d g] by (simp add: ledger_sound_def)
  then have "reserved_generation r = Inr ?s" by (simp add: reserved_generation_def)
  moreover have "is_generation ?s d = Inr True"
    by (rule generation_attested [OF assms(1) g(1)]) (use g in \<open>simp add: same_generation_def\<close>)
  moreover have "read_attempt d (res_attempt r) = Some a"
    using attempt_found [OF assms(1) g(2)] g(3) by simp
  ultimately show ?thesis using g(3) assms(3) by (simp add: attested_def readback_def holds_def)
qed

lemma reserve_returns:
  assumes sound: "ledger_sound d" and g: "g \<in> set (ledger_generations d)"
    "gg_lifecycle g = ReadyGeneration" "gg_digest g = sha grant" "gg_goal g = res_goal r"
    "gg_number g = res_generation r"
    and grant: "length grant = 64" "list_all lower_hex grant"
    and fresh: "\<forall>a \<in> set (ledger_attempts d). ar_attempt a \<noteq> res_attempt r"
  obtains st' d' a where "reserve sha NoFault (Some grant) r st d = (Inr r, st', d')"
    "res_attempt r \<in> set (si_owned st')" "ledger_sound d'" "held d' r a" "ar_phase a = ReservedAttempt"
proof -
  let ?a = "\<lparr>ar_reservation = r, ar_phase = ReservedAttempt, ar_witness = None, ar_resolution = NoResolution\<rparr>"
  let ?d1 = "d\<lparr>ledger_attempts := ledger_attempts d @ [?a]\<rparr>"
  let ?d2 = "set_generation (res_goal r) (res_generation r) ReservedGeneration (Some (res_attempt r)) '''' ?d1"
  let ?s = "\<lparr>gg_goal = res_goal r, gg_number = res_generation r, gg_lifecycle = ReservedGeneration,
    gg_attempt = Some (res_attempt r), gg_digest = ''''\<rparr>"
  have keys: "ledger_keys d" and agrees: "ledger_agrees d" using sound by (simp_all add: ledger_sound_def)
  have unnamed: "gg_attempt g = None" by (rule ready_unnamed [OF keys agrees g(1,2)])
  have older: "\<forall>a \<in> set (ledger_attempts d). ar_attempt a \<noteq> res_attempt r \<and>
      \<not> (ar_goal a = res_goal r \<and> ar_generation a = res_generation r)"
    using unnamed_attempts [OF keys agrees g(1) unnamed] fresh g(4,5) by fastforce
  have n: "1 \<le> res_generation r" using agreesD(2) [OF agrees g(1)] g(5) by simp
  have sound': "ledger_sound ?d2"
    by (rule sound_step [OF ledger_step.reserved [OF g(1,2,4,5) older] sound])
  have expected: "expected_generation (res_goal r) (ready_generation (res_goal r) (res_generation r)) e d = Inr (g, d)" for e
    using expected_found [OF sound g(1,5,2) unnamed] g(4) by (simp add: ready_generation_def)
  have entered: "enter attempt_records_table ?a d = Inr ((), ?d1)"
    using older g(1,4) by (auto simp: enter_Inr insert_row_Inr attempt_records_table_def Let_def)
  have keys1: "ledger_keys ?d1" using keys older by (auto simp: ledger_keys_def)
  have advance: "generation_advance g ?s '''' ?d1 = Inr (?s, ?d2)"
    using generation_written [OF keys1, of g g ?s "''''"] g n by (simp add: may_become_eq)
  have ready: "reserved_generation r = Inr ?s" using n by (simp add: reserved_generation_def)
  have wrote: "reserve_write (sha grant) r d = Inr (r, ?d2)"
    by (simp add: reserve_write_def op_eval expected g(3) entered ready advance)
  have "g\<lparr>gg_number := res_generation r, gg_lifecycle := ReservedGeneration, gg_attempt := Some (res_attempt r),
      gg_digest := ''''\<rparr> \<in> set (ledger_generations ?d2)"
    using set_generation_member [of g ?d1] g(1,4) by simp
  then have held: "held ?d2 r ?a" unfolding held_def using g(4)
    by (intro conjI) (simp_all, rule bexI, simp_all)
  have "attested ReservedAttempt r ?d2 = Inr True" by (rule attested_held [OF sound' held]) simp
  then have "reserve sha NoFault (Some grant) r st d =
      (Inr r, st\<lparr>si_grants := (si_grants st)(launch_key r := None), si_owned := res_attempt r # si_owned st\<rparr>, ?d2)"
    using wrote grant by (simp add: reserve_def grant_digest_def change_def require_def)
  then show thesis by (rule that [where a = ?a]) (use sound' held in simp_all)
qed

lemma claim_returns:
  assumes sound: "ledger_sound d" and held: "held d r a" "ar_phase a = ReservedAttempt"
    and owned: "res_attempt r \<in> set (si_owned st)"
  shows "fst (claim_launch NoFault r st d) = Inr (LaunchPermit r)"
proof -
  let ?d = "set_phase (res_attempt r) ClaimedAttempt None NoResolution d"
  from held(1) obtain g where g: "g \<in> set (ledger_generations d)" "a \<in> set (ledger_attempts d)"
    "ar_reservation a = r" "gg_goal g = res_goal r" "gg_number g = res_generation r"
    "gg_lifecycle g = ReservedGeneration" "gg_attempt g = Some (res_attempt r)"
    by (rule heldE)
  have n: "1 \<le> res_generation r" using sound g(1,5) agreesD(2) [of d g] by (simp add: ledger_sound_def)
  have "require_current r ReservedAttempt d = Inr (a, d)"
    using generation_found [OF sound g(1)] attempt_found [OF sound g(2)] g held(2) n
    by (simp add: require_current_def Let_def op_eval reserved_by_def reserved_generation_def expects_def
        same_generation_def make_generation_def require_def)
  moreover have "record_advance a ClaimedAttempt None NoResolution d = Inr ((), ?d)"
    using phase_written [of d a ClaimedAttempt None NoResolution] sound g held(2)
    by (fastforce simp: may_become_eq ledger_sound_def)
  ultimately have wrote: "claim_write r d = Inr (r, ?d)" by (simp add: claim_write_def op_eval)
  have sound': "ledger_sound ?d" by (rule sound_step [OF ledger_step.claimed [OF held] sound])
  have "held ?d r (a\<lparr>ar_phase := ClaimedAttempt, ar_witness := None, ar_resolution := NoResolution\<rparr>)"
    using set_phase_member [OF g(2), where p = ClaimedAttempt and witness = None and resolution = NoResolution] held(1) g(3) by (simp add: held_def)
  then have "attested ClaimedAttempt r ?d = Inr True" by (rule attested_held [OF sound']) simp
  with wrote owned show ?thesis by (simp add: claim_launch_def change_def Let_def)
qed

subsection \<open>What runs can and cannot do\<close>

text \<open>A blocked goal is launched again by an explicit decision, a reservation and a claim.\<close>

lemma goal_run_append:
  "goal_run sha (calls @ rest) = foldl (\<lambda>w c. goal_perform sha c w) (goal_run sha calls) rest"
  by (simp add: goal_run_def)

lemma relaunched:
  assumes g: "g \<in> set (ledger_generations (gw_ledger w))" "gg_lifecycle g = BlockedGeneration"
      "gg_attempt g = Some attempt"
    and sound: "ledger_sound (gw_ledger w)"
    and unused: "unused (gw_ledger w) (gg_goal g) decision"
    and grant: "length (sha grant) = 64" "length grant = 64" "list_all lower_hex grant"
    and fresh: "\<forall>a \<in> set (ledger_attempts (gw_ledger w)). ar_attempt a \<noteq> res_attempt r"
    and r: "res_goal r = gg_goal g" "res_generation r = gg_number g + 1"
  shows "gw_permits (foldl (\<lambda>w c. goal_perform sha c w) w
    [Request i NoFault (AuthorizeRetry grant (gg_goal g) (gg_number g) attempt decision),
     Request j NoFault (Reserve (Some grant) r), Request j NoFault (ClaimLaunch r)]) = gw_permits w @ [r]"
proof -
  obtain d1 where
    retry: "goal_authorize_retry sha NoFault grant (gg_goal g) (gg_number g) attempt decision (gw_stores w i) (gw_ledger w) =
      (Inr \<lparr>gg_goal = gg_goal g, gg_number = gg_number g + 1, gg_lifecycle = ReadyGeneration,
         gg_attempt = None, gg_digest = ''''\<rparr>,
       (gw_stores w i)\<lparr>si_grants := (si_grants (gw_stores w i))((gg_goal g, gg_number g + 1) \<mapsto> grant)\<rparr>, d1)"
    and d1: "ledger_sound d1" "map ar_reservation (ledger_attempts d1) = map ar_reservation (ledger_attempts (gw_ledger w))"
      "g\<lparr>gg_number := gg_number g + 1, gg_lifecycle := ReadyGeneration, gg_attempt := None,
         gg_digest := sha grant\<rparr> \<in> set (ledger_generations d1)"
    by (rule retry_returns [where sha = sha and grant = grant, OF sound g unused grant])
  let ?w1 = "goal_perform sha (Request i NoFault (AuthorizeRetry grant (gg_goal g) (gg_number g) attempt decision)) w"
  have w1: "gw_ledger ?w1 = d1" "gw_permits ?w1 = gw_permits w" using retry by (simp_all add: quiet_def)
  have "ar_reservation ` set (ledger_attempts d1) = ar_reservation ` set (ledger_attempts (gw_ledger w))"
    using d1(2) by (metis set_map)
  then have fresh1: "\<forall>a \<in> set (ledger_attempts d1). ar_attempt a \<noteq> res_attempt r"
    using fresh by (metis (no_types, lifting) imageE imageI)
  from reserve_returns [OF d1(1,3), of sha grant r "gw_stores ?w1 j"] grant r fresh1
  obtain st d2 a where reserve: "reserve sha NoFault (Some grant) r (gw_stores ?w1 j) d1 = (Inr r, st, d2)"
    and d2: "res_attempt r \<in> set (si_owned st)" "ledger_sound d2" "held d2 r a" "ar_phase a = ReservedAttempt"
    by auto
  let ?w2 = "goal_perform sha (Request j NoFault (Reserve (Some grant) r)) ?w1"
  have w2: "gw_ledger ?w2 = d2" "gw_permits ?w2 = gw_permits w" "gw_stores ?w2 j = st"
    using reserve w1 by (simp_all add: quiet_def)
  from claim_returns [OF d2(2-4,1)] obtain st' d' where
    "claim_launch NoFault r st d2 = (Inr (LaunchPermit r), st', d')"
    by (cases "claim_launch NoFault r st d2") auto
  with w2 have "gw_permits (goal_perform sha (Request j NoFault (ClaimLaunch r)) ?w2) = gw_permits w @ [r]"
    by (simp del: goal_perform.simps(2) add: goal_perform.simps(2) [of sha j NoFault "ClaimLaunch r" ?w2])
  then show ?thesis by (simp only: foldl.simps)
qed

fun authorizing :: "goal_request \<Rightarrow> (string \<times> work_decision) option" where
  "authorizing (AuthorizeReadyRecovery grant goal n decision) = Some (goal, decision)"
| "authorizing (AuthorizeRetry grant goal n attempt decision) = Some (goal, decision)"
| "authorizing (AuthorizeCurrentRetry grant goal decision) = Some (goal, decision)"
| "authorizing _ = None"

lemma ready_change_returned:
  "ready_change sha fault grant goal n operation st d = (Inr g, st', d') \<Longrightarrow>
   operation (sha grant) d = Inr (g, d')"
  by (auto simp: ready_change_def grant_digest_def split: sum.splits prod.splits dest!: change_returned)

lemma ready_change_refused:
  assumes "\<And>digest. \<exists>e. operation digest d = Inl e"
  shows "\<exists>e. ready_change sha fault grant goal n operation st d = (Inl e, st, d)"
proof (cases "grant_digest sha grant")
  case (Inr digest)
  from assms [of digest] obtain e where "operation digest d = Inl e" ..
  with Inr show ?thesis by (simp add: ready_change_def change_def)
qed (simp add: ready_change_def)

lemma recovery_recorded:
  "ready_recovery_write goal n decision digest d = Inr (g, d') \<Longrightarrow> \<not> unused d' goal decision \<and> unused d goal decision"
  by (auto simp: ready_recovery_write_def op_simps unused_def
      dest!: generation_advance_Inr claim_decision_Inr expected_generation_Inr)

lemma retry_recorded:
  "retry_write goal n attempt decision digest d = Inr (g, d') \<Longrightarrow> \<not> unused d' goal decision \<and> unused d goal decision"
  by (auto simp: retry_write_def op_simps unused_def
      dest!: generation_advance_Inr claim_decision_Inr expected_generation_Inr record_advance_Inr)

lemma authorized_recorded:
  assumes "serve sha fault request st d = (Inr permit, st', d')" "authorizing request = Some (goal, decision)"
  shows "\<not> unused d' goal decision"
proof -
  have recovery: "\<not> unused d' goal decision"
    if "authorize_ready_recovery sha fault grant goal n decision st d = (Inr g, st', d')" for grant n g
    using recovery_recorded [OF ready_change_returned [OF that [unfolded authorize_ready_recovery_def]]] by simp
  have retry: "\<not> unused d' goal decision"
    if "goal_authorize_retry sha fault grant goal n attempt decision st d = (Inr g, st', d')" for grant n g attempt
    using retry_recorded [OF ready_change_returned [OF that [unfolded goal_authorize_retry_def]]] by simp
  have quiet: "\<exists>x. outcome = (Inr x, rest)" if "quiet outcome = (Inr permit, rest)"
    for outcome :: "'x result \<times> store_instance \<times> ledger" and rest
    using that by (auto simp: quiet_def split: prod.splits sum.splits)
  have current: "\<not> unused d' goal decision"
    if current: "authorize_current_retry sha fault grant goal decision st d = (Inr x, st', d')" for grant x
  proof (cases "require_generation d goal")
    case (Inr g)
    then have "gg_goal g = goal"
      by (auto simp: require_generation_def split: option.splits dest: generation_one_Some)
    with Inr current recovery retry show ?thesis
      by (cases "gg_lifecycle g") (auto simp: authorize_current_retry_def split: option.splits)
  qed (use current in \<open>simp add: authorize_current_retry_def\<close>)
  show ?thesis using assms recovery retry current by (cases request) (auto dest!: quiet)
qed

lemma recorded_refused:
  assumes "authorizing request = Some (goal, decision)" "\<not> unused d goal decision"
  shows "\<exists>e. serve sha fault request st d = (Inl e, st, d)"
proof -
  have recovery: "\<exists>e. authorize_ready_recovery sha fault grant goal n decision st d = (Inl e, st, d)" for grant n
    unfolding authorize_ready_recovery_def
    by (rule ready_change_refused) (metis assms(2) obj_sumE recovery_recorded surj_pair)
  have retry: "\<exists>e. goal_authorize_retry sha fault grant goal n attempt decision st d = (Inl e, st, d)"
    for grant n attempt
    unfolding goal_authorize_retry_def
    by (rule ready_change_refused) (metis assms(2) obj_sumE retry_recorded surj_pair)
  have current: "\<exists>e. authorize_current_retry sha fault grant goal decision st d = (Inl e, st, d)" for grant
  proof (cases "require_generation d goal")
    case (Inr g)
    then have "gg_goal g = goal"
      by (auto simp: require_generation_def split: option.splits dest: generation_one_Some)
    with Inr recovery retry show ?thesis
      by (cases "gg_lifecycle g") (auto simp: authorize_current_retry_def split: option.splits)
  qed (simp add: authorize_current_retry_def)
  have quiet: "\<exists>e. quiet outcome = (Inl e, st, d)" if "\<exists>e. outcome = (Inl e, st, d)"
    for outcome :: "goal_generation result \<times> store_instance \<times> ledger"
    using that by (auto simp: quiet_def)
  show ?thesis using assms(1) by (cases request) (auto intro!: quiet recovery retry current)
qed

lemma used_lasts: "ledger_later d d' \<Longrightarrow> \<not> unused d goal decision \<Longrightarrow> \<not> unused d' goal decision"
  by (auto simp: ledger_later_def unused_def)

text \<open>A work decision that was recorded authorizes nothing more.\<close>

lemma lost_owner_refused:
  "serve sha fault (ClaimLaunch r) fresh_instance d =
     (Inl (UnresolvedAttempt ''A reservation cannot be replayed after owner loss.''), fresh_instance, d)"
  "\<exists>e. serve sha fault (Reserve None r) fresh_instance d = (Inl e, fresh_instance, d)"
  by (auto simp: claim_launch_def reserve_def fresh_instance_def quiet_def rbind_def
      split: sum.splits option.splits if_splits)

end
