(* ===== verification/Goal_Examples.thy ===== *)
theory Goal_Examples
  imports Goal_Progress
begin

text \<open>
  Concrete runs of the goal ledger, evaluated once: a goal is created, reserved and launched, and its
  attempt fails, so that its generation is blocked.
\<close>

definition goal_sha :: "string \<Rightarrow> string" where
  "goal_sha text = text"

definition first_grant :: string where
  "first_grant = ''0123456789abcdef0123456789abcdef0123456789abcdef0123456789abcdef''"

definition second_grant :: string where
  "second_grant = ''fedcba9876543210fedcba9876543210fedcba9876543210fedcba9876543210''"

definition first_reservation :: reservation where
  "first_reservation = \<lparr>res_goal = ''g1'', res_generation = 1, res_attempt = ''a1'', res_token = ''t1''\<rparr>"

definition second_reservation :: reservation where
  "second_reservation = \<lparr>res_goal = ''g1'', res_generation = 2, res_attempt = ''a2'', res_token = ''t2''\<rparr>"

definition launched_calls :: "goal_call list" where
  "launched_calls =
     [Request 0 NoFault (CreateGoal first_grant ''g1''),
      Request 0 NoFault (Reserve None first_reservation),
      Request 0 NoFault (ClaimLaunch first_reservation)]"

definition blocked_calls :: "goal_call list" where
  "blocked_calls = launched_calls @ [Request 0 NoFault (FailAttempt OriginFailed None first_reservation)]"

lemma launched_ledger:
  "gw_ledger (goal_run goal_sha launched_calls) =
     empty_ledger\<lparr>ledger_generations := [\<lparr>gg_goal = ''g1'', gg_number = 1, gg_lifecycle = ReservedGeneration,
       gg_attempt = Some ''a1'', gg_digest = ''''\<rparr>],
     ledger_attempts := [\<lparr>ar_reservation = first_reservation, ar_phase = ClaimedAttempt, ar_witness = None,
       ar_resolution = NoResolution\<rparr>]\<rparr>"
  by code_simp

lemma blocked_ledger:
  "gw_ledger (goal_run goal_sha blocked_calls) =
     empty_ledger\<lparr>ledger_generations := [\<lparr>gg_goal = ''g1'', gg_number = 1, gg_lifecycle = BlockedGeneration,
       gg_attempt = Some ''a1'', gg_digest = ''''\<rparr>],
     ledger_attempts := [\<lparr>ar_reservation = first_reservation, ar_phase = FailedAttempt, ar_witness = None,
       ar_resolution = OriginFailed\<rparr>]\<rparr>"
  by code_simp

lemma second_grant_valid: "length (goal_sha second_grant) = 64" "length second_grant = 64"
  "list_all lower_hex second_grant"
  by (simp_all add: goal_sha_def second_grant_def lower_hex_def)

definition retry_request :: goal_request where
  "retry_request = AuthorizeRetry second_grant ''g1'' 1 ''a1'' (RetryDecision ''k'')"

definition reauthorized_calls :: "goal_call list" where
  "reauthorized_calls = blocked_calls @ [Request 0 NoFault retry_request]"

lemma retry_served:
  obtains st d where "serve goal_sha NoFault retry_request (gw_stores (goal_run goal_sha blocked_calls) 0)
      (gw_ledger (goal_run goal_sha blocked_calls)) = (Inr NoLaunchPermit, st, d)"
proof -
  have "fst (serve goal_sha NoFault retry_request (gw_stores (goal_run goal_sha blocked_calls) 0)
      (gw_ledger (goal_run goal_sha blocked_calls))) = Inr NoLaunchPermit"
    by code_simp
  with that show ?thesis by (metis prod.collapse)
qed

end
