(* ===== verification/Cohort_Tables.thy ===== *)
theory Cohort_Tables
  imports Coordinator_Calls "HOL-Library.Char_ord" "HOL-Library.List_Lexorder" "HOL-Library.Product_Lexorder"
begin

text \<open>
  \<open>cohort_schema.py\<close> with the table of \<open>coordination/tables/harness_deliveries.py\<close>: the rows that record
  which bus original was accepted for which recipients.  They share the coordinator's file, so the
  state of a private coordinator is the coordinator's world with these tables.  A trigger of the
  delivery table watches inserts of claims: \<open>claiming\<close> runs a coordinator operation under it.
\<close>

subsection \<open>Rows\<close>

record batch =
  bt_root :: string
  bt_seq :: int
  bt_message :: string
  bt_target :: string
  bt_envelope :: string
  bt_audience :: string
  bt_decisions :: string
  bt_members :: int
  bt_claims :: int
  bt_codec :: string
  bt_resolver :: string
  bt_policy :: string
  bt_accepted :: int
  bt_sealed :: bool

record batch_member =
  bm_root :: string
  bm_seq :: int
  bm_ordinal :: int
  bm_claim :: string
  bm_recipient :: string

text \<open>\<open>SelectedClaim\<close> is \<open>Some\<close>, \<open>NoDeliveryClaim\<close> is \<open>None\<close>.\<close>

record cohort_delivery =
  cd_root :: string
  cd_seq :: int
  cd_ordinal :: int
  cd_recipient :: string
  cd_thread :: string
  cd_claim :: "string option"

record acceptance_frontier =
  fr_root :: string
  fr_recipient :: string
  fr_through :: int

record claim_generation =
  cg_claim :: string
  cg_root :: string
  cg_seq :: int
  cg_owner :: string
  cg_generation :: int

datatype harness_outcome =
    FilteredOutcome | UnconfirmedOutcome | DeliveredOutcome | AcceptedOutcome | PersistedOutcome
  | EmittedOutcome

text \<open>The evidence of a monitor: sizes, reasons and ids as stored; a time is kept in its spelling.\<close>

datatype monitor_evidence =
    UnrecordedMonitor
  | ReceivingMonitor int
  | LedgerReceivingMonitor int string
  | MismatchedMonitor string
  | ObservedMonitor string string

record harness_attempt =
  ha_bridge :: string
  ha_recipient :: string
  ha_message :: string
  ha_seq :: int
  ha_outcome :: harness_outcome
  ha_monitor :: monitor_evidence

record cohort_state =
  co_world :: world
  co_batches :: "batch list"
  co_members :: "batch_member list"
  co_deliveries :: "cohort_delivery list"
  co_frontiers :: "acceptance_frontier list"
  co_generations :: "claim_generation list"
  co_attempts :: "harness_attempt list"

abbreviation co_db :: "cohort_state \<Rightarrow> coordination" where
  "co_db s \<equiv> w_db (co_world s)"

type_synonym 'a accepting = "(cohort_state, 'a) op"

subsection \<open>What belongs to one cohort\<close>

definition batch_members_of :: "cohort_state \<Rightarrow> string \<Rightarrow> int \<Rightarrow> batch_member list" where
  "batch_members_of s root seq = filter (\<lambda>m. bm_root m = root \<and> bm_seq m = seq) (co_members s)"

definition deliveries_of :: "cohort_state \<Rightarrow> string \<Rightarrow> int \<Rightarrow> cohort_delivery list" where
  "deliveries_of s root seq = filter (\<lambda>d. cd_root d = root \<and> cd_seq d = seq) (co_deliveries s)"

definition claimed :: "coordination \<Rightarrow> string \<Rightarrow> int \<Rightarrow> bool" where
  "claimed d lookup seq \<longleftrightarrow>
     (\<exists>c \<in> set (wake_claims d). asg_recipient_lookup c = lookup \<and> asg_wire_seq c = seq)"

text \<open>The conditions under which sealing a batch is refused: wrong counts, ordinals out of range,
  members that do not number the claimed deliveries in order, or a claim of an observer.\<close>

definition counts_refused :: "cohort_state \<Rightarrow> batch \<Rightarrow> bool" where
  "counts_refused s b \<longleftrightarrow>
     int (length (deliveries_of s (bt_root b) (bt_seq b))) \<noteq> bt_members b \<or>
     int (length (filter (\<lambda>d. cd_claim d \<noteq> None) (deliveries_of s (bt_root b) (bt_seq b)))) \<noteq> bt_claims b \<or>
     int (length (batch_members_of s (bt_root b) (bt_seq b))) \<noteq> bt_claims b"

definition ordinals_refused :: "cohort_state \<Rightarrow> batch \<Rightarrow> bool" where
  "ordinals_refused s b \<longleftrightarrow>
     (\<exists>d \<in> set (deliveries_of s (bt_root b) (bt_seq b)). bt_members b \<le> cd_ordinal d) \<or>
     (\<exists>m \<in> set (batch_members_of s (bt_root b) (bt_seq b)). bt_claims b \<le> bm_ordinal m)"

definition member_refused :: "cohort_delivery list \<Rightarrow> batch_member \<Rightarrow> bool" where
  "member_refused ds m \<longleftrightarrow>
     (\<forall>d \<in> set ds. cd_claim d \<noteq> Some (bm_claim m)) \<or>
     (\<exists>d \<in> set ds. cd_claim d = Some (bm_claim m) \<and>
        bm_ordinal m \<noteq> int (length (filter (\<lambda>p. cd_claim p \<noteq> None \<and> cd_ordinal p < cd_ordinal d) ds)))"

definition seal_refused :: "cohort_state \<Rightarrow> batch \<Rightarrow> bool" where
  "seal_refused s b \<longleftrightarrow>
     counts_refused s b \<or> ordinals_refused s b \<or>
     (\<exists>m \<in> set (batch_members_of s (bt_root b) (bt_seq b)).
        member_refused (deliveries_of s (bt_root b) (bt_seq b)) m) \<or>
     (\<exists>d \<in> set (deliveries_of s (bt_root b) (bt_seq b)).
        cd_claim d = None \<and> claimed (co_db s) (cd_recipient d) (cd_seq d))"

subsection \<open>Tables\<close>

definition batch_checks :: "batch \<Rightarrow> bool" where
  "batch_checks r \<longleftrightarrow>
     0 < bt_seq r \<and> text_within 256 (bt_target r) \<and> length (bt_envelope r) = 64 \<and>
     length (bt_audience r) = 64 \<and> length (bt_decisions r) = 64 \<and>
     0 \<le> bt_members r \<and> bt_members r \<le> 4096 \<and> 0 \<le> bt_claims r \<and> bt_claims r \<le> bt_members r \<and>
     text_within 256 (bt_codec r) \<and> text_within 256 (bt_resolver r) \<and> text_within 256 (bt_policy r) \<and>
     0 \<le> bt_accepted r"

definition batches_table :: "(cohort_state, batch) table_spec" where
  "batches_table = \<lparr>table_name = ''claim_batch_receipts'',
     table_rows = co_batches, table_put = co_batches_update,
     insert_refused = (\<lambda>s r. bt_sealed r),
     update_refused = (\<lambda>s old new. bt_sealed old \<or> \<not> bt_sealed new \<or> seal_refused s old \<or>
       old\<lparr>bt_sealed := bt_sealed new\<rparr> \<noteq> new),
     row_checks = batch_checks,
     row_conflict = (\<lambda>r r'. bt_root r = bt_root r' \<and> bt_seq r = bt_seq r'),
     row_references = (\<lambda>s r. True), after_refused = (\<lambda>s r. False)\<rparr>"

definition batch_open :: "cohort_state \<Rightarrow> string \<Rightarrow> int \<Rightarrow> bool" where
  "batch_open s root seq \<longleftrightarrow>
     (\<forall>b \<in> set (co_batches s). bt_root b = root \<and> bt_seq b = seq \<longrightarrow> \<not> bt_sealed b)"

definition member_insert_refused :: "cohort_state \<Rightarrow> batch_member \<Rightarrow> bool" where
  "member_insert_refused s r \<longleftrightarrow>
     \<not> batch_open s (bm_root r) (bm_seq r) \<or>
     \<not> (\<exists>c \<in> set (wake_claims (co_db s)). \<exists>b \<in> set (co_batches s).
          bt_root b = bm_root r \<and> bt_seq b = bm_seq r \<and> asg_id c = bm_claim r \<and>
          asg_recipient_lookup c = bm_recipient r \<and> asg_wire_seq c = bm_seq r \<and>
          asg_message_id c = bt_message b \<and> asg_resolver c = bt_resolver b \<and>
          asg_policy c = bt_policy b \<and> asg_accepted c = bt_accepted b)"

definition batch_members_table :: "(cohort_state, batch_member) table_spec" where
  "batch_members_table = \<lparr>table_name = ''claim_batch_members'',
     table_rows = co_members, table_put = co_members_update,
     insert_refused = member_insert_refused, update_refused = (\<lambda>s old new. True),
     row_checks = (\<lambda>r. 0 \<le> bm_ordinal r),
     row_conflict = (\<lambda>r r'. bm_claim r = bm_claim r' \<or>
       (bm_root r = bm_root r' \<and> bm_seq r = bm_seq r' \<and>
        (bm_ordinal r = bm_ordinal r' \<or> bm_recipient r = bm_recipient r'))),
     row_references = (\<lambda>s r.
       (\<exists>c \<in> set (wake_claims (co_db s)). asg_id c = bm_claim r) \<and>
       has_participant (co_db s) (bm_recipient r) \<and>
       (\<exists>b \<in> set (co_batches s). bt_root b = bm_root r \<and> bt_seq b = bm_seq r)),
     after_refused = (\<lambda>s r. False)\<rparr>"

definition delivery_insert_refused :: "cohort_state \<Rightarrow> cohort_delivery \<Rightarrow> bool" where
  "delivery_insert_refused s r \<longleftrightarrow>
     \<not> batch_open s (cd_root r) (cd_seq r) \<or>
     (case cd_claim r of
        None \<Rightarrow> False
      | Some claim \<Rightarrow>
          \<not> (\<exists>m \<in> set (co_members s). \<exists>c \<in> set (wake_claims (co_db s)).
               asg_id c = bm_claim m \<and> bm_root m = cd_root r \<and> bm_seq m = cd_seq r \<and>
               bm_claim m = claim \<and> bm_recipient m = cd_recipient r \<and> asg_recipient c = cd_thread r))"

definition cohort_deliveries_table :: "(cohort_state, cohort_delivery) table_spec" where
  "cohort_deliveries_table = \<lparr>table_name = ''cohort_delivery_receipts'',
     table_rows = co_deliveries, table_put = co_deliveries_update,
     insert_refused = delivery_insert_refused, update_refused = (\<lambda>s old new. True),
     row_checks = (\<lambda>r. 0 \<le> cd_ordinal r \<and> text_within 256 (cd_thread r)),
     row_conflict = (\<lambda>r r'. cd_root r = cd_root r' \<and> cd_seq r = cd_seq r' \<and>
       (cd_ordinal r = cd_ordinal r' \<or> cd_recipient r = cd_recipient r' \<or> cd_thread r = cd_thread r' \<or>
        (cd_claim r \<noteq> None \<and> cd_claim r = cd_claim r'))),
     row_references = (\<lambda>s r. has_participant (co_db s) (cd_recipient r) \<and>
       (case cd_claim r of None \<Rightarrow> True
        | Some claim \<Rightarrow> \<exists>c \<in> set (wake_claims (co_db s)). asg_id c = claim) \<and>
       (\<exists>b \<in> set (co_batches s). bt_root b = cd_root r \<and> bt_seq b = cd_seq r)),
     after_refused = (\<lambda>s r. False)\<rparr>"

definition frontiers_table :: "(cohort_state, acceptance_frontier) table_spec" where
  "frontiers_table = \<lparr>table_name = ''acceptance_frontier'',
     table_rows = co_frontiers, table_put = co_frontiers_update,
     insert_refused = (\<lambda>s r. False), update_refused = (\<lambda>s old new. False),
     row_checks = (\<lambda>r. 0 \<le> fr_through r),
     row_conflict = (\<lambda>r r'. fr_root r = fr_root r' \<and> fr_recipient r = fr_recipient r'),
     row_references = (\<lambda>s r. has_participant (co_db s) (fr_recipient r)),
     after_refused = (\<lambda>s r. False)\<rparr>"

definition generation_insert_refused :: "cohort_state \<Rightarrow> claim_generation \<Rightarrow> bool" where
  "generation_insert_refused s r \<longleftrightarrow>
     \<not> (\<exists>m \<in> set (co_members s). \<exists>c \<in> set (wake_claims (co_db s)). \<exists>b \<in> set (co_batches s).
          \<exists>g \<in> set (owner_generations (co_db s)).
          asg_id c = bm_claim m \<and> bt_root b = bm_root m \<and> bt_seq b = bm_seq m \<and>
          gen_owner g = bm_recipient m \<and> bm_claim m = cg_claim r \<and> bm_root m = cg_root r \<and>
          bm_seq m = cg_seq r \<and> bm_recipient m = cg_owner r \<and> asg_recipient_lookup c = cg_owner r \<and>
          asg_message_id c = bt_message b \<and> \<not> bt_sealed b \<and> generation g = cg_generation r)"

definition claim_generations_table :: "(cohort_state, claim_generation) table_spec" where
  "claim_generations_table = \<lparr>table_name = ''awareness_claim_generations'',
     table_rows = co_generations, table_put = co_generations_update,
     insert_refused = generation_insert_refused, update_refused = (\<lambda>s old new. True),
     row_checks = (\<lambda>r. 0 < cg_seq r \<and> 0 < cg_generation r),
     row_conflict = (\<lambda>r r'. cg_claim r = cg_claim r'),
     row_references = (\<lambda>s r.
       (\<exists>c \<in> set (wake_claims (co_db s)). asg_id c = cg_claim r) \<and>
       has_participant (co_db s) (cg_owner r) \<and>
       (\<exists>m \<in> set (co_members s). bm_root m = cg_root r \<and> bm_seq m = cg_seq r \<and> bm_claim m = cg_claim r)),
     after_refused = (\<lambda>s r. False)\<rparr>"

definition same_attempt :: "harness_attempt \<Rightarrow> harness_attempt \<Rightarrow> bool" where
  "same_attempt r r' \<longleftrightarrow>
     ha_bridge r = ha_bridge r' \<and> ha_recipient r = ha_recipient r' \<and> ha_message r = ha_message r'"

definition harness_attempts_table :: "(cohort_state, harness_attempt) table_spec" where
  "harness_attempts_table = \<lparr>table_name = ''harness_deliveries'',
     table_rows = co_attempts, table_put = co_attempts_update,
     insert_refused = (\<lambda>s r. False),
     update_refused = (\<lambda>s old new.
       frozen_violated ha_bridge old new \<or> frozen_violated ha_recipient old new \<or>
       frozen_violated ha_message old new \<or> frozen_violated ha_seq old new),
     row_checks = (\<lambda>r. 0 < ha_seq r),
     row_conflict = (\<lambda>r r'. same_attempt r r' \<or>
       (ha_bridge r = ha_bridge r' \<and> ha_recipient r = ha_recipient r' \<and> ha_seq r = ha_seq r')),
     row_references = (\<lambda>s r. has_participant (co_db s) (ha_recipient r)),
     after_refused = (\<lambda>s r. False)\<rparr>"

lemmas cohort_tables = batches_table_def batch_members_table_def cohort_deliveries_table_def
  frontiers_table_def claim_generations_table_def harness_attempts_table_def

interpretation batch_t: stored_table batches_table
  by unfold_locales (auto simp: cohort_tables)

interpretation member_t: stored_table batch_members_table
  by unfold_locales (auto simp: cohort_tables)

interpretation delivery_t: stored_table cohort_deliveries_table
  by unfold_locales (auto simp: cohort_tables)

interpretation frontier_t: stored_table frontiers_table
  by unfold_locales (auto simp: cohort_tables)

interpretation claim_generation_t: stored_table claim_generations_table
  by unfold_locales (auto simp: cohort_tables)

interpretation harness_t: stored_table harness_attempts_table
  by unfold_locales (auto simp: cohort_tables)

subsection \<open>Statements\<close>

text \<open>\<open>upsert\<close>: an insert that rewrites the row of the same primary key, and \<open>insert_if_absent\<close>: one that
  does nothing on any conflict.\<close>

definition upsert_row :: "('d, 'r) table_spec \<Rightarrow> ('r \<Rightarrow> 'r \<Rightarrow> bool) \<Rightarrow> 'r \<Rightarrow> 'd \<Rightarrow> 'd result" where
  "upsert_row T same_key r d =
     (case find (\<lambda>i. same_key r (table_rows T d ! i)) [0..<length (table_rows T d)] of
        None \<Rightarrow> insert_row T r d
      | Some i \<Rightarrow>
          if insert_refused T d r then Inl (SqlAbort (table_name T)) else update_row T i r d)"

definition insert_absent_row :: "('d, 'r) table_spec \<Rightarrow> 'r \<Rightarrow> 'd \<Rightarrow> 'd result" where
  "insert_absent_row T r d =
     (if \<not> insert_refused T d r \<and> row_checks T r \<and> list_ex (row_conflict T r) (table_rows T d) then Inr d
      else insert_row T r d)"

definition put_row :: "(cohort_state, 'r) table_spec \<Rightarrow> 'r \<Rightarrow> unit accepting" where
  "put_row T r s = rbind (insert_row T r s) (\<lambda>s'. Inr ((), s'))"

text \<open>The trigger on inserts of claims: an observer of a sealed cohort is never given one.\<close>

definition observer_claimed :: "cohort_state \<Rightarrow> assignment \<Rightarrow> bool" where
  "observer_claimed s c \<longleftrightarrow>
     (\<exists>d \<in> set (co_deliveries s). \<exists>b \<in> set (co_batches s).
        bt_root b = cd_root d \<and> bt_seq b = cd_seq d \<and> bt_sealed b \<and>
        cd_recipient d = asg_recipient_lookup c \<and> cd_seq d = asg_wire_seq c \<and> cd_claim d = None)"

text \<open>Claims are appended, so the claims an operation inserted are those behind the old ones.\<close>

definition new_claims :: "coordination \<Rightarrow> coordination \<Rightarrow> assignment list" where
  "new_claims d d' = drop (length (wake_claims d)) (wake_claims d')"

definition claiming :: "'a coordinated \<Rightarrow> 'a accepting" where
  "claiming m s =
     (case m (w_session (co_world s)) of
        Inl e \<Rightarrow> Inl e
      | Inr (a, t) \<Rightarrow>
          if list_ex (observer_claimed s) (new_claims (co_db s) (db t)) then Inl (SqlAbort ''wake_claims'')
          else Inr (a, s\<lparr>co_world := (co_world s)\<lparr>w_session := t\<rparr>\<rparr>))"

text \<open>One transaction over all tables of the file.\<close>

definition committing :: "'a accepting \<Rightarrow> 'a accepting" where
  "committing m s =
     (case m s of
        Inl e \<Rightarrow> Inl e
      | Inr (a, s') \<Rightarrow> if deferred_ok (co_db s') then Inr (a, s') else Inl (SqlConstraint ''COMMIT''))"

end
