(* ===== verification/Cohort_Acceptance.thy ===== *)
theory Cohort_Acceptance
  imports Cohort_Tables
begin

text \<open>
  \<open>coordination/cohort.py\<close>, \<open>cohort_foreground.py\<close>, \<open>cohort_schema.py\<close> and the operations of
  \<open>coordination/tables/harness_deliveries.py\<close> with \<open>harness_delivery_states.py\<close>: accepting a committed bus
  original for all its frozen recipients in one transaction, replaying an acceptance, scanning the
  originals addressed to a recipient, and paging through the claims whose cohort is sealed.
\<close>

subsection \<open>Canonical text\<close>

text \<open>\<open>json.dumps\<close> without layout and with sorted keys, for a list of objects of strings, in UTF-8.  A
  character stands for the code point of its number.\<close>

definition hex_digit :: "nat \<Rightarrow> char" where
  "hex_digit n = ''0123456789abcdef'' ! (n mod 16)"

definition utf8_char :: "char \<Rightarrow> string" where
  "utf8_char c =
     (let n = of_char c :: nat in
      if n < 128 then [c] else [char_of (192 + n div 64), char_of (128 + n mod 64)])"

definition utf8 :: "string \<Rightarrow> string" where
  "utf8 t = concat (map utf8_char t)"

definition json_char :: "char \<Rightarrow> string" where
  "json_char c =
     (let n = of_char c :: nat in
      if n = 34 \<or> n = 92 then [CHR 0x5C, c]
      else if n = 10 then [CHR 0x5C, CHR ''n'']
      else if n = 13 then [CHR 0x5C, CHR ''r'']
      else if n = 9 then [CHR 0x5C, CHR ''t'']
      else if n = 8 then [CHR 0x5C, CHR ''b'']
      else if n = 12 then [CHR 0x5C, CHR ''f'']
      else if n < 32 then CHR 0x5C # ''u00'' @ [hex_digit (n div 16), hex_digit n]
      else [c])"

definition json_string :: "string \<Rightarrow> string" where
  "json_string t = CHR 0x22 # concat (map json_char t) @ [CHR 0x22]"

fun comma_separated :: "string list \<Rightarrow> string" where
  "comma_separated [] = ''''"
| "comma_separated [t] = t"
| "comma_separated (t # ts) = t @ '','' @ comma_separated ts"

definition json_object :: "wire_row \<Rightarrow> string" where
  "json_object row =
     ''{'' @ comma_separated (map (\<lambda>(k, v). json_string k @ '':'' @ json_string v) (sort_key fst row)) @ ''}''"

definition canonical_rows :: "wire_row list \<Rightarrow> string" where
  "canonical_rows rows = utf8 (''['' @ comma_separated (map json_object rows) @ '']'')"

fun decimal :: "nat \<Rightarrow> string" where
  "decimal n = (if n < 10 then [hex_digit n] else decimal (n div 10) @ [hex_digit (n mod 10)])"

declare decimal.simps [simp del]

definition decimal_int :: "int \<Rightarrow> string" where
  "decimal_int i = (if i < 0 then CHR ''-'' # decimal (nat (- i)) else decimal (nat i))"

subsection \<open>The rows of an acceptance\<close>

text \<open>A committed delivery with the digests of its envelope and of its frozen audience.\<close>

record delivered = delivery +
  dv_target :: string
  dv_envelope :: string
  dv_audience :: string

abbreviation dv_seq :: "delivered \<Rightarrow> int" where
  "dv_seq v \<equiv> fst (del_reference v)"

definition max_audience_bytes :: int where
  "max_audience_bytes = 1024 * 1024"

definition decision_hash :: "(string \<Rightarrow> string) \<Rightarrow> delivered \<Rightarrow> string result" where
  "decision_hash sha v =
     (let encoded = canonical_rows (map decision_to_wire (del_decisions v)) in
      rbind (require (int (length encoded) \<le> max_audience_bytes)
               (ValueError ''Private decision set exceeds its byte bound.'')) (\<lambda>_.
      Inr (sha (''agent-comms:cohort-decisions:v1'' @ [CHR 0x00] @ encoded))))"

definition for_delivery :: "(string \<Rightarrow> string) \<Rightarrow> string \<Rightarrow> delivered \<Rightarrow> int \<Rightarrow> batch result" where
  "for_delivery sha namespace v accepted =
     rbind (decision_hash sha v) (\<lambda>decisions.
     Inr \<lparr>bt_root = namespace, bt_seq = dv_seq v, bt_message = snd (del_reference v),
          bt_target = dv_target v, bt_envelope = dv_envelope v, bt_audience = dv_audience v,
          bt_decisions = decisions, bt_members = int (length (del_recipients v)),
          bt_claims = int (length (concat (map claim_decisions (del_decisions v)))),
          bt_codec = ''audience-v1'', bt_resolver = resolver_version, bt_policy = policy_version,
          bt_accepted = accepted, bt_sealed = False\<rparr>)"

definition require_delivery :: "(string \<Rightarrow> string) \<Rightarrow> string \<Rightarrow> delivered \<Rightarrow> batch \<Rightarrow> unit result" where
  "require_delivery sha namespace v b =
     rbind (for_delivery sha namespace v (bt_accepted b)) (\<lambda>expected.
     require (b\<lparr>bt_sealed := False\<rparr> = expected)
       (IdentityConflict ''sealed cohort acknowledgement conflicts with committed bus''))"

definition cohort_assignment_id :: "(string \<Rightarrow> string) \<Rightarrow> string \<Rightarrow> int \<Rightarrow> string \<Rightarrow> string" where
  "cohort_assignment_id sha root seq lookup =
     ''cohort-v1:'' @ sha (utf8 (''agent-comms:cohort-claim:v1'' @ [CHR 0x00] @ root @ '':'' @
       decimal_int seq @ '':'' @ lookup))"

definition cohort_claim ::
  "(string \<Rightarrow> string) \<Rightarrow> string \<Rightarrow> message_reference \<Rightarrow> int \<Rightarrow> string \<Rightarrow> string \<Rightarrow> message_audience \<Rightarrow>
   wake_policy \<Rightarrow> assignment" where
  "cohort_claim sha namespace ref accepted thread lookup audience policy =
     \<lparr>asg_id = cohort_assignment_id sha namespace (fst ref) lookup, asg_recipient = thread,
      asg_recipient_lookup = lookup, asg_wire_seq = fst ref, asg_message_id = snd ref,
      asg_audience = audience, asg_lifecycle = initial_state policy, asg_accepted = accepted,
      asg_updated = accepted, asg_revision = 1, asg_resolver = resolver_version,
      asg_policy = policy_version\<rparr>"

text \<open>The claims of one member, each constructed and so checked.\<close>

fun member_claims ::
  "(string \<Rightarrow> string) \<Rightarrow> string \<Rightarrow> message_reference \<Rightarrow> int \<Rightarrow> string \<Rightarrow> recipient_decision \<Rightarrow>
   assignment list result" where
  "member_claims sha namespace ref accepted thread (NoWakeDecision lookup reason) = Inr []"
| "member_claims sha namespace ref accepted thread (WakeDecision lookup audience policy) =
     (let c = cohort_claim sha namespace ref accepted thread lookup audience policy in
      rbind (assignment_row_valid c) (\<lambda>_. Inr [c]))"

fun expected_members ::
  "(string \<Rightarrow> string) \<Rightarrow> string \<Rightarrow> message_reference \<Rightarrow> int \<Rightarrow> (string \<times> string) list \<Rightarrow>
   recipient_decision list \<Rightarrow> assignment list result" where
  "expected_members sha namespace ref accepted [] [] = Inr []"
| "expected_members sha namespace ref accepted ((lookup, thread) # rs) (decision # ds) =
     rbind (require (lookup = decision_recipient decision)
              (IntegrityViolationError ''bus decision does not match frozen N'')) (\<lambda>_.
     rbind (member_claims sha namespace ref accepted thread decision) (\<lambda>cs.
     rbind (expected_members sha namespace ref accepted rs ds) (\<lambda>rest. Inr (cs @ rest))))"
| "expected_members sha namespace ref accepted _ _ = Inl (ValueError ''zip() arguments differ in length'')"

definition expected_assignments ::
  "(string \<Rightarrow> string) \<Rightarrow> string \<Rightarrow> delivered \<Rightarrow> int \<Rightarrow> assignment list result" where
  "expected_assignments sha namespace v accepted =
     expected_members sha namespace (del_reference v) accepted (del_recipients v) (del_decisions v)"

definition member_rows :: "string \<Rightarrow> delivered \<Rightarrow> assignment list \<Rightarrow> batch_member list" where
  "member_rows namespace v expected =
     map (\<lambda>(ordinal, c). \<lparr>bm_root = namespace, bm_seq = dv_seq v, bm_ordinal = int ordinal,
            bm_claim = asg_id c, bm_recipient = asg_recipient_lookup c\<rparr>)
       (List.enumerate 0 expected)"

text \<open>\<open>selected.get(lookup, NoDeliveryClaim())\<close>: a dictionary keeps the last value of a key.\<close>

definition selected_claim :: "assignment list \<Rightarrow> string \<Rightarrow> string option" where
  "selected_claim expected lookup =
     map_of (rev (map (\<lambda>c. (asg_recipient_lookup c, asg_id c)) expected)) lookup"

definition delivery_rows :: "string \<Rightarrow> delivered \<Rightarrow> assignment list \<Rightarrow> cohort_delivery list" where
  "delivery_rows namespace v expected =
     map (\<lambda>(ordinal, lookup, thread). \<lparr>cd_root = namespace, cd_seq = dv_seq v,
            cd_ordinal = int ordinal, cd_recipient = lookup, cd_thread = thread,
            cd_claim = selected_claim expected lookup\<rparr>)
       (List.enumerate 0 (del_recipients v))"

subsection \<open>Reading an acceptance\<close>

record accepted_cohort =
  ac_root :: string
  ac_reference :: message_reference
  ac_members :: int
  ac_claims :: int
  ac_accepted :: int
  ac_assignments :: "assignment list"

definition batch_one :: "cohort_state \<Rightarrow> string \<Rightarrow> int \<Rightarrow> batch option result" where
  "batch_one s namespace seq =
     one_row (\<lambda>_. Inr ()) (\<lambda>b. bt_root b = namespace \<and> bt_seq b = seq) (co_batches s)"

definition current_claim :: "coordination \<Rightarrow> assignment \<Rightarrow> assignment result" where
  "current_claim d accepted =
     rbind (one_row assignment_row_valid (\<lambda>r. asg_id r = asg_id accepted) (wake_claims d)) (\<lambda>found.
       case found of
         None \<Rightarrow> Inl (IdentityConflict ''sealed cohort claim is missing'')
       | Some actual \<Rightarrow> rbind (require_same_acceptance accepted actual) (\<lambda>_. Inr actual))"

definition observer_unclaimed :: "coordination \<Rightarrow> int \<Rightarrow> (string \<times> string) \<times> recipient_decision \<Rightarrow> unit result" where
  "observer_unclaimed d seq member =
     (if claim_decisions (snd member) = []
      then rbind (one_row assignment_row_valid
                    (\<lambda>r. asg_recipient_lookup r = fst (fst member) \<and> asg_wire_seq r = seq) (wake_claims d)) (\<lambda>found.
             require (found = None) (IdentityConflict ''no-wake observer has a conflicting unbound claim''))
      else Inr ())"

definition claim_record ::
  "(string \<Rightarrow> string) \<Rightarrow> string \<Rightarrow> delivered \<Rightarrow> cohort_state \<Rightarrow> accepted_cohort result" where
  "claim_record sha namespace v s =
     rbind (batch_one s namespace (dv_seq v)) (\<lambda>found.
       case found of
         None \<Rightarrow> Inl (IdentityConflict ''cohort acknowledgement is absent or unsealed'')
       | Some row \<Rightarrow>
           rbind (require (bt_sealed row)
                    (IdentityConflict ''cohort acknowledgement is absent or unsealed'')) (\<lambda>_.
           rbind (require_delivery sha namespace v row) (\<lambda>_.
           rbind (expected_assignments sha namespace v (bt_accepted row)) (\<lambda>expected.
           rbind (require (sort_key bm_ordinal (batch_members_of s namespace (dv_seq v)) =
                           member_rows namespace v expected)
                    (IdentityConflict ''sealed K claim members conflict with committed bus'')) (\<lambda>_.
           rbind (require (sort_key cd_ordinal (deliveries_of s namespace (dv_seq v)) =
                           delivery_rows namespace v expected)
                    (IdentityConflict ''sealed N delivery rows conflict with committed bus'')) (\<lambda>_.
           rbind (rmap (current_claim (co_db s)) expected) (\<lambda>current.
           rbind (rforeach (zip (del_recipients v) (del_decisions v)) (observer_unclaimed (co_db s) (dv_seq v))) (\<lambda>_.
           Inr \<lparr>ac_root = namespace, ac_reference = del_reference v,
                ac_members = int (length (del_recipients v)), ac_claims = int (length expected),
                ac_accepted = bt_accepted row, ac_assignments = current\<rparr>))))))))"

subsection \<open>Attempts of a harness\<close>

definition settled_outcome :: "harness_outcome \<Rightarrow> bool" where
  "settled_outcome out \<longleftrightarrow> out \<in> {FilteredOutcome, DeliveredOutcome, AcceptedOutcome, PersistedOutcome}"

fun monitor_steps :: "monitor_evidence \<Rightarrow> assignment_state \<Rightarrow> assignment_kind list" where
  "monitor_steps (ObservedMonitor record_id at) st = harness_delivery st"
| "monitor_steps _ st = []"

definition attempt_reference :: "harness_attempt \<Rightarrow> message_reference" where
  "attempt_reference a = (ha_seq a, ha_message a)"

definition attempt_stored :: "harness_attempt \<Rightarrow> cohort_state \<Rightarrow> harness_attempt list result" where
  "attempt_stored a s =
     (let rows = filter (same_attempt a) (co_attempts s) in
      rbind (require (rows = [] \<or> ha_seq (hd rows) = ha_seq a)
               (IdentityConflict (''message '' @ ha_message a @ '' was attempted at '' @
                  decimal_int (ha_seq (hd rows)) @ '', not '' @ decimal_int (ha_seq a)))) (\<lambda>_.
      Inr rows))"

definition attempt_write :: "harness_attempt \<Rightarrow> unit accepting" where
  "attempt_write a =
     othen (ofetch (attempt_stored a))
       (\<lambda>s. rbind (upsert_row harness_attempts_table same_attempt a s) (\<lambda>s'. Inr ((), s')))"

definition first_write :: "harness_attempt \<Rightarrow> bool accepting" where
  "first_write a =
     obind (ofetch (attempt_stored a)) (\<lambda>rows.
       if rows \<noteq> [] then oreturn False
       else othen (put_row harness_attempts_table a) (oreturn True))"

definition settle_claims :: "(nat \<Rightarrow> int) \<Rightarrow> harness_attempt \<Rightarrow> unit accepting" where
  "settle_claims clock a =
     oforeach [harness_handoff, monitor_steps (ha_monitor a)] (\<lambda>steps.
       claiming (settle_harness_inputs clock (ha_recipient a) [attempt_reference a] steps))"

definition attempt_begin :: "(nat \<Rightarrow> int) \<Rightarrow> harness_attempt \<Rightarrow> bool accepting" where
  "attempt_begin clock a = othen (settle_claims clock a) (first_write a)"

definition attempt_recorded :: "(nat \<Rightarrow> int) \<Rightarrow> harness_attempt \<Rightarrow> unit accepting" where
  "attempt_recorded clock a = othen (settle_claims clock a) (attempt_write a)"

text \<open>\<open>stored, = self.stored(db)\<close> unpacks the one stored row; the outcome it carries decides whether the
  changed attempt is taken.\<close>

definition stored_attempt :: "harness_attempt \<Rightarrow> harness_attempt accepting" where
  "stored_attempt a =
     obind (ofetch (attempt_stored a)) (\<lambda>rows.
       case rows of
         [stored] \<Rightarrow> oreturn stored
       | _ \<Rightarrow> ofail (ValueError ''expected one stored attempt''))"

definition attempt_apply ::
  "(nat \<Rightarrow> int) \<Rightarrow> (harness_attempt \<Rightarrow> harness_attempt) \<Rightarrow> harness_attempt \<Rightarrow> harness_attempt accepting" where
  "attempt_apply clock step a =
     obind (stored_attempt a) (\<lambda>stored.
       if settled_outcome (ha_outcome stored) then stored_attempt (step stored)
       else othen (attempt_recorded clock (step stored)) (oreturn (step stored)))"

definition attempts_for_recipients ::
  "cohort_state \<Rightarrow> (string \<times> message_reference) list \<Rightarrow> harness_attempt list" where
  "attempts_for_recipients s keys =
     sort_key (\<lambda>a. (ha_seq a, ha_recipient a, ha_bridge a))
       (concat (map (\<lambda>(lookup, ref).
            filter (\<lambda>a. ha_recipient a = lookup \<and> attempt_reference a = ref) (co_attempts s))
          (first_occurrences keys)))"

subsection \<open>Accepting an original\<close>

text \<open>The optional rows are written behind a savepoint: a refused row or a missing owner drops them all.\<close>

fun optional_refusal :: "error \<Rightarrow> bool" where
  "optional_refusal (SqlConstraint _) \<longleftrightarrow> True"
| "optional_refusal (SqlAbort _) \<longleftrightarrow> True"
| "optional_refusal (IdentityConflict _) \<longleftrightarrow> True"
| "optional_refusal _ \<longleftrightarrow> False"

definition owner_generation_row :: "string \<Rightarrow> int \<Rightarrow> assignment \<Rightarrow> unit accepting" where
  "owner_generation_row root seq c =
     obind (ofetch (\<lambda>s. one_row (\<lambda>_. Inr ()) (\<lambda>g. gen_owner g = asg_recipient_lookup c)
              (owner_generations (co_db s)))) (\<lambda>found.
       case found of
         None \<Rightarrow> ofail (IdentityConflict ''optional claim generation has no current owner'')
       | Some g \<Rightarrow>
           put_row claim_generations_table
             \<lparr>cg_claim = asg_id c, cg_root = root, cg_seq = seq, cg_owner = asg_recipient_lookup c,
              cg_generation = generation g\<rparr>)"

definition record_owner_generations :: "string \<Rightarrow> int \<Rightarrow> assignment list \<Rightarrow> unit accepting" where
  "record_owner_generations root seq expected s =
     (case oforeach expected (owner_generation_row root seq) s of
        Inl e \<Rightarrow> if optional_refusal e then Inr ((), s) else Inl e
      | Inr r \<Rightarrow> Inr r)"

definition seal :: "string \<Rightarrow> int \<Rightarrow> nat accepting" where
  "seal root seq =
     update_where batches_table (\<lambda>b. bt_root b = root \<and> bt_seq b = seq) (bt_sealed_update (\<lambda>_. True))"

definition require_unclaimed :: "int \<Rightarrow> unit accepting" where
  "require_unclaimed seq =
     othen
       (obind (ofetch (\<lambda>s. decode_rows assignment_row_valid
                (filter (\<lambda>c. asg_wire_seq c = seq) (wake_claims (co_db s))))) (\<lambda>rows.
          orequire (rows = []) (IdentityConflict ''singleton claim cannot be adopted by a cohort'')))
       (obind (oread (\<lambda>s. filter (\<lambda>b. bt_seq b = seq) (co_batches s))) (\<lambda>rows.
          orequire (rows = []) (IdentityConflict ''wire sequence already belongs to another cohort root'')))"

definition require_participants :: "(string \<times> string) list \<Rightarrow> unit accepting" where
  "require_participants recipients =
     oforeach recipients (\<lambda>(lookup, thread).
       obind (ofetch (\<lambda>s. one_row (\<lambda>_. Inr ()) (\<lambda>p. participant_lookup p = lookup)
                (participants (co_db s)))) (\<lambda>found.
         orequire (found \<noteq> None) (IdentityConflict ''frozen recipient has no durable participant identity'')))"

definition insert_cohort :: "string \<Rightarrow> delivered \<Rightarrow> batch \<Rightarrow> assignment list \<Rightarrow> unit accepting" where
  "insert_cohort namespace v row expected =
     othen (put_row batches_table row)
    (othen (oforeach (zip expected (member_rows namespace v expected)) (\<lambda>(c, m).
              othen (claiming (insert_into wake_claims_table c)) (put_row batch_members_table m)))
       (oforeach (delivery_rows namespace v expected) (put_row cohort_deliveries_table)))"

definition record_new ::
  "(string \<Rightarrow> string) \<Rightarrow> (nat \<Rightarrow> int) \<Rightarrow> string \<Rightarrow> delivered \<Rightarrow> accepted_cohort accepting" where
  "record_new sha clock namespace v =
     othen (require_unclaimed (dv_seq v))
    (othen (require_participants (del_recipients v))
    (obind (claiming (now clock 0)) (\<lambda>accepted.
     obind (olift (expected_assignments sha namespace v accepted)) (\<lambda>expected.
     obind (olift (for_delivery sha namespace v accepted)) (\<lambda>row.
     othen (insert_cohort namespace v row expected)
    (othen (record_owner_generations namespace (dv_seq v) expected)
    (obind (oread (\<lambda>s. attempts_for_recipients s
              (map (\<lambda>c. (asg_recipient_lookup c, del_reference v)) expected))) (\<lambda>attempts.
     othen (oforeach attempts (settle_claims clock))
    (othen (seal namespace (dv_seq v))
       (ofetch (claim_record sha namespace v)))))))))))"

definition cohort_record ::
  "(string \<Rightarrow> string) \<Rightarrow> (nat \<Rightarrow> int) \<Rightarrow> string \<Rightarrow> delivered \<Rightarrow> accepted_cohort applied accepting" where
  "cohort_record sha clock namespace v =
     obind (ofetch (\<lambda>s. batch_one s namespace (dv_seq v))) (\<lambda>found.
       case found of
         Some _ \<Rightarrow> obind (ofetch (claim_record sha namespace v)) (\<lambda>c. oreturn (AlreadyApplied c))
       | None \<Rightarrow> obind (record_new sha clock namespace v) (\<lambda>c. oreturn (Applied c)))"

subsection \<open>Scanning the originals of a recipient\<close>

definition scan_after :: "cohort_state \<Rightarrow> string \<Rightarrow> string \<Rightarrow> int result" where
  "scan_after s root lookup =
     rbind (require_row (\<lambda>_. Inr ()) (\<lambda>f. fr_root f = root \<and> fr_recipient f = lookup)
              (RowMissing ''acceptance_frontier'') (co_frontiers s)) (\<lambda>f. Inr (fr_through f))"

definition same_frontier :: "acceptance_frontier \<Rightarrow> acceptance_frontier \<Rightarrow> bool" where
  "same_frontier r r' \<longleftrightarrow> fr_root r = fr_root r' \<and> fr_recipient r = fr_recipient r'"

definition frontier_advance :: "acceptance_frontier \<Rightarrow> unit accepting" where
  "frontier_advance f =
     obind (ofetch (\<lambda>s. scan_after s (fr_root f) (fr_recipient f))) (\<lambda>current.
       if current < fr_through f
       then (\<lambda>s. rbind (upsert_row frontiers_table same_frontier f s) (\<lambda>s'. Inr ((), s')))
       else oreturn ())"

definition declare_acceptance :: "string \<Rightarrow> string \<Rightarrow> unit accepting" where
  "declare_acceptance namespace lookup s =
     rbind (insert_absent_row frontiers_table
              \<lparr>fr_root = namespace, fr_recipient = lookup, fr_through = 0\<rparr> s) (\<lambda>s'. Inr ((), s'))"

definition sealed_sequences_after :: "cohort_state \<Rightarrow> string \<Rightarrow> string \<Rightarrow> int \<Rightarrow> nat \<Rightarrow> int list" where
  "sealed_sequences_after s root lookup after limit =
     take limit (sort [cd_seq d. d \<leftarrow> co_deliveries s, b \<leftarrow> co_batches s,
       bt_root b = cd_root d \<and> bt_seq b = cd_seq d \<and> bt_sealed b \<and>
       cd_root d = root \<and> cd_recipient d = lookup \<and> after < cd_seq d])"

definition frontier_page :: nat where
  "frontier_page = 101"

text \<open>\<open>source.received\<close> reads the addressed originals of one cut of the bus in the order of their
  sequence; the originals of the bus are given in that order.\<close>

definition received_after :: "delivered list \<Rightarrow> string \<Rightarrow> int \<Rightarrow> nat \<Rightarrow> delivered list" where
  "received_after originals lookup after limit =
     take limit (filter (\<lambda>v. after < dv_seq v \<and> lookup \<in> fst ` set (del_recipients v)) originals)"

primrec unaccepted_in ::
  "int list \<Rightarrow> string \<Rightarrow> string \<Rightarrow> delivered list \<Rightarrow> delivered list result" where
  "unaccepted_in accepted lookup owner [] = Inr []"
| "unaccepted_in accepted lookup owner (v # vs) =
     (if dv_seq v \<in> set accepted then unaccepted_in accepted lookup owner vs
      else
        let recipients = filter (\<lambda>r. fst r = lookup) (del_recipients v) in
        rbind (require (recipients \<noteq> [])
                 (RelationViolation ''checked initial lookup differs from bus row.'')) (\<lambda>_.
        rbind (unaccepted_in accepted lookup owner vs) (\<lambda>rest.
        Inr (if list_ex (\<lambda>r. snd r = owner) recipients then v # rest else rest))))"

text \<open>A scan has two transactions.  The first only reads: the page behind the frontier, the originals in
  it still to be accepted, and the position the page ends at.\<close>

definition scan_visible ::
  "string \<Rightarrow> string \<Rightarrow> string \<Rightarrow> string \<Rightarrow> delivered list \<Rightarrow> cohort_state \<Rightarrow> (delivered list \<times> int) result" where
  "scan_visible root captured lookup owner originals s =
     rbind (require (captured = root) (IdentityConflict ''native namespace changed'')) (\<lambda>_.
     rbind (scan_after s root lookup) (\<lambda>after.
     let page = received_after originals lookup after frontier_page in
     rbind (unaccepted_in (sealed_sequences_after s root lookup after frontier_page) lookup owner page) (\<lambda>unaccepted.
     Inr (unaccepted, if page = [] then after else dv_seq (last page)))))"

text \<open>The second accepts them and moves the frontier.\<close>

definition accept_scanned ::
  "(string \<Rightarrow> string) \<Rightarrow> (nat \<Rightarrow> int) \<Rightarrow> string \<Rightarrow> string \<Rightarrow> string \<Rightarrow> delivered list \<Rightarrow> int \<Rightarrow> unit accepting" where
  "accept_scanned sha clock root namespace lookup unaccepted through =
     committing
      (othen (orequire (namespace = root) (IdentityConflict ''native namespace changed''))
      (othen (oforeach unaccepted (\<lambda>v. othen (cohort_record sha clock namespace v) (oreturn ())))
         (frontier_advance \<lparr>fr_root = root, fr_recipient = lookup, fr_through = through\<rparr>)))"

text \<open>Nothing is held between the two, so other callers may commit there: \<open>others\<close> is what they do.\<close>

definition accept_visible ::
  "(string \<Rightarrow> string) \<Rightarrow> (nat \<Rightarrow> int) \<Rightarrow> string \<Rightarrow> string \<Rightarrow> string \<Rightarrow> string \<Rightarrow> string \<Rightarrow> delivered list \<Rightarrow>
   (cohort_state \<Rightarrow> cohort_state) \<Rightarrow> unit accepting" where
  "accept_visible sha clock root captured namespace lookup owner originals others s =
     rbind (scan_visible root captured lookup owner originals s) (\<lambda>(unaccepted, through).
     accept_scanned sha clock root namespace lookup unaccepted through (others s))"

subsection \<open>Paging through sealed claims\<close>

text \<open>The joined rows of the projection.\<close>

definition sealed_join ::
  "(assignment_state \<Rightarrow> bool) \<Rightarrow> cohort_state \<Rightarrow> string \<Rightarrow> int \<Rightarrow> assignment list" where
  "sealed_join selects s lookup after =
     [c. c \<leftarrow> wake_claims (co_db s), m \<leftarrow> co_members s, b \<leftarrow> co_batches s, d \<leftarrow> co_deliveries s,
       bm_claim m = asg_id c \<and> bt_root b = bm_root m \<and> bt_seq b = bm_seq m \<and> bt_sealed b \<and>
       cd_root d = bm_root m \<and> cd_seq d = bm_seq m \<and> cd_claim d = Some (asg_id c) \<and>
       asg_recipient_lookup c = lookup \<and> after < asg_wire_seq c \<and> selects (asg_lifecycle c)]"

definition sealed_cohort_assignments ::
  "(assignment_state \<Rightarrow> bool) \<Rightarrow> cohort_state \<Rightarrow> string \<Rightarrow> int \<Rightarrow> int \<Rightarrow> assignment list result" where
  "sealed_cohort_assignments selects s lookup after limit =
     rbind (require (0 \<le> after \<and> 0 < limit \<and> limit \<le> 100)
              (ValueError ''acknowledgement-backed page bounds are invalid'')) (\<lambda>_.
     decode_rows assignment_row_valid
       (take (nat limit) (sort_key (\<lambda>c. (asg_wire_seq c, asg_id c)) (sealed_join selects s lookup after))))"

definition next_sealed_assignment :: "cohort_state \<Rightarrow> string \<Rightarrow> int \<Rightarrow> assignment option result" where
  "next_sealed_assignment s lookup after =
     rbind (sealed_cohort_assignments selected_pending s lookup after 1) (\<lambda>rows.
     Inr (case rows of [] \<Rightarrow> None | c # _ \<Rightarrow> Some c))"

lemma sealed_join_member:
  assumes "c \<in> set (sealed_join selects s lookup after)"
  shows "c \<in> set (wake_claims (co_db s))" "after < asg_wire_seq c"
  using assms by (auto simp: sealed_join_def)

lemma sealed_page_member:
  assumes "sealed_cohort_assignments selects s lookup after limit = Inr page" "c \<in> set page"
  shows "c \<in> set (wake_claims (co_db s))" "after < asg_wire_seq c"
  using assms sealed_join_member [of c selects s lookup after]
  by (auto simp: sealed_cohort_assignments_def dest: in_set_takeD)

text \<open>The pages of one database transaction.  Each full page ends at a claim behind the cursor, so
  fewer claims are behind the next one.\<close>

function pending_pages ::
  "cohort_state \<Rightarrow> string \<Rightarrow> int \<Rightarrow> assignment list \<Rightarrow> assignment list result" where
  "pending_pages s lookup cursor pending =
     (case sealed_cohort_assignments selected_pending s lookup cursor 100 of
        Inl e \<Rightarrow> Inl e
      | Inr page \<Rightarrow>
          if length page < 100 then Inr (pending @ page)
          else pending_pages s lookup (asg_wire_seq (last page)) (pending @ page))"
  by pat_completeness auto

termination
proof (relation "measure (\<lambda>(s, lookup, cursor, pending).
    length (filter (\<lambda>c. cursor < asg_wire_seq c) (wake_claims (co_db s))))")
  fix s lookup cursor and pending page :: "assignment list"
  assume page: "sealed_cohort_assignments selected_pending s lookup cursor 100 = Inr page"
    and full: "\<not> length page < 100"
  let ?claims = "wake_claims (co_db s)" and ?last = "last page"
  have "?last \<in> set page" using full by (cases page) auto
  then have behind: "?last \<in> set ?claims" "cursor < asg_wire_seq ?last"
    using sealed_page_member [OF page] by auto
  have "length (filter (\<lambda>c. asg_wire_seq ?last < asg_wire_seq c) ?claims) <
    length (filter (\<lambda>c. cursor < asg_wire_seq c) ?claims)"
    by (rule filter_shrinks [where y = ?last]) (use behind in auto)
  then show "((s, lookup, asg_wire_seq ?last, pending @ page), s, lookup, cursor, pending) \<in>
    measure (\<lambda>(s, lookup, cursor, pending). length (filter (\<lambda>c. cursor < asg_wire_seq c) (wake_claims (co_db s))))"
    by simp
qed simp

declare pending_pages.simps [simp del]

definition pending_sealed_assignments :: "cohort_state \<Rightarrow> string \<Rightarrow> int \<Rightarrow> assignment list result" where
  "pending_sealed_assignments s lookup after = pending_pages s lookup after []"

end
