(* ===== verification/Cohort_Results.thy ===== *)
theory Cohort_Results
  imports Cohort_Acceptance Settlement_Results
begin

text \<open>
  Runs of a private coordinator and what holds in all of them.  \<open>cohort_step\<close> has one rule per row write
  of the cohort tables and one for the statements of the coordinator under the trigger on claims;
  every operation refines it.  What a sealed cohort consists of never changes again, which gives the
  replay of an acceptance, and a sealed cohort always satisfies the condition it was sealed under.
\<close>

subsection \<open>Steps\<close>

inductive cohort_step :: "(message \<Rightarrow> string) \<Rightarrow> cohort_state \<Rightarrow> cohort_state \<Rightarrow> bool"
  for mid :: "message \<Rightarrow> string" where
  coordinated: "(statement mid)\<^sup>*\<^sup>* (co_db s) (w_db w) \<Longrightarrow>
    \<not> list_ex (observer_claimed s) (new_claims (co_db s) (w_db w)) \<Longrightarrow>
    cohort_step mid s (s\<lparr>co_world := w\<rparr>)"
| batch_inserted: "insert_row batches_table b s = Inr s' \<Longrightarrow> cohort_step mid s s'"
| batch_updated: "i < length (co_batches s) \<Longrightarrow> update_row batches_table i b s = Inr s' \<Longrightarrow> cohort_step mid s s'"
| member_inserted: "insert_row batch_members_table m s = Inr s' \<Longrightarrow> cohort_step mid s s'"
| delivery_inserted: "insert_row cohort_deliveries_table c s = Inr s' \<Longrightarrow> cohort_step mid s s'"
| frontier_inserted: "insert_row frontiers_table f s = Inr s' \<Longrightarrow> cohort_step mid s s'"
| frontier_updated: "i < length (co_frontiers s) \<Longrightarrow> same_frontier f (co_frontiers s ! i) \<Longrightarrow>
    fr_through (co_frontiers s ! i) < fr_through f \<Longrightarrow>
    update_row frontiers_table i f s = Inr s' \<Longrightarrow> cohort_step mid s s'"
| generation_inserted: "insert_row claim_generations_table g s = Inr s' \<Longrightarrow> cohort_step mid s s'"
| attempt_inserted: "insert_row harness_attempts_table a s = Inr s' \<Longrightarrow> cohort_step mid s s'"
| attempt_updated: "i < length (co_attempts s) \<Longrightarrow> update_row harness_attempts_table i a s = Inr s' \<Longrightarrow> cohort_step mid s s'"

text \<open>What each step changes.\<close>

lemmas insert_defs = insert_row_Inr cohort_tables
lemmas update_defs = update_row_Inr cohort_tables

lemma batch_insertE:
  assumes "insert_row batches_table b s = Inr s'"
  obtains "s' = s\<lparr>co_batches := co_batches s @ [b]\<rparr>" "\<not> bt_sealed b"
    "\<forall>x \<in> set (co_batches s). \<not> (bt_root b = bt_root x \<and> bt_seq b = bt_seq x)"
  using assms by (auto simp: insert_defs)

lemma batch_updateE:
  assumes "update_row batches_table i b s = Inr s'"
  obtains "s' = s\<lparr>co_batches := (co_batches s)[i := b]\<rparr>" "\<not> bt_sealed (co_batches s ! i)"
    "b = (co_batches s ! i)\<lparr>bt_sealed := True\<rparr>" "\<not> seal_refused s (co_batches s ! i)"
proof -
  have "\<not> update_refused batches_table s (co_batches s ! i) b"
    "s' = table_put batches_table (\<lambda>rows. rows[i := b]) s"
    using assms by (simp_all add: update_row_Inr batches_table_def)
  with that show ?thesis by (simp add: batches_table_def)
qed

lemma member_insertE:
  assumes "insert_row batch_members_table m s = Inr s'"
  obtains "s' = s\<lparr>co_members := co_members s @ [m]\<rparr>" "\<not> member_insert_refused s m"
  using assms by (auto simp: insert_defs)

lemma delivery_insertE:
  assumes "insert_row cohort_deliveries_table c s = Inr s'"
  obtains "s' = s\<lparr>co_deliveries := co_deliveries s @ [c]\<rparr>" "\<not> delivery_insert_refused s c"
  using assms by (auto simp: insert_defs)

lemma side_writes:
  "insert_row frontiers_table f s = Inr s' \<Longrightarrow> s' = s\<lparr>co_frontiers := co_frontiers s @ [f]\<rparr>"
  "update_row frontiers_table i f s = Inr s' \<Longrightarrow> s' = s\<lparr>co_frontiers := (co_frontiers s)[i := f]\<rparr>"
  "insert_row claim_generations_table g s = Inr s' \<Longrightarrow> s' = s\<lparr>co_generations := co_generations s @ [g]\<rparr>"
  "insert_row harness_attempts_table a s = Inr s' \<Longrightarrow> s' = s\<lparr>co_attempts := co_attempts s @ [a]\<rparr>"
  "update_row harness_attempts_table i a s = Inr s' \<Longrightarrow> s' = s\<lparr>co_attempts := (co_attempts s)[i := a]\<rparr>"
  by (auto simp: insert_row_Inr update_row_Inr cohort_tables)

text \<open>The tables that decide what a sealed cohort is.\<close>

definition same_cohorts :: "cohort_state \<Rightarrow> cohort_state \<Rightarrow> bool" where
  "same_cohorts s s' \<longleftrightarrow> co_world s' = co_world s \<and> co_batches s' = co_batches s \<and>
     co_members s' = co_members s \<and> co_deliveries s' = co_deliveries s"

text \<open>The steps in the form in which invariants are proved for them.\<close>

lemma cohort_step_cases:
  assumes "cohort_step mid s s'"
  obtains
    (coordinated) w where "s' = s\<lparr>co_world := w\<rparr>" "(statement mid)\<^sup>*\<^sup>* (co_db s) (w_db w)"
      "\<not> list_ex (observer_claimed s) (new_claims (co_db s) (w_db w))"
  | (batch_inserted) b where "insert_row batches_table b s = Inr s'"
  | (batch_updated) i b where "i < length (co_batches s)" "update_row batches_table i b s = Inr s'"
  | (member_inserted) m where "insert_row batch_members_table m s = Inr s'"
  | (delivery_inserted) c where "insert_row cohort_deliveries_table c s = Inr s'"
  | (other) "same_cohorts s s'"
  using assms
proof cases
  case (coordinated w)
  then show ?thesis by (rule that(1))
next
  case (batch_inserted b)
  then show ?thesis by (rule that(2))
next
  case (batch_updated i b)
  then show ?thesis by (rule that(3))
next
  case (member_inserted m)
  then show ?thesis by (rule that(4))
next
  case (delivery_inserted c)
  then show ?thesis by (rule that(5))
next
  case (frontier_inserted f)
  from side_writes(1) [OF this] show ?thesis by (intro that(6)) (simp add: same_cohorts_def)
next
  case (frontier_updated i f)
  from side_writes(2) [OF this(4)] show ?thesis by (intro that(6)) (simp add: same_cohorts_def)
next
  case (generation_inserted g)
  from side_writes(3) [OF this] show ?thesis by (intro that(6)) (simp add: same_cohorts_def)
next
  case (attempt_inserted a)
  from side_writes(4) [OF this] show ?thesis by (intro that(6)) (simp add: same_cohorts_def)
next
  case (attempt_updated i a)
  from side_writes(5) [OF this(2)] show ?thesis by (intro that(6)) (simp add: same_cohorts_def)
qed

lemma cohort_rows [simp]:
  "table_rows batches_table = co_batches" "table_rows batch_members_table = co_members"
  "table_rows cohort_deliveries_table = co_deliveries" "table_rows frontiers_table = co_frontiers"
  "table_rows claim_generations_table = co_generations" "table_rows harness_attempts_table = co_attempts"
  by (simp_all add: cohort_tables)

subsection \<open>Operations are steps\<close>

interpretation cohorts: run_contract "\<lambda>s. s" "(cohort_step mid)\<^sup>*\<^sup>*" for mid
  by unfold_locales auto

abbreviation accepts :: "(message \<Rightarrow> string) \<Rightarrow> 'a accepting \<Rightarrow> bool" where
  "accepts mid m \<equiv> within (\<lambda>s. s) (cohort_step mid)\<^sup>*\<^sup>* m"

lemma accepts_step: "(\<And>s a s'. m s = Inr (a, s') \<Longrightarrow> cohort_step mid s s') \<Longrightarrow> accepts mid m"
  by (auto simp: triple_def)

lemma accepts_put:
  "accepts mid (put_row batches_table b)" "accepts mid (put_row batch_members_table m)"
  "accepts mid (put_row cohort_deliveries_table c)" "accepts mid (put_row claim_generations_table g)"
  "accepts mid (put_row harness_attempts_table a)"
  by (rule accepts_step, auto simp: put_row_def intro: cohort_step.intros)+

lemma accepts_claiming: "ran mid m \<Longrightarrow> accepts mid (claiming m)"
  by (rule accepts_step)
     (auto simp: claiming_def triple_def split: sum.splits if_splits intro!: cohort_step.coordinated)

lemma find_index:
  "find P [0..<n] = Some i \<Longrightarrow> i < n \<and> P i"
  by (auto simp: find_Some_iff)

lemma accepts_upsert:
  "accepts mid (\<lambda>s. rbind (upsert_row harness_attempts_table same_attempt_key a s) (\<lambda>s'. Inr ((), s')))"
  by (rule accepts_step, auto simp: upsert_row_def split: option.splits if_splits
      dest!: find_index intro: cohort_step.intros)

text \<open>The frontier is read before it is written, so the row that is rewritten is the one read.\<close>

lemma scan_after_row:
  assumes "scan_after s root lookup = Inr n" "f \<in> set (co_frontiers s)" "fr_root f = root" "fr_recipient f = lookup"
  shows "fr_through f = n"
proof -
  from assms(1) obtain g where "filter (\<lambda>f. fr_root f = root \<and> fr_recipient f = lookup) (co_frontiers s) = [g]"
    "fr_through g = n"
    by (auto simp: scan_after_def dest: require_row_Inr)
  moreover from assms(2-4) have "f \<in> set (filter (\<lambda>f. fr_root f = root \<and> fr_recipient f = lookup) (co_frontiers s))"
    by simp
  ultimately show ?thesis by simp
qed

lemma accepts_frontier: "accepts mid (frontier_advance f)"
  unfolding triple_def
proof (intro allI impI)
  fix s u s' assume run: "frontier_advance f s = Inr (u, s')"
  then obtain current where current: "scan_after s (fr_root f) (fr_recipient f) = Inr current"
    by (auto simp: frontier_advance_def op_simps)
  have "(cohort_step mid)\<^sup>*\<^sup>* s s'"
  proof (cases "current < fr_through f")
    case True
    with run current have up: "upsert_row frontiers_table same_frontier f s = Inr s'"
      by (auto simp: frontier_advance_def op_simps)
    show ?thesis
    proof (cases "find (\<lambda>i. same_frontier f (co_frontiers s ! i)) [0..<length (co_frontiers s)]")
      case None
      with up show ?thesis by (auto simp: upsert_row_def intro: cohort_step.frontier_inserted)
    next
      case (Some i)
      from find_index [OF Some] have i: "i < length (co_frontiers s)" "same_frontier f (co_frontiers s ! i)" by simp_all
      with True scan_after_row [OF current, of "co_frontiers s ! i"]
      have "fr_through (co_frontiers s ! i) < fr_through f" by (simp add: same_frontier_def)
      moreover from Some up have "update_row frontiers_table i f s = Inr s'"
        by (auto simp: upsert_row_def split: if_splits)
      ultimately show ?thesis using i by (blast intro: cohort_step.frontier_updated)
    qed
  next
    case False
    with run current show ?thesis by (auto simp: frontier_advance_def op_simps)
  qed
  then show "(cohort_step mid)\<^sup>*\<^sup>* s s' \<and> True" by simp
qed

lemma accepts_absent: "accepts mid (declare_acceptance namespace lookup)"
  unfolding triple_def declare_acceptance_def insert_absent_row_def
  by (auto split: if_splits intro: cohort_step.intros)

lemma accepts_seal: "accepts mid (seal root seq)"
  unfolding triple_def seal_def
proof (intro allI impI)
  fix s a s'
  let ?P = "\<lambda>b. bt_root b = root \<and> bt_seq b = seq"
  assume "update_where batches_table ?P (bt_sealed_update (\<lambda>_. True)) s = Inr (a, s')"
  then have "(cohort_step mid)\<^sup>*\<^sup>* s s'"
    by (rule batch_t.update_where_steps) (auto intro: cohort_step.batch_updated)
  then show "(cohort_step mid)\<^sup>*\<^sup>* s s' \<and> True" by simp
qed

lemma accepts_settle: "accepts mid (settle_claims clock a)"
  unfolding settle_claims_def
  by (intro cohorts.within_intros accepts_claiming settle_harness_inputs_ran)

lemma accepts_read: "accepts mid (oread f)"
  by (simp add: triple_def op_simps)

lemma accepts_generations: "accepts mid (record_owner_generations root seq expected)"
proof -
  have "accepts mid (oforeach expected (owner_generation_row root seq))"
    unfolding owner_generation_row_def by (intro cohorts.within_intros accepts_put)
  then show ?thesis by (auto simp: triple_def record_owner_generations_def split: sum.splits if_splits)
qed

lemma accepts_insert_claim:
  "assignment_row_valid c = Inr () \<Longrightarrow> asg_execution c = None \<Longrightarrow> ran mid (insert_into wake_claims_table c)"
  by (auto simp: triple_def op_simps intro!: r_into_rtranclp statement.insert_claim)

lemma expected_members_unbound:
  "expected_members sha namespace ref accepted rs ds = Inr expected \<Longrightarrow> c \<in> set expected \<Longrightarrow>
   assignment_row_valid c = Inr () \<and> asg_execution c = None"
proof (induction sha namespace ref accepted rs ds arbitrary: expected rule: expected_members.induct)
  case (2 sha namespace ref accepted lookup thread rs decision ds)
  then show ?case by (cases decision) (auto simp: Let_def cohort_claim_def)
qed auto

lemma accepts_insert_cohort:
  assumes "expected_assignments sha namespace v accepted = Inr expected"
  shows "accepts mid (insert_cohort namespace v row expected)"
proof -
  have "ran mid (insert_into wake_claims_table c)" if "c \<in> set expected" for c
    using expected_members_unbound [OF assms [unfolded expected_assignments_def] that] accepts_insert_claim by blast
  then show ?thesis unfolding insert_cohort_def
    by (intro cohorts.within_intros accepts_put)
       (auto intro!: cohorts.within_intros accepts_put accepts_claiming dest: set_zip_leftD)
qed

lemma accepts_require:
  "accepts mid (require_unclaimed seq)" "accepts mid (require_participants recipients)"
  unfolding require_unclaimed_def require_participants_def
  by (intro cohorts.within_intros accepts_read)
     (auto intro!: cohorts.within_intros split: prod.splits)

lemma now_ran: "ran mid (now clock floor)"
  by (simp add: triple_def op_simps)

lemma accepts_record_new: "accepts mid (record_new sha clock namespace v)"
  unfolding record_new_def
  by (intro cohorts.within_intros cohorts.triple_lift_known accepts_require accepts_claiming now_ran
      accepts_insert_cohort accepts_generations accepts_read accepts_settle accepts_seal)

lemma accepts_record: "accepts mid (cohort_record sha clock namespace v)"
  unfolding cohort_record_def by (intro cohorts.within_intros accepts_record_new)

lemma committing_Inr [op_simps]:
  "committing m s = Inr (a, s') \<longleftrightarrow> m s = Inr (a, s') \<and> deferred_ok (co_db s')"
  by (auto simp: committing_def split: sum.splits)

lemma accepts_committing: "accepts mid m \<Longrightarrow> accepts mid (committing m)"
  by (auto simp: triple_def op_simps)

lemma accepts_scanned: "accepts mid (accept_scanned sha clock root namespace lookup unaccepted through)"
  unfolding accept_scanned_def
  by (intro cohorts.within_intros accepts_committing accepts_record accepts_frontier)

lemma accepts_attempts:
  "accepts mid (attempt_begin clock a)" "accepts mid (attempt_recorded clock a)"
  "accepts mid (attempt_apply clock step a)"
  unfolding attempt_begin_def attempt_recorded_def attempt_apply_def first_write_def attempt_write_def
    stored_attempt_def
  by (intro cohorts.within_intros accepts_settle accepts_put accepts_upsert;
      auto intro!: cohorts.within_intros split: list.split)+

subsection \<open>Runs\<close>

datatype cohort_call =
    Coordinate call
  | DeclareAcceptance string string
  | AcceptScanned string string string "delivered list" int
  | BeginAttempt harness_attempt
  | FinishAttempt "harness_attempt \<Rightarrow> harness_attempt" harness_attempt

definition after_accepting :: "'a accepting \<Rightarrow> cohort_state \<Rightarrow> cohort_state" where
  "after_accepting m s = (case m s of Inl _ \<Rightarrow> s | Inr (_, s') \<Rightarrow> s')"

text \<open>A coordinator call that would insert a claim for an observer is refused by the trigger.  Of a scan
  the run has the transaction that writes, with what any earlier scan may have read.\<close>

fun cohort_perform ::
  "(message \<Rightarrow> string) \<Rightarrow> (string \<Rightarrow> string) \<Rightarrow> (nat \<Rightarrow> int) \<Rightarrow> cohort_call \<Rightarrow> cohort_state \<Rightarrow> cohort_state" where
  "cohort_perform mid sha clock (Coordinate c) s =
     (let w = perform mid sha clock c (co_world s) in
      if list_ex (observer_claimed s) (new_claims (co_db s) (w_db w)) then s else s\<lparr>co_world := w\<rparr>)"
| "cohort_perform mid sha clock (DeclareAcceptance namespace lookup) s =
     after_accepting (committing (declare_acceptance namespace lookup)) s"
| "cohort_perform mid sha clock (AcceptScanned root namespace lookup unaccepted through) s =
     after_accepting (accept_scanned sha clock root namespace lookup unaccepted through) s"
| "cohort_perform mid sha clock (BeginAttempt a) s = after_accepting (committing (attempt_begin clock a)) s"
| "cohort_perform mid sha clock (FinishAttempt step a) s =
     after_accepting (committing (attempt_apply clock step a)) s"

definition empty_cohorts :: cohort_state where
  "empty_cohorts = \<lparr>co_world = empty_world, co_batches = [], co_members = [], co_deliveries = [],
     co_frontiers = [], co_generations = [], co_attempts = []\<rparr>"

definition cohort_run ::
  "(message \<Rightarrow> string) \<Rightarrow> (string \<Rightarrow> string) \<Rightarrow> (nat \<Rightarrow> int) \<Rightarrow> cohort_call list \<Rightarrow> cohort_state" where
  "cohort_run mid sha clock calls = foldl (\<lambda>s c. cohort_perform mid sha clock c s) empty_cohorts calls"

lemma after_accepting_steps: "accepts mid m \<Longrightarrow> (cohort_step mid)\<^sup>*\<^sup>* s (after_accepting m s)"
  by (auto simp: triple_def after_accepting_def split: sum.splits)

lemma cohort_perform_steps: "(cohort_step mid)\<^sup>*\<^sup>* s (cohort_perform mid sha clock c s)"
proof (cases c)
  case (Coordinate c')
  have "(statement mid)\<^sup>*\<^sup>* (co_db s) (w_db (perform mid sha clock c' (co_world s)))"
    using perform_steps [of mid "co_world s" sha clock c'] by (simp add: world_steps_def)
  with Coordinate show ?thesis by (auto simp: Let_def intro!: r_into_rtranclp cohort_step.coordinated)
qed (auto intro!: after_accepting_steps accepts_committing accepts_absent accepts_scanned accepts_attempts)

lemma cohort_run_append:
  "cohort_run mid sha clock (calls @ later_calls) =
     foldl (\<lambda>s c. cohort_perform mid sha clock c s) (cohort_run mid sha clock calls) later_calls"
  by (simp add: cohort_run_def)

lemma cohort_run_steps:
  "(cohort_step mid)\<^sup>*\<^sup>* s (foldl (\<lambda>s c. cohort_perform mid sha clock c s) s calls)"
proof (induction calls arbitrary: s)
  case (Cons c calls)
  from rtranclp_trans [OF cohort_perform_steps Cons.IH] show ?case by simp
qed simp

lemma cohort_run_later:
  "(cohort_step mid)\<^sup>*\<^sup>* (cohort_run mid sha clock calls) (cohort_run mid sha clock (calls @ later_calls))"
  unfolding cohort_run_append by (rule cohort_run_steps)

subsection \<open>What a sealed cohort keeps\<close>

definition cohort_kept :: "cohort_state \<Rightarrow> cohort_state \<Rightarrow> batch \<Rightarrow> bool" where
  "cohort_kept s s' b \<longleftrightarrow> b \<in> set (co_batches s') \<and>
     batch_members_of s' (bt_root b) (bt_seq b) = batch_members_of s (bt_root b) (bt_seq b) \<and>
     deliveries_of s' (bt_root b) (bt_seq b) = deliveries_of s (bt_root b) (bt_seq b) \<and>
     (\<forall>d \<in> set (deliveries_of s (bt_root b) (bt_seq b)). cd_claim d = None \<longrightarrow>
        claimed (co_db s') (cd_recipient d) (cd_seq d) \<longrightarrow> claimed (co_db s) (cd_recipient d) (cd_seq d))"

definition cohort_later :: "cohort_state \<Rightarrow> cohort_state \<Rightarrow> bool" where
  "cohort_later s s' \<longleftrightarrow> history_kept (co_db s) (co_db s') \<and>
     (\<forall>b \<in> set (co_batches s). bt_sealed b \<longrightarrow> cohort_kept s s' b)"

lemma cohort_later_refl: "cohort_later s s"
  by (simp add: cohort_later_def cohort_kept_def history_refl)

lemma cohort_kept_trans: "cohort_kept s1 s2 b \<Longrightarrow> cohort_kept s2 s3 b \<Longrightarrow> cohort_kept s1 s3 b"
  by (simp add: cohort_kept_def)

lemma cohort_later_trans:
  assumes "cohort_later s1 s2" "cohort_later s2 s3"
  shows "cohort_later s1 s3"
proof -
  have "cohort_kept s1 s3 b" if "b \<in> set (co_batches s1)" "bt_sealed b" for b
  proof (rule cohort_kept_trans)
    show first: "cohort_kept s1 s2 b" using assms(1) that by (simp add: cohort_later_def)
    then have "b \<in> set (co_batches s2)" by (simp add: cohort_kept_def)
    with assms(2) that(2) show "cohort_kept s2 s3 b" by (simp add: cohort_later_def)
  qed
  with assms history_trans show ?thesis unfolding cohort_later_def by blast
qed

lemma claimed_later:
  assumes "history_kept d d'" "claimed d' lookup seq"
  shows "claimed d lookup seq \<or>
    (\<exists>c \<in> set (new_claims d d'). asg_recipient_lookup c = lookup \<and> asg_wire_seq c = seq)"
proof -
  have kept: "evolves claim_kept (wake_claims d) (wake_claims d')" using assms(1) by (simp add: history_kept_def)
  from assms(2) obtain i where i: "i < length (wake_claims d')"
    "asg_recipient_lookup (wake_claims d' ! i) = lookup" "asg_wire_seq (wake_claims d' ! i) = seq"
    by (auto simp: claimed_def in_set_conv_nth)
  show ?thesis
  proof (cases "i < length (wake_claims d)")
    case True
    with kept have "claim_kept (wake_claims d ! i) (wake_claims d' ! i)" by (simp add: evolves_def)
    with True i(2,3) show ?thesis by (auto simp: claimed_def claim_kept_def)
  next
    case False
    with i(1) have "wake_claims d' ! i \<in> set (new_claims d d')"
      by (auto simp: new_claims_def in_set_conv_nth intro!: exI [of _ "i - length (wake_claims d)"])
    with i(2,3) show ?thesis by blast
  qed
qed

lemma cohort_later_step:
  assumes "cohort_step mid s s'"
  shows "cohort_later s s'"
  using assms
proof (cases rule: cohort_step_cases)
  case (coordinated w)
  have history: "history_kept (co_db s) (w_db w)" by (rule statements_history [OF coordinated(2)])
  have "claimed (co_db s) (cd_recipient d) (cd_seq d)"
    if "b \<in> set (co_batches s)" "bt_sealed b" "d \<in> set (deliveries_of s (bt_root b) (bt_seq b))"
      "cd_claim d = None" "claimed (w_db w) (cd_recipient d) (cd_seq d)" for b d
  proof (rule ccontr)
    assume "\<not> claimed (co_db s) (cd_recipient d) (cd_seq d)"
    with claimed_later [OF history that(5)] obtain c where c: "c \<in> set (new_claims (co_db s) (w_db w))"
      "asg_recipient_lookup c = cd_recipient d" "asg_wire_seq c = cd_seq d" by blast
    have "observer_claimed s c" unfolding observer_claimed_def
      by (rule bexI [of _ d], rule bexI [of _ b]) (use that(1-4) c in \<open>auto simp: deliveries_of_def\<close>)
    with coordinated(3) c(1) show False by (auto simp: list_ex_iff)
  qed
  with history coordinated(1) show ?thesis
    by (auto simp: cohort_later_def cohort_kept_def batch_members_of_def deliveries_of_def)
next
  case (batch_inserted b)
  then show ?thesis
    by (elim batch_insertE)
       (simp add: cohort_later_def cohort_kept_def history_refl batch_members_of_def deliveries_of_def)
next
  case (batch_updated i b)
  from batch_updated(2) show ?thesis
  proof (cases rule: batch_updateE)
    case 1
    have "x \<in> set ((co_batches s)[i := b])" if x: "x \<in> set (co_batches s)" "bt_sealed x" for x
    proof -
      obtain j where "j < length (co_batches s)" "x = co_batches s ! j" using x(1) by (auto simp: in_set_conv_nth)
      moreover from this x(2) 1(2) have "j \<noteq> i" by auto
      ultimately show ?thesis by (metis length_list_update nth_list_update_neq nth_mem)
    qed
    with 1(1) show ?thesis
      by (simp add: cohort_later_def cohort_kept_def history_refl batch_members_of_def deliveries_of_def)
  qed
next
  case (member_inserted m)
  then show ?thesis
    by (elim member_insertE)
       (auto simp: cohort_later_def cohort_kept_def history_refl batch_members_of_def deliveries_of_def
          member_insert_refused_def batch_open_def)
next
  case (delivery_inserted c)
  then show ?thesis
    by (elim delivery_insertE)
       (auto simp: cohort_later_def cohort_kept_def history_refl batch_members_of_def deliveries_of_def
          delivery_insert_refused_def batch_open_def)
next
  case other
  then show ?thesis
    by (simp add: same_cohorts_def cohort_later_def cohort_kept_def history_refl batch_members_of_def deliveries_of_def)
qed

lemma cohort_later_steps: "(cohort_step mid)\<^sup>*\<^sup>* s s' \<Longrightarrow> cohort_later s s'"
  by (induction rule: rtranclp_induct) (auto intro: cohort_later_refl cohort_later_trans cohort_later_step)

text \<open>A frontier is never removed and never moves back.\<close>

definition frontier_kept :: "acceptance_frontier \<Rightarrow> acceptance_frontier \<Rightarrow> bool" where
  "frontier_kept f f' \<longleftrightarrow> same_frontier f f' \<and> fr_through f \<le> fr_through f'"

lemma frontier_kept_refl [simp]: "frontier_kept f f"
  by (simp add: frontier_kept_def same_frontier_def)

lemma frontier_kept_transp: "transp frontier_kept"
  by (auto simp: transp_def frontier_kept_def same_frontier_def)

lemma frontiers_step:
  assumes "cohort_step mid s s'"
  shows "evolves frontier_kept (co_frontiers s) (co_frontiers s')"
  using assms
proof cases
  case (frontier_inserted f)
  from side_writes(1) [OF this] show ?thesis by (simp add: evolves_append)
next
  case (frontier_updated i f)
  from side_writes(2) [OF frontier_updated(4)] frontier_updated(2,3) show ?thesis
    by (auto intro!: evolves_update simp: frontier_kept_def same_frontier_def)
qed (auto simp: evolves_refl side_writes elim!: batch_insertE batch_updateE member_insertE delivery_insertE
      dest!: side_writes(3-5))

lemma frontiers_steps:
  "(cohort_step mid)\<^sup>*\<^sup>* s s' \<Longrightarrow> evolves frontier_kept (co_frontiers s) (co_frontiers s')"
  by (induction rule: rtranclp_induct)
     (auto intro: evolves_refl evolves_trans [OF frontier_kept_transp] frontiers_step)

subsection \<open>The invariant\<close>

definition members_claimed :: "cohort_state \<Rightarrow> bool" where
  "members_claimed s \<longleftrightarrow>
     (\<forall>m \<in> set (co_members s). \<exists>c \<in> set (wake_claims (co_db s)).
        asg_id c = bm_claim m \<and> asg_recipient_lookup c = bm_recipient m \<and> asg_wire_seq c = bm_seq m)"

definition deliveries_claimed :: "cohort_state \<Rightarrow> bool" where
  "deliveries_claimed s \<longleftrightarrow>
     (\<forall>d \<in> set (co_deliveries s). \<forall>claim. cd_claim d = Some claim \<longrightarrow>
        (\<exists>m \<in> set (co_members s). bm_claim m = claim \<and> bm_root m = cd_root d \<and> bm_seq m = cd_seq d \<and>
           bm_recipient m = cd_recipient d) \<and>
        (\<exists>c \<in> set (wake_claims (co_db s)). asg_id c = claim \<and> asg_recipient c = cd_thread d))"

definition cohort_rows_sound :: "cohort_state \<Rightarrow> bool" where
  "cohort_rows_sound s \<longleftrightarrow> rows_sound batches_table s \<and> rows_sound batch_members_table s \<and>
     rows_sound cohort_deliveries_table s \<and> rows_sound frontiers_table s"

definition cohort_sound :: "(message \<Rightarrow> string) \<Rightarrow> cohort_state \<Rightarrow> bool" where
  "cohort_sound mid s \<longleftrightarrow> coordinator_sound mid (co_db s) \<and> cohort_rows_sound s \<and>
     (\<forall>b \<in> set (co_batches s). bt_sealed b \<longrightarrow> \<not> seal_refused s b) \<and>
     members_claimed s \<and> deliveries_claimed s"

text \<open>A table none of whose rows a step writes stays sound, whatever else it changes.\<close>

lemma rows_sound_cong: "table_rows T s' = table_rows T s \<Longrightarrow> rows_sound T s \<Longrightarrow> rows_sound T s'"
  by (simp add: rows_sound_def)

lemma cohort_conflict_sym:
  "row_conflict batches_table b b' = row_conflict batches_table b' b"
  "row_conflict batch_members_table m m' = row_conflict batch_members_table m' m"
  "row_conflict cohort_deliveries_table c c' = row_conflict cohort_deliveries_table c' c"
  "row_conflict frontiers_table f f' = row_conflict frontiers_table f' f"
  by (auto simp: cohort_tables) metis+

lemma cohort_rows_step:
  assumes "cohort_step mid s s'" "cohort_rows_sound s"
  shows "cohort_rows_sound s'"
  using assms(1)
proof cases
  case (coordinated w)
  with assms(2) show ?thesis by (simp add: cohort_rows_sound_def rows_sound_def)
next
  case (batch_inserted b)
  with assms(2) batch_t.insert_sound [OF batch_inserted _ cohort_conflict_sym(1)] show ?thesis
    by (elim batch_insertE) (simp add: cohort_rows_sound_def rows_sound_def)
next
  case (batch_updated i b)
  with assms(2) batch_t.update_sound [OF batch_updated(2) _ _ cohort_conflict_sym(1)] show ?thesis
    by (elim batch_updateE) (simp add: cohort_rows_sound_def rows_sound_def)
next
  case (member_inserted m)
  with assms(2) member_t.insert_sound [OF member_inserted _ cohort_conflict_sym(2)] show ?thesis
    by (elim member_insertE) (simp add: cohort_rows_sound_def rows_sound_def)
next
  case (delivery_inserted c)
  with assms(2) delivery_t.insert_sound [OF delivery_inserted _ cohort_conflict_sym(3)] show ?thesis
    by (elim delivery_insertE) (simp add: cohort_rows_sound_def rows_sound_def)
next
  case (frontier_inserted f)
  with assms(2) frontier_t.insert_sound [OF frontier_inserted _ cohort_conflict_sym(4)] side_writes(1) [OF frontier_inserted]
  show ?thesis by (simp add: cohort_rows_sound_def rows_sound_def)
next
  case (frontier_updated i f)
  with assms(2) frontier_t.update_sound [OF frontier_updated(4) _ _ cohort_conflict_sym(4)] side_writes(2) [OF frontier_updated(4)]
  show ?thesis by (simp add: cohort_rows_sound_def rows_sound_def)
next
  case (generation_inserted g)
  with assms(2) side_writes(3) [OF generation_inserted] show ?thesis
    by (simp add: cohort_rows_sound_def rows_sound_def)
next
  case (attempt_inserted a)
  with assms(2) side_writes(4) [OF attempt_inserted] show ?thesis
    by (simp add: cohort_rows_sound_def rows_sound_def)
next
  case (attempt_updated i a)
  with assms(2) side_writes(5) [OF attempt_updated(2)] show ?thesis
    by (simp add: cohort_rows_sound_def rows_sound_def)
qed

lemma seal_kept:
  assumes "cohort_kept s s' b" "\<not> seal_refused s b"
  shows "\<not> seal_refused s' b"
  using assms unfolding cohort_kept_def seal_refused_def counts_refused_def ordinals_refused_def by metis

lemma seal_refused_batches:
  "seal_refused (s\<lparr>co_batches := bs\<rparr>) (b\<lparr>bt_sealed := t\<rparr>) = seal_refused s b"
  by (simp add: seal_refused_def counts_refused_def ordinals_refused_def batch_members_of_def deliveries_of_def)

lemma sealed_step:
  assumes "cohort_step mid s s'" "\<forall>b \<in> set (co_batches s). bt_sealed b \<longrightarrow> \<not> seal_refused s b"
    "b \<in> set (co_batches s')" "bt_sealed b"
  shows "\<not> seal_refused s' b"
proof (cases "b \<in> set (co_batches s)")
  case True
  with cohort_later_step [OF assms(1)] assms(2,4) have "cohort_kept s s' b" "\<not> seal_refused s b"
    by (simp_all add: cohort_later_def)
  then show ?thesis by (rule seal_kept)
next
  case False
  from assms(1) show ?thesis
  proof (cases rule: cohort_step_cases)
    case (batch_updated i r)
    from batch_updated(2) show ?thesis
    proof (cases rule: batch_updateE)
      case 1
      from 1(1) assms(3) False have "b = r" using set_update_subset_insert by fastforce
      with 1(1,3,4) seal_refused_batches show ?thesis by metis
    qed
  next
    case (batch_inserted r)
    with assms(3,4) False show ?thesis by (auto elim!: batch_insertE)
  qed (use assms(3) False in \<open>auto elim!: member_insertE delivery_insertE simp: same_cohorts_def\<close>)
qed

lemma claims_persist:
  assumes "history_kept d d'" "c \<in> set (wake_claims d)"
  shows "\<exists>c' \<in> set (wake_claims d'). claim_kept c c'"
  using assms evolves_persist by (auto simp: history_kept_def)

text \<open>The rows of the coordinator's claims only gain members, so what names a claim keeps naming it.\<close>

lemma members_claimed_step:
  assumes "cohort_step mid s s'" "members_claimed s"
  shows "members_claimed s'"
  unfolding members_claimed_def
proof
  fix m assume m: "m \<in> set (co_members s')"
  have history: "history_kept (co_db s) (co_db s')"
    using cohort_later_step [OF assms(1)] by (simp add: cohort_later_def)
  have "\<exists>c \<in> set (wake_claims (co_db s)).
      asg_id c = bm_claim m \<and> asg_recipient_lookup c = bm_recipient m \<and> asg_wire_seq c = bm_seq m"
  proof (cases "m \<in> set (co_members s)")
    case True
    with assms(2) show ?thesis by (simp add: members_claimed_def)
  next
    case False
    from assms(1) show ?thesis
      by (cases rule: cohort_step_cases)
         (use m False in \<open>auto elim!: batch_insertE batch_updateE member_insertE delivery_insertE
            simp: same_cohorts_def member_insert_refused_def\<close>)
  qed
  then obtain c where c: "c \<in> set (wake_claims (co_db s))" "asg_id c = bm_claim m"
    "asg_recipient_lookup c = bm_recipient m" "asg_wire_seq c = bm_seq m" by blast
  from claims_persist [OF history c(1)] c(2-4)
  show "\<exists>c \<in> set (wake_claims (co_db s')).
      asg_id c = bm_claim m \<and> asg_recipient_lookup c = bm_recipient m \<and> asg_wire_seq c = bm_seq m"
    by (auto simp: claim_kept_def)
qed

lemma members_persist: "cohort_step mid s s' \<Longrightarrow> set (co_members s) \<subseteq> set (co_members s')"
  by (cases rule: cohort_step_cases)
     (auto elim!: batch_insertE batch_updateE member_insertE delivery_insertE simp: same_cohorts_def)

lemma deliveries_claimed_step:
  assumes "cohort_step mid s s'" "deliveries_claimed s"
  shows "deliveries_claimed s'"
  unfolding deliveries_claimed_def
proof (intro ballI allI impI)
  fix d claim assume d: "d \<in> set (co_deliveries s')" "cd_claim d = Some claim"
  let ?member = "\<lambda>m. bm_claim m = claim \<and> bm_root m = cd_root d \<and> bm_seq m = cd_seq d \<and> bm_recipient m = cd_recipient d"
  let ?claim = "\<lambda>c. asg_id c = claim \<and> asg_recipient c = cd_thread d"
  have history: "history_kept (co_db s) (co_db s')"
    using cohort_later_step [OF assms(1)] by (simp add: cohort_later_def)
  have "(\<exists>m \<in> set (co_members s). ?member m) \<and> (\<exists>c \<in> set (wake_claims (co_db s)). ?claim c)"
  proof (cases "d \<in> set (co_deliveries s)")
    case True
    with assms(2) d(2) show ?thesis by (simp add: deliveries_claimed_def)
  next
    case False
    from assms(1) show ?thesis
      by (cases rule: cohort_step_cases)
         (use d False in \<open>auto elim!: batch_insertE batch_updateE member_insertE delivery_insertE
            simp: same_cohorts_def delivery_insert_refused_def\<close>)
  qed
  then obtain c where c: "c \<in> set (wake_claims (co_db s))" "?claim c"
    and m: "\<exists>m \<in> set (co_members s). ?member m" by blast
  from claims_persist [OF history c(1)] c(2) have "\<exists>c \<in> set (wake_claims (co_db s')). ?claim c"
    by (auto simp: claim_kept_def)
  with m members_persist [OF assms(1)]
  show "(\<exists>m \<in> set (co_members s'). ?member m) \<and> (\<exists>c \<in> set (wake_claims (co_db s')). ?claim c)" by blast
qed

lemma coordinator_step:
  assumes "cohort_step mid s s'" "coordinator_sound mid (co_db s)"
  shows "coordinator_sound mid (co_db s')"
  using assms(1)
proof (cases rule: cohort_step_cases)
  case (coordinated w)
  with statements_sound assms(2) show ?thesis by simp
qed (use assms(2) in \<open>auto elim!: batch_insertE batch_updateE member_insertE delivery_insertE simp: same_cohorts_def\<close>)

lemma cohort_sound_step: "cohort_step mid s s' \<Longrightarrow> cohort_sound mid s \<Longrightarrow> cohort_sound mid s'"
  unfolding cohort_sound_def
  using coordinator_step cohort_rows_step sealed_step members_claimed_step deliveries_claimed_step by blast

lemma cohort_sound_steps: "(cohort_step mid)\<^sup>*\<^sup>* s s' \<Longrightarrow> cohort_sound mid s \<Longrightarrow> cohort_sound mid s'"
  by (induction rule: rtranclp_induct) (auto intro: cohort_sound_step)

lemma empty_cohorts_sound: "cohort_sound mid empty_cohorts"
  by (simp add: cohort_sound_def empty_cohorts_def empty_world_def coordinator_sound_empty
      cohort_rows_sound_def rows_sound_def members_claimed_def deliveries_claimed_def)

lemma cohort_run_sound: "cohort_sound mid (cohort_run mid sha clock calls)"
  unfolding cohort_run_def by (rule cohort_sound_steps [OF cohort_run_steps empty_cohorts_sound])

end
