(* ===== verification/Cohort_Reads.thy ===== *)
theory Cohort_Reads
  imports Cohort_Results
begin

text \<open>
  What reads of a private coordinator return.  An acceptance that was recorded is read merged after any
  later calls, a scan seals every original it visited, and the paging loop returns each pending claim
  of a sealed cohort once, in the order of the bus.
\<close>

subsection \<open>Replaying an acceptance\<close>

lemma claim_rows: "cohort_sound mid s \<Longrightarrow> rows_sound wake_claims_table (co_db s)"
  by (simp add: cohort_sound_def coordinator_sound_def tables_sound_def)

lemma claim_valid: "cohort_sound mid s \<Longrightarrow> c \<in> set (wake_claims (co_db s)) \<Longrightarrow> assignment_row_valid c = Inr ()"
  by (simp add: cohort_sound_def coordinator_sound_def claims_valid_def)

lemma claim_one:
  assumes "cohort_sound mid s" "c \<in> set (wake_claims (co_db s))"
  shows "one_row assignment_row_valid (\<lambda>r. asg_id r = asg_id c) (wake_claims (co_db s)) = Inr (Some c)"
proof (rule one_row_unique)
  show "filter (\<lambda>r. asg_id r = asg_id c) (wake_claims (co_db s)) = [c]"
    using rows_sound_filter [OF claim_rows [OF assms(1)], of c "\<lambda>r. asg_id r = asg_id c"] assms(2)
    by (simp add: wake_claims_table_def)
  show "assignment_row_valid c = Inr ()" by (rule claim_valid [OF assms])
qed

lemma batch_found:
  assumes "cohort_sound mid s" "b \<in> set (co_batches s)"
  shows "batch_one s (bt_root b) (bt_seq b) = Inr (Some b)"
  unfolding batch_one_def
proof (rule one_row_unique)
  have "rows_sound batches_table s" using assms(1) by (simp add: cohort_sound_def cohort_rows_sound_def)
  from rows_sound_filter [OF this, of b "\<lambda>r. bt_root r = bt_root b \<and> bt_seq r = bt_seq b"] assms(2)
  show "filter (\<lambda>r. bt_root r = bt_root b \<and> bt_seq r = bt_seq b) (co_batches s) = [b]"
    by (simp add: batches_table_def)
qed simp

lemma claim_recordE:
  assumes "claim_record sha namespace v s = Inr a"
  obtains row expected current where "batch_one s namespace (dv_seq v) = Inr (Some row)" "bt_sealed row"
    "require_delivery sha namespace v row = Inr ()"
    "expected_assignments sha namespace v (bt_accepted row) = Inr expected"
    "sort_key bm_ordinal (batch_members_of s namespace (dv_seq v)) = member_rows namespace v expected"
    "sort_key cd_ordinal (deliveries_of s namespace (dv_seq v)) = delivery_rows namespace v expected"
    "rmap (current_claim (co_db s)) expected = Inr current"
    "rforeach (zip (del_recipients v) (del_decisions v)) (observer_unclaimed (co_db s) (dv_seq v)) = Inr ()"
    "a = \<lparr>ac_root = namespace, ac_reference = del_reference v,
       ac_members = int (length (del_recipients v)), ac_claims = int (length expected),
       ac_accepted = bt_accepted row, ac_assignments = current\<rparr>"
  using assms by (auto simp: claim_record_def split: option.splits)

lemma batch_oneD:
  assumes "batch_one s namespace seq = Inr (Some row)"
  shows "row \<in> set (co_batches s)" "bt_root row = namespace" "bt_seq row = seq"
  using one_row_Some [OF assms [unfolded batch_one_def]] by auto

lemma rmap_later:
  assumes "rmap f xs = Inr ys" "\<And>x y. x \<in> set xs \<Longrightarrow> f x = Inr y \<Longrightarrow> \<exists>y'. g x = Inr y' \<and> R y y'"
  shows "\<exists>ys'. rmap g xs = Inr ys' \<and> list_all2 R ys ys'"
  using assms
proof (induction xs arbitrary: ys)
  case (Cons x xs)
  then obtain y zs where y: "f x = Inr y" "rmap f xs = Inr zs" "ys = y # zs" by auto
  from Cons.prems(2) [OF _ y(1)] obtain y' where "g x = Inr y'" "R y y'" by auto
  moreover from Cons.IH [OF y(2)] Cons.prems(2) obtain zs' where "rmap g xs = Inr zs'" "list_all2 R zs zs'"
    by auto
  ultimately show ?case using y(3) by auto
qed simp

lemma current_claim_later:
  assumes "current_claim (co_db s) c = Inr a" "history_kept (co_db s) (co_db s')" "cohort_sound mid s'"
  shows "\<exists>a'. current_claim (co_db s') c = Inr a' \<and> claim_kept a a'"
proof -
  from assms(1) have one: "one_row assignment_row_valid (\<lambda>r. asg_id r = asg_id c) (wake_claims (co_db s)) = Inr (Some a)"
    and same: "require_same_acceptance c a = Inr ()"
    by (auto simp: current_claim_def split: option.splits)
  from one_row_Some [OF one] have a: "a \<in> set (wake_claims (co_db s))" "asg_id a = asg_id c" by auto
  from claims_persist [OF assms(2) a(1)] obtain a' where a': "a' \<in> set (wake_claims (co_db s'))" "claim_kept a a'"
    by blast
  have "require_same_acceptance c a' = Inr ()"
    using same a'(2) by (cases c; cases a; cases a') (auto simp: require_same_acceptance_def claim_kept_def)
  moreover have "asg_id a' = asg_id c" using a(2) a'(2) by (simp add: claim_kept_def)
  ultimately have "current_claim (co_db s') c = Inr a'"
    using claim_one [OF assms(3) a'(1)] by (simp add: current_claim_def)
  with a'(2) show ?thesis by blast
qed

text \<open>A claim the acceptance selected is stored under its recipient and sequence.\<close>

lemma expected_reference:
  "expected_members sha namespace ref accepted rs ds = Inr expected \<Longrightarrow> c \<in> set expected \<Longrightarrow>
   asg_wire_seq c = fst ref"
proof (induction sha namespace ref accepted rs ds arbitrary: expected rule: expected_members.induct)
  case (2 sha namespace ref accepted lookup thread rs decision ds)
  then show ?case by (cases decision) (auto simp: Let_def cohort_claim_def)
qed auto

lemma rmap_Inr_member: "rmap f xs = Inr ys \<Longrightarrow> x \<in> set xs \<Longrightarrow> \<exists>y. f x = Inr y"
  by (induction xs arbitrary: ys) auto

lemma selected_claimed:
  assumes "expected_assignments sha namespace v accepted = Inr expected"
    "rmap (current_claim d) expected = Inr current" "selected_claim expected lookup = Some claim"
  shows "claimed d lookup (dv_seq v)"
proof -
  from map_of_SomeD [OF assms(3) [unfolded selected_claim_def]] obtain c where
    c: "c \<in> set expected" "asg_recipient_lookup c = lookup" by auto
  from rmap_Inr_member [OF assms(2) c(1)] obtain a where "current_claim d c = Inr a" by blast
  then have one: "one_row assignment_row_valid (\<lambda>r. asg_id r = asg_id c) (wake_claims d) = Inr (Some a)"
    and same: "require_same_acceptance c a = Inr ()"
    by (auto simp: current_claim_def split: option.splits)
  have "asg_recipient_lookup a = asg_recipient_lookup c" "asg_wire_seq a = asg_wire_seq c"
    using same by (cases c; cases a; simp add: require_same_acceptance_def)+
  with one_row_Some [OF one] c(2) expected_reference [OF assms(1) [unfolded expected_assignments_def] c(1)]
  show ?thesis unfolding claimed_def by auto
qed

lemma observer_unclaimed_iff:
  "claim_decisions (snd member) = [] \<Longrightarrow> observer_unclaimed d seq member = Inr () \<Longrightarrow>
     \<not> claimed d (fst (fst member)) seq"
  by (auto simp: observer_unclaimed_def claimed_def dest!: one_row_None simp: filter_empty_conv)

lemma unclaimed_observer:
  "\<not> claimed d (fst (fst member)) seq \<Longrightarrow> observer_unclaimed d seq member = Inr ()"
proof -
  assume "\<not> claimed d (fst (fst member)) seq"
  then have "filter (\<lambda>r. asg_recipient_lookup r = fst (fst member) \<and> asg_wire_seq r = seq) (wake_claims d) = []"
    by (auto simp: claimed_def filter_empty_conv)
  then show ?thesis by (simp add: observer_unclaimed_def one_row_def)
qed

lemma rforeach_Inr_iff: "rforeach xs f = Inr () \<longleftrightarrow> (\<forall>x \<in> set xs. f x = Inr ())"
  by (induction xs) auto

lemma delivery_row_of:
  assumes "sort_key cd_ordinal (deliveries_of s namespace (dv_seq v)) = delivery_rows namespace v expected"
    "r \<in> set (del_recipients v)"
  shows "\<exists>d \<in> set (deliveries_of s namespace (dv_seq v)). cd_recipient d = fst r \<and> cd_seq d = dv_seq v \<and>
    cd_claim d = selected_claim expected (fst r)"
proof -
  from assms(2) obtain i where i: "i < length (del_recipients v)" "del_recipients v ! i = r"
    by (auto simp: in_set_conv_nth)
  then have "(i, r) \<in> set (List.enumerate 0 (del_recipients v))" by (auto simp: in_set_enumerate_eq)
  then have "\<exists>d \<in> set (delivery_rows namespace v expected). cd_recipient d = fst r \<and> cd_seq d = dv_seq v \<and>
      cd_claim d = selected_claim expected (fst r)"
    unfolding delivery_rows_def by (cases r) (force simp: image_iff)
  then show ?thesis by (simp flip: assms(1))
qed

lemma observers_later:
  assumes "cohort_kept s s' row" "bt_root row = namespace" "bt_seq row = dv_seq v"
    "expected_assignments sha namespace v accepted = Inr expected"
    "sort_key cd_ordinal (deliveries_of s namespace (dv_seq v)) = delivery_rows namespace v expected"
    "rmap (current_claim (co_db s)) expected = Inr current"
    "member \<in> set (zip (del_recipients v) (del_decisions v))"
    "observer_unclaimed (co_db s) (dv_seq v) member = Inr ()"
  shows "observer_unclaimed (co_db s') (dv_seq v) member = Inr ()"
proof (cases "claim_decisions (snd member) = []")
  case True
  have free: "\<not> claimed (co_db s) (fst (fst member)) (dv_seq v)"
    by (rule observer_unclaimed_iff [OF True assms(8)])
  have "fst member \<in> set (del_recipients v)" using assms(7) by (metis prod.collapse set_zip_leftD)
  from delivery_row_of [OF assms(5) this] obtain d where
    d: "d \<in> set (deliveries_of s namespace (dv_seq v))" "cd_recipient d = fst (fst member)" "cd_seq d = dv_seq v"
    "cd_claim d = selected_claim expected (fst (fst member))" by blast
  have "cd_claim d = None"
    using selected_claimed [OF assms(4,6)] free d(4) by (metis option.exhaust)
  with assms(1-3) d(1-3) free have "\<not> claimed (co_db s') (fst (fst member)) (dv_seq v)"
    unfolding cohort_kept_def by metis
  then show ?thesis by (rule unclaimed_observer)
qed (simp add: observer_unclaimed_def)

lemma sealed_exact:
  assumes "cohort_sound mid s" "b \<in> set (co_batches s)" "bt_sealed b"
  shows "int (length (deliveries_of s (bt_root b) (bt_seq b))) = bt_members b \<and>
    int (length (batch_members_of s (bt_root b) (bt_seq b))) = bt_claims b \<and>
    (\<forall>d \<in> set (deliveries_of s (bt_root b) (bt_seq b)).
       case cd_claim d of
         None \<Rightarrow> \<not> claimed (co_db s) (cd_recipient d) (bt_seq b)
       | Some claim \<Rightarrow> \<exists>c \<in> set (wake_claims (co_db s)). asg_id c = claim \<and>
           asg_recipient_lookup c = cd_recipient d \<and> asg_recipient c = cd_thread d \<and> asg_wire_seq c = bt_seq b)"
proof -
  have seal: "\<not> seal_refused s b" using assms by (simp add: cohort_sound_def)
  have members: "members_claimed s" and deliveries: "deliveries_claimed s"
    using assms(1) by (simp_all add: cohort_sound_def)
  have "case cd_claim d of None \<Rightarrow> \<not> claimed (co_db s) (cd_recipient d) (bt_seq b)
     | Some claim \<Rightarrow> \<exists>c \<in> set (wake_claims (co_db s)). asg_id c = claim \<and>
         asg_recipient_lookup c = cd_recipient d \<and> asg_recipient c = cd_thread d \<and> asg_wire_seq c = bt_seq b"
    if d: "d \<in> set (deliveries_of s (bt_root b) (bt_seq b))" for d
  proof (cases "cd_claim d")
    case None
    with seal d show ?thesis by (auto simp: seal_refused_def deliveries_of_def)
  next
    case (Some claim)
    have d': "d \<in> set (co_deliveries s)" "cd_seq d = bt_seq b" using d by (simp_all add: deliveries_of_def)
    from deliveries d'(1) Some obtain m c where m: "m \<in> set (co_members s)" "bm_claim m = claim"
      "bm_seq m = cd_seq d" "bm_recipient m = cd_recipient d"
      and c: "c \<in> set (wake_claims (co_db s))" "asg_id c = claim" "asg_recipient c = cd_thread d"
      unfolding deliveries_claimed_def by blast
    from members m(1) obtain c' where c': "c' \<in> set (wake_claims (co_db s))" "asg_id c' = bm_claim m"
      "asg_recipient_lookup c' = bm_recipient m" "asg_wire_seq c' = bm_seq m"
      unfolding members_claimed_def by blast
    have "c' = c" by (rule rows_sound_unique [OF claim_rows [OF assms(1)]])
      (use c c' m(2) in \<open>simp_all add: wake_claims_table_def\<close>)
    with Some m c c' d'(2) show ?thesis by auto
  qed
  with seal show ?thesis by (simp add: seal_refused_def counts_refused_def)
qed

text \<open>The same cohort, each of its claims where later steps have brought it.\<close>

definition same_cohort :: "accepted_cohort \<Rightarrow> accepted_cohort \<Rightarrow> bool" where
  "same_cohort a a' \<longleftrightarrow> a'\<lparr>ac_assignments := ac_assignments a\<rparr> = a \<and>
     list_all2 claim_kept (ac_assignments a) (ac_assignments a')"

lemma claim_record_later:
  assumes "claim_record sha namespace v s = Inr a" "cohort_later s s'" "cohort_sound mid s'"
  shows "\<exists>a'. claim_record sha namespace v s' = Inr a' \<and> same_cohort a a'"
  using assms(1)
proof (rule claim_recordE)
  fix row expected current
  assume one: "batch_one s namespace (dv_seq v) = Inr (Some row)" and sealed: "bt_sealed row"
    and delivered: "require_delivery sha namespace v row = Inr ()"
    and expected: "expected_assignments sha namespace v (bt_accepted row) = Inr expected"
    and members: "sort_key bm_ordinal (batch_members_of s namespace (dv_seq v)) = member_rows namespace v expected"
    and deliveries: "sort_key cd_ordinal (deliveries_of s namespace (dv_seq v)) = delivery_rows namespace v expected"
    and current: "rmap (current_claim (co_db s)) expected = Inr current"
    and observers: "rforeach (zip (del_recipients v) (del_decisions v)) (observer_unclaimed (co_db s) (dv_seq v)) = Inr ()"
    and a: "a = \<lparr>ac_root = namespace, ac_reference = del_reference v,
       ac_members = int (length (del_recipients v)), ac_claims = int (length expected),
       ac_accepted = bt_accepted row, ac_assignments = current\<rparr>"
  note row = batch_oneD [OF one]
  have history: "history_kept (co_db s) (co_db s')" and kept: "cohort_kept s s' row"
    using assms(2) row(1) sealed by (simp_all add: cohort_later_def)
  have one': "batch_one s' namespace (dv_seq v) = Inr (Some row)"
    using batch_found [OF assms(3), of row] kept row by (simp add: cohort_kept_def)
  obtain current' where current': "rmap (current_claim (co_db s')) expected = Inr current'"
    "list_all2 claim_kept current current'"
    using rmap_later [OF current, of "current_claim (co_db s')" claim_kept]
      current_claim_later [OF _ history assms(3)] by blast
  have "rforeach (zip (del_recipients v) (del_decisions v)) (observer_unclaimed (co_db s') (dv_seq v)) = Inr ()"
    using observers observers_later [OF kept row(2,3) expected deliveries current]
    unfolding rforeach_Inr_iff by blast
  with one' sealed delivered expected members deliveries current'(1) kept row(2,3)
  have "claim_record sha namespace v s' = Inr (a\<lparr>ac_assignments := current'\<rparr>)"
    by (simp add: claim_record_def cohort_kept_def a)
  with current'(2) a show ?thesis by (auto simp: same_cohort_def)
qed

lemma record_replayed:
  assumes "claim_record sha namespace v s = Inr a"
  shows "cohort_record sha clock namespace v s = Inr (AlreadyApplied a, s)"
  using assms
  by (rule claim_recordE) (use assms in \<open>simp add: cohort_record_def op_eval\<close>)

lemma recorded:
  assumes "cohort_record sha clock namespace v s = Inr (r, s')"
  shows "claim_record sha namespace v s' = Inr (applied_value r)"
  using assms
  by (auto simp: cohort_record_def record_new_def op_simps split: option.splits)

subsection \<open>Scanning\<close>

definition sealed_at :: "cohort_state \<Rightarrow> string \<Rightarrow> int \<Rightarrow> bool" where
  "sealed_at s root seq \<longleftrightarrow> (\<exists>b \<in> set (co_batches s). bt_root b = root \<and> bt_seq b = seq \<and> bt_sealed b)"

lemma sealed_at_later: "(cohort_step mid)\<^sup>*\<^sup>* s s' \<Longrightarrow> sealed_at s root seq \<Longrightarrow> sealed_at s' root seq"
  by (drule cohort_later_steps) (auto simp: sealed_at_def cohort_later_def cohort_kept_def)

lemma recorded_sealed:
  assumes "cohort_record sha clock namespace v s = Inr (r, s')"
  shows "sealed_at s' namespace (dv_seq v)"
  using recorded [OF assms]
  by (rule claim_recordE) (auto simp: sealed_at_def dest: batch_oneD)

lemma sealed_sequence:
  "seq \<in> set (sealed_sequences_after s root lookup after limit) \<Longrightarrow> sealed_at s root seq"
  by (drule in_set_takeD [OF subst [OF sealed_sequences_after_def, of "\<lambda>xs. seq \<in> set xs"]])
     (auto simp: sealed_at_def)

lemma unaccepted_member:
  "unaccepted_in accepted lookup owner page = Inr rest \<Longrightarrow> v \<in> set page \<Longrightarrow> dv_seq v \<notin> set accepted \<Longrightarrow>
   (lookup, owner) \<in> set (del_recipients v) \<Longrightarrow> v \<in> set rest"
proof (induction page arbitrary: rest)
  case (Cons x page)
  have named: "list_ex (\<lambda>r. snd r = owner) (filter (\<lambda>r. fst r = lookup) (del_recipients v))"
    using Cons.prems(4) by (force simp: list_ex_iff)
  from Cons show ?case
    by (cases "dv_seq x \<in> set accepted") (use named in \<open>auto simp: Let_def split: if_splits\<close>)
qed simp

lemma foreach_visits:
  assumes "oforeach xs f s = Inr (u, s')" "x \<in> set xs" "\<And>x. accepts mid (f x)"
  shows "\<exists>s1 s2. f x s1 = Inr ((), s2) \<and> (cohort_step mid)\<^sup>*\<^sup>* s2 s'"
  using assms(1,2)
proof (induction xs arbitrary: s)
  case (Cons y xs)
  then obtain s1 where first: "f y s = Inr ((), s1)" and rest: "oforeach xs f s1 = Inr (u, s')"
    by (auto simp: op_simps)
  show ?case
  proof (cases "x \<in> set xs")
    case True
    with Cons.IH [OF rest] show ?thesis by blast
  next
    case False
    have "accepts mid (oforeach xs f)" by (intro cohorts.within_foreach assms(3))
    with rest have "(cohort_step mid)\<^sup>*\<^sup>* s1 s'" by (auto simp: triple_def)
    with first False Cons.prems(2) show ?thesis by auto
  qed
qed simp

lemma frontier_read:
  assumes "rows_sound frontiers_table s" "f \<in> set (co_frontiers s)"
  shows "scan_after s (fr_root f) (fr_recipient f) = Inr (fr_through f)"
proof -
  have "filter (\<lambda>r. fr_root r = fr_root f \<and> fr_recipient r = fr_recipient f) (co_frontiers s) = [f]"
    using rows_sound_filter [OF assms(1), of f "\<lambda>r. fr_root r = fr_root f \<and> fr_recipient r = fr_recipient f"] assms(2)
    by (simp add: frontiers_table_def)
  then show ?thesis by (simp add: scan_after_def require_row_def one_row_def)
qed

lemma frontier_written:
  assumes "upsert_row frontiers_table same_frontier f s = Inr s'"
  shows "f \<in> set (co_frontiers s')"
proof (cases "find (\<lambda>i. same_frontier f (co_frontiers s ! i)) [0..<length (co_frontiers s)]")
  case None
  with assms side_writes(1) [of f s s'] show ?thesis by (auto simp: upsert_row_def)
next
  case (Some i)
  then have "i < length (co_frontiers s)" using find_index by blast
  with Some assms side_writes(2) [of i f s s'] show ?thesis
    by (auto simp: upsert_row_def set_update_memI split: if_splits)
qed

text \<open>What later steps make of a frontier, and where an advance leaves it.\<close>

lemma frontier_later:
  assumes "scan_after s root lookup = Inr n" "(cohort_step mid)\<^sup>*\<^sup>* s s'" "cohort_sound mid s'"
  shows "\<exists>m \<ge> n. scan_after s' root lookup = Inr m"
proof -
  from assms(1) obtain f where f: "f \<in> set (co_frontiers s)" "fr_root f = root" "fr_recipient f = lookup"
    "fr_through f = n"
    by (auto simp: scan_after_def dest: require_row_Inr)
  from evolves_persist [OF frontiers_steps [OF assms(2)] f(1)] obtain f' where
    f': "f' \<in> set (co_frontiers s')" "frontier_kept f f'" by blast
  with assms(3) frontier_read [of s' f'] f show ?thesis
    by (auto simp: cohort_sound_def cohort_rows_sound_def frontier_kept_def same_frontier_def)
qed

lemma frontier_reached:
  assumes "frontier_advance f s = Inr (u, s')" "cohort_sound mid s"
  shows "\<exists>n. scan_after s' (fr_root f) (fr_recipient f) = Inr n \<and> fr_through f \<le> n"
proof -
  obtain current where current: "scan_after s (fr_root f) (fr_recipient f) = Inr current"
    using assms(1) by (auto simp: frontier_advance_def op_simps)
  show ?thesis
  proof (cases "current < fr_through f")
    case True
    with assms(1) current have "upsert_row frontiers_table same_frontier f s = Inr s'"
      by (auto simp: frontier_advance_def op_simps)
    moreover have "rows_sound frontiers_table s'"
      using cohort_sound_steps [OF cohorts.within_run [OF accepts_frontier assms(1)] assms(2)]
      by (simp add: cohort_sound_def cohort_rows_sound_def)
    ultimately show ?thesis using frontier_read frontier_written by fastforce
  next
    case False
    with assms(1) current show ?thesis by (auto simp: frontier_advance_def op_simps)
  qed
qed

text \<open>What the second transaction of a scan has done when it returns.\<close>

lemma scanned_accepted:
  assumes "accept_scanned sha clock root namespace lookup unaccepted through s = Inr (u, s')" "cohort_sound mid s"
  obtains n where "scan_after s' root lookup = Inr n" "through \<le> n"
    "\<And>reached. scan_after s root lookup = Inr reached \<Longrightarrow> reached \<le> n" "(cohort_step mid)\<^sup>*\<^sup>* s s'"
    "\<And>v. v \<in> set unaccepted \<Longrightarrow> sealed_at s' root (dv_seq v)"
proof -
  let ?frontier = "\<lparr>fr_root = root, fr_recipient = lookup, fr_through = through\<rparr>"
  let ?accept = "\<lambda>v. othen (cohort_record sha clock namespace v) (oreturn ())"
  from assms(1) obtain s1 where root: "namespace = root" and loop: "oforeach unaccepted ?accept s = Inr ((), s1)"
    and last: "frontier_advance ?frontier s1 = Inr (u, s')"
    by (auto simp: accept_scanned_def op_simps)
  have taken: "accepts mid (?accept v)" for v by (intro cohorts.within_intros accepts_record)
  have steps: "(cohort_step mid)\<^sup>*\<^sup>* s s1"
    by (rule cohorts.within_run [OF cohorts.within_foreach [OF taken] loop])
  have tail: "(cohort_step mid)\<^sup>*\<^sup>* s1 s'" by (rule cohorts.within_run [OF accepts_frontier last])
  note sound = cohort_sound_steps [OF steps assms(2)]
  obtain n where n: "scan_after s' root lookup = Inr n" "through \<le> n"
    using frontier_reached [OF last sound] by auto
  have "reached \<le> n" if "scan_after s root lookup = Inr reached" for reached
    using frontier_later [OF that rtranclp_trans [OF steps tail] cohort_sound_steps [OF tail sound]] n(1) by auto
  moreover have "sealed_at s' root (dv_seq v)" if v: "v \<in> set unaccepted" for v
  proof -
    from foreach_visits [OF loop v taken] obtain s2 s3 r where
      "cohort_record sha clock namespace v s2 = Inr (r, s3)" "(cohort_step mid)\<^sup>*\<^sup>* s3 s1"
      by (auto simp: op_simps)
    with sealed_at_later [OF rtranclp_trans [OF _ tail] recorded_sealed] root show ?thesis by metis
  qed
  ultimately show thesis using that [OF n _ rtranclp_trans [OF steps tail]] by blast
qed

lemma received_behind: "v \<in> set (received_after originals lookup after limit) \<Longrightarrow> after < dv_seq v"
  by (auto simp: received_after_def dest: in_set_takeD)

text \<open>A scan that returned, whatever others committed between its transactions: every original of the
  page that names the owner is sealed, and the frontier stands at the end of the page or beyond, and
  not before where the others left it.\<close>

lemma visible_accepted:
  assumes "accept_visible sha clock root captured namespace lookup owner originals others s = Inr (u, s')"
    "cohort_sound mid s" "(cohort_step mid)\<^sup>*\<^sup>* s (others s)" "scan_after s root lookup = Inr after"
    "page = received_after originals lookup after frontier_page"
  obtains reached n where "scan_after (others s) root lookup = Inr reached" "scan_after s' root lookup = Inr n"
    "after \<le> reached" "reached \<le> n" "page \<noteq> [] \<Longrightarrow> dv_seq (last page) \<le> n"
    "\<And>v. v \<in> set page \<Longrightarrow> (lookup, owner) \<in> set (del_recipients v) \<Longrightarrow> sealed_at s' root (dv_seq v)"
proof -
  let ?sealed = "sealed_sequences_after s root lookup after frontier_page"
  let ?through = "if page = [] then after else dv_seq (last page)"
  from assms(1,4) obtain rest where rest: "unaccepted_in ?sealed lookup owner page = Inr rest"
    and scanned: "accept_scanned sha clock root namespace lookup rest ?through (others s) = Inr (u, s')"
    unfolding assms(5) by (auto simp: accept_visible_def scan_visible_def Let_def split del: if_split)
  note sound = cohort_sound_steps [OF assms(3,2)]
  from frontier_later [OF assms(4,3) sound] obtain reached where
    reached: "scan_after (others s) root lookup = Inr reached" "after \<le> reached" by auto
  from scanned sound show thesis
  proof (rule scanned_accepted)
    fix n
    assume n: "scan_after s' root lookup = Inr n" "?through \<le> n"
      and kept: "\<And>m. scan_after (others s) root lookup = Inr m \<Longrightarrow> m \<le> n"
      and steps: "(cohort_step mid)\<^sup>*\<^sup>* (others s) s'"
      and sealed: "\<And>v. v \<in> set rest \<Longrightarrow> sealed_at s' root (dv_seq v)"
    have "sealed_at s' root (dv_seq v)"
      if v: "v \<in> set page" "(lookup, owner) \<in> set (del_recipients v)" for v
    proof (cases "dv_seq v \<in> set ?sealed")
      case True
      from sealed_at_later [OF rtranclp_trans [OF assms(3) steps] sealed_sequence [OF True]] show ?thesis .
    next
      case False
      from sealed [OF unaccepted_member [OF rest v(1) False v(2)]] show ?thesis .
    qed
    then show thesis using that [OF reached(1) n(1) reached(2) kept [OF reached(1)]] n(2) by (auto split: if_splits)
  qed
qed

subsection \<open>Paging\<close>

text \<open>The claims of a recipient that belong to a sealed cohort and are still to be worked on.\<close>

definition sealed_claim :: "cohort_state \<Rightarrow> assignment \<Rightarrow> bool" where
  "sealed_claim s c \<longleftrightarrow>
     (\<exists>m \<in> set (co_members s). \<exists>b \<in> set (co_batches s). \<exists>d \<in> set (co_deliveries s).
        bm_claim m = asg_id c \<and> bt_root b = bm_root m \<and> bt_seq b = bm_seq m \<and> bt_sealed b \<and>
        cd_root d = bm_root m \<and> cd_seq d = bm_seq m \<and> cd_claim d = Some (asg_id c))"

abbreviation page_order :: "assignment \<Rightarrow> int \<times> string" where
  "page_order c \<equiv> (asg_wire_seq c, asg_id c)"

definition sealed_selection ::
  "(assignment_state \<Rightarrow> bool) \<Rightarrow> cohort_state \<Rightarrow> string \<Rightarrow> int \<Rightarrow> assignment list" where
  "sealed_selection selects s lookup after =
     filter (\<lambda>c. asg_recipient_lookup c = lookup \<and> after < asg_wire_seq c \<and> selects (asg_lifecycle c) \<and>
       sealed_claim s c) (wake_claims (co_db s))"

definition pending_sealed :: "cohort_state \<Rightarrow> string \<Rightarrow> int \<Rightarrow> assignment list" where
  "pending_sealed s lookup after = sort_key page_order (sealed_selection selected_pending s lookup after)"

lemma concat_single:
  "distinct xs \<Longrightarrow> y \<in> set xs \<Longrightarrow> (\<And>x. x \<in> set xs \<Longrightarrow> x \<noteq> y \<Longrightarrow> f x = []) \<Longrightarrow> concat (map f xs) = f y"
proof (induction xs)
  case (Cons x xs)
  show ?case
  proof (cases "x = y")
    case True
    with Cons.prems have "f z = []" if "z \<in> set xs" for z using that by auto
    then have "concat (map f xs) = []" by simp
    with True show ?thesis by simp
  next
    case False
    with Cons show ?thesis by simp
  qed
qed simp

lemma concat_filter: "concat (map (\<lambda>x. if P x then [x] else []) xs) = filter P xs"
  by (induction xs) auto

lemma rows_distinct:
  assumes "rows_sound T d" "\<And>r. row_conflict T r r"
  shows "distinct (table_rows T d)"
  using assms unfolding rows_sound_def distinct_conv_nth by metis

text \<open>The keys of the tables make the join give each claim at most once.\<close>

lemma sealed_join_selection:
  assumes "cohort_sound mid s"
  shows "sealed_join selects s lookup after = sealed_selection selects s lookup after"
proof -
  have batches: "rows_sound batches_table s" and members: "rows_sound batch_members_table s"
    and deliveries: "rows_sound cohort_deliveries_table s"
    using assms by (simp_all add: cohort_sound_def cohort_rows_sound_def)
  have "distinct (co_batches s)" "distinct (co_members s)" "distinct (co_deliveries s)"
    using rows_distinct [OF batches] rows_distinct [OF members] rows_distinct [OF deliveries]
    by (simp_all add: cohort_tables)
  note lists = this
  let ?Q = "\<lambda>c m b d. bm_claim m = asg_id c \<and> bt_root b = bm_root m \<and> bt_seq b = bm_seq m \<and> bt_sealed b \<and>
       cd_root d = bm_root m \<and> cd_seq d = bm_seq m \<and> cd_claim d = Some (asg_id c)"
  let ?sel = "\<lambda>c. asg_recipient_lookup c = lookup \<and> after < asg_wire_seq c \<and> selects (asg_lifecycle c)"
  let ?inner = "\<lambda>c. [c. m \<leftarrow> co_members s, b \<leftarrow> co_batches s, d \<leftarrow> co_deliveries s,
     bm_claim m = asg_id c \<and> bt_root b = bm_root m \<and> bt_seq b = bm_seq m \<and> bt_sealed b \<and>
     cd_root d = bm_root m \<and> cd_seq d = bm_seq m \<and> cd_claim d = Some (asg_id c) \<and> ?sel c]"
  have "?inner c = (if sealed_claim s c \<and> ?sel c then [c] else [])" for c
  proof (cases "sealed_claim s c \<and> ?sel c")
    case True
    then obtain m b d where hit: "m \<in> set (co_members s)" "b \<in> set (co_batches s)" "d \<in> set (co_deliveries s)"
      "?Q c m b d" by (auto simp: sealed_claim_def)
    have m: "m' = m" if "m' \<in> set (co_members s)" "bm_claim m' = asg_id c" for m'
      using rows_sound_unique [OF members, of m m'] that hit(1,4) by (simp add: batch_members_table_def)
    have b: "b' = b" if "b' \<in> set (co_batches s)" "bt_root b' = bm_root m" "bt_seq b' = bm_seq m" for b'
      using rows_sound_unique [OF batches, of b b'] that hit(2,4) by (simp add: batches_table_def)
    have d: "d' = d" if "d' \<in> set (co_deliveries s)" "cd_root d' = bm_root m" "cd_seq d' = bm_seq m"
      "cd_claim d' = Some (asg_id c)" for d'
      using rows_sound_unique [OF deliveries, of d d'] that hit(3,4) by (simp add: cohort_deliveries_table_def)
    show ?thesis
      apply (subst concat_single [OF lists(2) hit(1)])
       apply (use m in auto)[1]
      apply (subst concat_single [OF lists(1) hit(2)])
       apply (use b in auto)[1]
      apply (subst concat_single [OF lists(3) hit(3)])
       apply (use d in auto)[1]
      using True hit(4) by simp
  next
    case False
    then show ?thesis by (auto simp: sealed_claim_def)
  qed
  then have "sealed_join selects s lookup after =
      concat (map (\<lambda>c. if sealed_claim s c \<and> ?sel c then [c] else []) (wake_claims (co_db s)))"
    unfolding sealed_join_def by presburger
  also have "\<dots> = sealed_selection selects s lookup after"
    unfolding concat_filter sealed_selection_def by (rule filter_cong) auto
  finally show ?thesis .
qed

text \<open>Resuming a strictly sorted list behind its first elements gives the others.\<close>

lemma filter_behind:
  fixes f :: "'a \<Rightarrow> int"
  assumes "sorted_wrt (\<lambda>x y. f x < f y) xs" "0 < n" "n \<le> length xs"
  shows "filter (\<lambda>x. f (last (take n xs)) < f x) xs = drop n xs"
proof -
  let ?front = "take n xs" and ?rest = "drop n xs"
  have sorted: "sorted_wrt (\<lambda>x y. f x < f y) (?front @ ?rest)" using assms(1) by simp
  have "?front \<noteq> []" using assms(2,3) by auto
  then obtain ys y where front: "?front = ys @ [y]" by (metis append_butlast_last_id)
  with sorted have "\<forall>x \<in> set ys. f x < f y" by (simp add: sorted_wrt_append)
  with front have "filter (\<lambda>x. f (last ?front) < f x) ?front = []" by (auto simp: filter_empty_conv)
  moreover from sorted front have "filter (\<lambda>x. f (last ?front) < f x) ?rest = ?rest"
    by (simp add: sorted_wrt_append)
  ultimately have "filter (\<lambda>x. f (last ?front) < f x) (?front @ ?rest) = ?rest"
    unfolding filter_append by simp
  then show ?thesis by simp
qed

lemma selection_sequences:
  assumes "cohort_sound mid s"
  shows "distinct (map asg_wire_seq (sealed_selection selects s lookup after))"
proof -
  have rows: "rows_sound wake_claims_table (co_db s)" by (rule claim_rows [OF assms])
  have "distinct (wake_claims (co_db s))"
    using rows_distinct [OF rows] by (simp add: wake_claims_table_def)
  moreover have "inj_on asg_wire_seq (set (sealed_selection selects s lookup after))"
  proof (rule inj_onI)
    fix c c' assume c: "c \<in> set (sealed_selection selects s lookup after)"
      "c' \<in> set (sealed_selection selects s lookup after)" "asg_wire_seq c = asg_wire_seq c'"
    then have "c \<in> set (wake_claims (co_db s))" "c' \<in> set (wake_claims (co_db s))"
      "asg_recipient_lookup c = asg_recipient_lookup c'"
      by (simp_all add: sealed_selection_def)
    with c(3) have "c' = c" by (intro rows_sound_unique [OF rows]) (simp_all add: wake_claims_table_def)
    then show "c = c'" by (rule sym)
  qed
  ultimately show ?thesis by (simp add: distinct_map sealed_selection_def)
qed

lemma strictly_sorted:
  "sorted_wrt (\<lambda>c c'. page_order c \<le> page_order c') cs \<Longrightarrow> distinct (map asg_wire_seq cs) \<Longrightarrow>
   sorted_wrt (\<lambda>c c'. asg_wire_seq c < asg_wire_seq c') cs"
proof (induction cs)
  case (Cons c cs)
  have "asg_wire_seq c < asg_wire_seq c'" if "c' \<in> set cs" for c'
  proof -
    have "asg_wire_seq c \<le> asg_wire_seq c'" using Cons.prems(1) that by (auto simp: less_eq_prod_def)
    moreover have "asg_wire_seq c \<noteq> asg_wire_seq c'" using Cons.prems(2) that by auto
    ultimately show ?thesis by simp
  qed
  with Cons show ?case by simp
qed simp

lemma sorted_sequences:
  assumes "distinct (map asg_wire_seq cs)"
  shows "sorted_wrt (\<lambda>c c'. asg_wire_seq c < asg_wire_seq c') (sort_key page_order cs)"
proof (rule strictly_sorted)
  show "sorted_wrt (\<lambda>c c'. page_order c \<le> page_order c') (sort_key page_order cs)"
    using sorted_sort_key [of page_order cs] by (simp add: sorted_map)
  show "distinct (map asg_wire_seq (sort_key page_order cs))" using assms by (simp add: distinct_map)
qed

lemma pending_behind:
  assumes "after \<le> cursor"
  shows "pending_sealed s lookup cursor = filter (\<lambda>c. cursor < asg_wire_seq c) (pending_sealed s lookup after)"
  using assms unfolding pending_sealed_def filter_sort sealed_selection_def filter_filter
  by (intro arg_cong [of _ _ "sort_key page_order"] filter_cong) auto

lemma pending_page:
  assumes "cohort_sound mid s" "0 \<le> cursor"
  shows "sealed_cohort_assignments selected_pending s lookup cursor 100 =
    Inr (take 100 (pending_sealed s lookup cursor))"
proof -
  have "assignment_row_valid c = Inr ()" if "c \<in> set (take 100 (pending_sealed s lookup cursor))" for c
    using in_set_takeD [OF that] claim_valid [OF assms(1)] by (simp add: pending_sealed_def sealed_selection_def)
  then show ?thesis
    using assms(2) sealed_join_selection [OF assms(1)]
    by (simp add: sealed_cohort_assignments_def pending_sealed_def require_def)
qed

lemma pending_pages_complete:
  assumes "cohort_sound mid s" "0 \<le> cursor"
  shows "pending_pages s lookup cursor pending = Inr (pending @ pending_sealed s lookup cursor)"
  using assms
proof (induction s lookup cursor pending rule: pending_pages.induct)
  case (1 s lookup cursor pending)
  let ?all = "pending_sealed s lookup cursor"
  let ?page = "take 100 ?all" and ?next = "asg_wire_seq (last (take 100 ?all))"
  note page = pending_page [OF 1(2,3), of lookup]
  show ?case
  proof (cases "length ?page < 100")
    case True
    then have "take 100 ?all = ?all" by simp
    with True show ?thesis unfolding pending_pages.simps [of s lookup cursor pending] page by simp
  next
    case False
    then have long: "100 \<le> length ?all" by simp
    have sorted: "sorted_wrt (\<lambda>c c'. asg_wire_seq c < asg_wire_seq c') ?all"
      unfolding pending_sealed_def by (rule sorted_sequences [OF selection_sequences [OF 1(2)]])
    have "last ?page \<in> set ?page" using long by (intro last_in_set) auto
    from in_set_takeD [OF this] have next_behind: "cursor < ?next"
      by (simp add: pending_sealed_def sealed_selection_def)
    have "pending_sealed s lookup ?next = drop 100 ?all"
      using pending_behind [of cursor ?next s lookup] filter_behind [OF sorted, of 100] next_behind long by simp
    moreover have "pending_pages s lookup ?next (pending @ ?page) =
        Inr ((pending @ ?page) @ pending_sealed s lookup ?next)"
      by (rule 1(1) [OF page False 1(2)]) (use 1(3) next_behind in simp)
    ultimately show ?thesis using False
      unfolding pending_pages.simps [of s lookup cursor pending] page by simp
  qed
qed

end
