(* ===== verification/Cohort_Examples.thy ===== *)
theory Cohort_Examples
  imports Cohort_Reads Example_Runs
begin

text \<open>
  A concrete run of a private coordinator, evaluated once: two participants are registered, and an
  original that wakes one of them and is only observed by the other is accepted.  A scan is overtaken
  by another that saw more of the bus.
\<close>

definition cohort_sha :: "string \<Rightarrow> string" where
  "cohort_sha text = take 64 (rev text @ replicate 64 CHR ''x'')"

definition observed_original :: delivered where
  "observed_original = \<lparr>del_reference = (1, ''m1''), del_reply_target = ''Cy'',
     del_recipients = [(''al'', ''Al''), (''bo'', ''Bo'')],
     del_decisions = [WakeDecision ''al'' DIRECT FullWake, NoWakeDecision ''bo'' UNMENTIONED_OBSERVER],
     dv_target = ''Al'', dv_envelope = replicate 64 CHR ''e'', dv_audience = replicate 64 CHR ''a''\<rparr>"

definition registered_calls :: "cohort_call list" where
  "registered_calls = [Coordinate (Register ''al'' True), Coordinate (Register ''bo'' True),
     DeclareAcceptance ''r'' ''al'']"

definition scan_call :: cohort_call where
  "scan_call = AcceptScanned ''r'' ''r'' ''al'' [observed_original] 1"

text \<open>A later original that wakes nobody, and a second scan that saw both.\<close>

definition later_original :: delivered where
  "later_original = \<lparr>del_reference = (2, ''m2''), del_reply_target = ''Cy'',
     del_recipients = [(''al'', ''Al'')],
     del_decisions = [NoWakeDecision ''al'' UNMENTIONED_OBSERVER],
     dv_target = ''Al'', dv_envelope = replicate 64 CHR ''e'', dv_audience = replicate 64 CHR ''a''\<rparr>"

definition other_scan :: cohort_call where
  "other_scan = AcceptScanned ''r'' ''r'' ''al'' [observed_original, later_original] 2"

definition accepted_calls :: "cohort_call list" where
  "accepted_calls = registered_calls @ [scan_call]"

abbreviation example_cohorts :: "cohort_call list \<Rightarrow> cohort_state" where
  "example_cohorts calls \<equiv> cohort_run example_mid cohort_sha example_clock calls"

lemma accepted_read:
  "\<exists>a. claim_record cohort_sha ''r'' observed_original (example_cohorts accepted_calls) = Inr a"
proof -
  have "\<not> isl (claim_record cohort_sha ''r'' observed_original (example_cohorts accepted_calls))"
    by code_simp
  then show ?thesis by (rule not_isl)
qed

lemma scan_start: "scan_after (example_cohorts registered_calls) ''r'' ''al'' = Inr 0"
  by code_simp

text \<open>A scan of the first original alone that another scan overtakes between its two transactions.\<close>

lemma scan_overtaken: "scan_after (example_cohorts (registered_calls @ [other_scan])) ''r'' ''al'' = Inr 2"
  by code_simp

lemma scan_returned:
  "\<exists>s'. accept_visible cohort_sha example_clock ''r'' ''r'' ''r'' ''al'' ''Al'' [observed_original]
     (\<lambda>_. example_cohorts (registered_calls @ [other_scan])) (example_cohorts registered_calls) = Inr ((), s')"
proof -
  have "\<not> isl (accept_visible cohort_sha example_clock ''r'' ''r'' ''r'' ''al'' ''Al'' [observed_original]
     (\<lambda>_. example_cohorts (registered_calls @ [other_scan])) (example_cohorts registered_calls))"
    by code_simp
  from not_isl [OF this] show ?thesis by auto
qed

lemma accepted_batch:
  "map (\<lambda>b. (bt_sealed b, bt_members b, bt_claims b)) (co_batches (example_cohorts accepted_calls)) = [(True, 2, 1)]"
  by code_simp

end
