(* ===== verification/Spec2Isabelle.thy ===== *)
theory Spec2Isabelle
  imports Example_Runs Attempt_Results Goal_Examples Cohort_Examples
begin

text \<open>
  The coordinator of agent-comms decides which agent owns the work a message asks for and sees that
  the work is answered once.  It keeps its state in one SQLite database whose declared tables generate
  their own triggers, foreign keys and transition checks; stores run one transaction per operation
  over it; and replies are carried to a second store, the message bus, by a protocol that must survive
  the death of a process between the two.  This development models that path, from the lifecycle
  classes up to the reply on the bus, with the acceptance of messages for their recipients and the
  ledger that fences a goal's launches.  Paths below are under \<open>src/src/agent_comms\<close>.

  \<^bold>\<open>Lifecycles.\<close>  \<open>Lifecycle_Family\<close> models \<open>lifecycle.py\<close> and \<open>lifecycle_capability.py\<close>: states declared
  with successors, and the transition tables generated from them.  \<open>Assignment_States\<close>,
  \<open>Execution_States\<close>, \<open>Attempt_States\<close> and \<open>Obligation_States\<close> model the four files of those names, each
  state class a constructor with the payload the class has.  \<open>Wake_Policy\<close> models \<open>wake_policy.py\<close> with
  the wire rows of recipient decisions.

  \<^bold>\<open>Tables.\<close>  \<open>Typed_Table\<close> models \<open>storage/typed_table.py\<close>: the mutation capabilities as trigger conditions
  on an old and a new row, and INSERT and UPDATE as fallible operations on a table declaration.
  \<open>Coordinator_Rows\<close> and \<open>Coordinator_Schema\<close> are the row records and the declarations of
  \<open>coordination/tables\<close>, with the deferred foreign keys a commit checks.

  \<^bold>\<open>Stores.\<close>  \<open>Coordinator_Session\<close> is \<open>coordination/session.py\<close> with \<open>results.py\<close>: \<open>writing\<close> runs an operation and
  commits it if its deferred keys hold, and an operation that raises leaves the database as it was.
  \<open>Recovery_Snapshot\<close> is the aggregate of \<open>coordination/snapshot.py\<close> with \<open>recovery_reader.py\<close>.
  \<open>Participant_Store\<close>, \<open>Assignment_Store\<close>, \<open>Execution_Store\<close> and \<open>Attempt_Store\<close> are the four stores, an
  operation each as the source has them, its guards and early returns included.

  \<^bold>\<open>Replies.\<close>  \<open>Response_Publication\<close> models \<open>coordination/response.py\<close> with the parts of
  \<open>response_conversation.py\<close>, \<open>publisher.py\<close>, \<open>bus.py\<close> and \<open>response_acknowledgement.py\<close> it goes through.  A
  \<open>world\<close> is the session, the dispatch records and the bus.  Publishing is one transaction that records
  the dispatch and a second that appends the keyed bus row, durable at once, and acknowledges it; the
  argument \<open>stop\<close> names the point between these writes at which the process dies, and the world keeps
  what was durable there.  \<open>Coordinator_Calls\<close> puts the operations in one datatype of calls; a run is a
  list of calls from the empty world, in any order and by any callers, with other messages appended
  to the bus in between.

  \<^bold>\<open>Goals.\<close>  A goal's autonomous launches are fenced by a second SQLite file, \<open>goal_attempts.py\<close>.  \<open>Goal_States\<close>
  models \<open>goal_attempt_phase.py\<close>, \<open>goal_generation.py\<close> and \<open>attempt_resolution.py\<close>; \<open>Goal_Ledger\<close> the ledger's
  tables, its reads and a change with its readback; \<open>Goal_Store\<close> the operations of \<open>GoalAttemptStore\<close> and
  of a launch permit.  A run is a list of calls by any number of processes: each process keeps its
  own grants and reservations in memory, may be restarted and then holds none, and the storage of
  a call may fail before its operation runs, at its commit or after it.

  \<^bold>\<open>Cohorts.\<close>  A bus original is accepted for all its recipients in one transaction, which seals the cohort.
  \<open>Cohort_Tables\<close> models the tables and triggers of \<open>cohort_schema.py\<close> with the attempt table of
  \<open>coordination/tables/harness_deliveries.py\<close>; \<open>Cohort_Acceptance\<close> models \<open>coordination/cohort.py\<close>,
  \<open>cohort_foreground.py\<close> and the operations on attempts: accepting an original and replaying it, scanning
  the originals of a recipient behind its frontier, and paging through the claims of sealed cohorts.
  A scan reads in one transaction and writes in a second; what other callers do between the two is an
  argument of \<open>accept_visible\<close>.
  A \<open>cohort_state\<close> is a \<open>world\<close> with these tables; \<open>cohort_run\<close> of \<open>Cohort_Results\<close> runs the calls of the
  coordinator and those of acceptance in any order.

  \<^bold>\<open>What the theories show.\<close>  \<open>Coordinator_Steps\<close> is an abstract machine of single statements and
  commits, and every run refines it (C1).  \<open>Coordinator_Invariants\<close>, \<open>Coordinator_Consistency\<close> and
  \<open>Coordinator_Results\<close> prove its invariants by rule induction, and \<open>Recovery_Reads\<close> that reading a
  committed database succeeds with a value given in closed form (C2 to C12).  \<open>Publication_Contract\<close> and
  \<open>Store_Contract\<close> state as locales what operations keep when their statements keep it;
  \<open>Publication_Invariants\<close> interprets them for the publication protocol and relates the bus to the
  database (C13 to C17).  \<open>Fence_Results\<close> is about owner fences (C18 to C20), \<open>Attempt_Results\<close> and
  \<open>Settlement_Results\<close> about the effect of starting, advancing and settling an attempt, on the
  branches that raise too (C21 to C26).  Rows, the bus, wire formats and lifecycles
  follow (C27 to C30).  \<open>Goal_Protocol\<close> gives the ledger an abstract machine and a locale for the
  relations its steps keep; \<open>Goal_Results\<close> interprets it for the ledger's invariant and its history,
  \<open>Goal_Launches\<close> counts the launch permits and \<open>Goal_Progress\<close> shows that the calls of a relaunch return
  (C31 to C36).  \<open>Cohort_Results\<close> proves the invariant of the cohort tables and what later calls keep of them;
  \<open>Cohort_Reads\<close> that a sealed cohort is exact, that its acceptance is read back for ever, and that scans
  and pages miss nothing (C37 to C40).  \<open>Example_Runs\<close>, \<open>Goal_Examples\<close> and \<open>Cohort_Examples\<close> evaluate concrete runs, on which each property with a
  hypothesis is applied.

  \<^bold>\<open>Parameters.\<close>  The message id function \<open>mid\<close> and the digest \<open>sha\<close> are arguments; so are the readings of
  the clock, indexed by how many were taken, and the \<open>boundary\<close> and \<open>live_owner\<close> a caller of the
  publication presents, and the grants, attempt identities and usage texts of the ledger, and the originals
  of the bus that are accepted.  The theorems hold for all of them; the one hypothesis on a digest is its
  length of 64 (C36).  The loops of the model are over finite lists, apart from the paging loop over sealed
  claims, which ends because fewer claims lie behind each next cursor; every definition is total and none
  takes fuel.  A Python \<open>int\<close> is unbounded and modelled as \<^typ>\<open>int\<close>, fact sets are bit masks on it.

  \<^bold>\<open>Not modelled.\<close>  SQLite itself: transactions are serial and atomic, as \<open>BEGIN EXCLUSIVE\<close> makes them, and the
  generated trigger text is modelled by the condition it states.  The asynchronous workers, the
  installation of schemas, the readers of awareness provenance, the package check of a scan, the observed
  parts of harness transcripts, the recovery of attempts after a restart and the other side tables of the
  coordinator; canonical text beyond code point 255; the
  frozen audience stored with a bus row, the claims, watchers and files of the bus; the goal registry and
  its scheduler, the ledger's usage totals and its views for presentation; native agents, the user interface and the command line.
\<close>

section \<open>Properties of every run\<close>

text \<open>The database after a sequence of calls.\<close>

abbreviation run_db ::
  "(message \<Rightarrow> string) \<Rightarrow> (string \<Rightarrow> string) \<Rightarrow> (nat \<Rightarrow> int) \<Rightarrow> call list \<Rightarrow> coordination" where
  "run_db mid sha clock calls \<equiv> w_db (run mid sha clock calls)"

abbreviation example_db :: "call list \<Rightarrow> coordination" where
  "example_db calls \<equiv> run_db example_mid example_sha example_clock calls"

text \<open>C1: every database a sequence of store calls leads to, calls that raise included, is one the
  abstract machine of table statements and commits can reach.\<close>

theorem run_refines_machine: "reachable mid (run_db mid sha clock calls)"
  by (rule run_reachable_lemma)

text \<open>C2: reading an execution of any run's database never raises: every agreement the snapshot's
  constructor demands holds, and the value read is the one the tables determine.\<close>

theorem run_snapshot_total:
  assumes "e \<in> set (executions (run_db mid sha clock calls))"
  shows "get mid (run_db mid sha clock calls) (exec_id e) =
    Inr (committed_snapshot (run_db mid sha clock calls) e)"
  by (rule get_committed [OF run_sound run_deferred assms])

theorem run_snapshot_total_witness:
  "get example_mid (example_db (started_calls @ retried_calls)) ''x1'' =
    Inr (committed_snapshot (example_db (started_calls @ retried_calls)) (hd (executions (db retried_session))))"
proof -
  have member: "hd (executions (db retried_session)) \<in> set (executions (example_db (started_calls @ retried_calls)))"
    unfolding retried_run by (simp add: retried_session_def)
  have "exec_id (hd (executions (db retried_session))) = ''x1''" by (simp add: retried_session_def)
  with run_snapshot_total [OF member] show ?thesis by simp
qed

text \<open>C3: no owner ever has two live attempts, whatever calls were made in whatever order.\<close>

theorem run_single_live_attempt:
  "length (filter (\<lambda>a. att_owner a = p \<and> \<not> terminal_attempt (att_phase a))
     (attempts (run_db mid sha clock calls))) \<le> 1"
  by (rule filter_one_live [OF run_sound run_deferred])

text \<open>C4: a live attempt holds its owner: its execution is active on exactly that ordinal, the owner's
  current pointer names both, and the owner's generation is the one the attempt was started under.\<close>

theorem run_live_attempt_fenced:
  assumes "a \<in> set (attempts (run_db mid sha clock calls))" "\<not> terminal_attempt (att_phase a)"
  shows "(\<exists>e \<in> set (executions (run_db mid sha clock calls)). exec_id e = att_execution a \<and>
      exec_owner e = att_owner a \<and> exec_lifecycle e = ActiveE (att_ordinal a)) \<and>
    (\<exists>p \<in> set (current_executions (run_db mid sha clock calls)). ptr_owner p = att_owner a \<and>
      ptr_execution p = Some (att_execution a) \<and> ptr_attempt p = Some (att_ordinal a)) \<and>
    (\<exists>g \<in> set (owner_generations (run_db mid sha clock calls)). gen_owner g = att_owner a \<and>
      generation g = att_generation a)"
  by (rule live_attempt_current [OF run_sound run_deferred assms])

theorem run_live_attempt_fenced_witness:
  "\<exists>g \<in> set (owner_generations (example_db (started_calls @ retried_calls))).
     gen_owner g = ''al'' \<and> generation g = 2"
proof -
  let ?a = "last (attempts (db retried_session))"
  have live: "?a \<in> set (attempts (example_db (started_calls @ retried_calls)))" "\<not> terminal_attempt (att_phase ?a)"
    unfolding retried_run by (simp_all add: retried_session_def)
  have "att_owner ?a = ''al''" "att_generation ?a = 2" by (simp_all add: retried_session_def)
  with run_live_attempt_fenced [OF live] show ?thesis by simp
qed

text \<open>C5: the attempts of an execution are numbered 1, 2, ... in the order they were started, without
  gaps, and there are never more of them than the execution's budget.\<close>

theorem run_attempts_within_budget:
  assumes "e \<in> set (executions (run_db mid sha clock calls))"
  shows "map att_ordinal (attempts_of (run_db mid sha clock calls) (exec_id e)) =
      map int [1..<Suc (length (attempts_of (run_db mid sha clock calls) (exec_id e)))] \<and>
    int (length (attempts_of (run_db mid sha clock calls) (exec_id e))) \<le> exec_max_attempts e"
  by (rule attempts_within_budget [OF run_sound assms])

theorem run_attempts_within_budget_witness:
  "map att_ordinal (attempts_of (example_db (started_calls @ retried_calls)) ''x1'') = [1, 2] \<and>
   int (length (attempts_of (example_db (started_calls @ retried_calls)) ''x1'')) \<le> 3"
proof -
  let ?e = "hd (executions (db retried_session))"
  have e: "?e \<in> set (executions (example_db (started_calls @ retried_calls)))"
    unfolding retried_run by (simp add: retried_session_def)
  have "exec_id ?e = ''x1''" "exec_max_attempts ?e = 3"
    "length (attempts_of (example_db (started_calls @ retried_calls)) ''x1'') = 2"
    unfolding retried_run by (simp_all add: retried_session_def attempts_of_def)
  with run_attempts_within_budget [OF e] show ?thesis by (simp add: upt_rec)
qed

text \<open>C6: an attempt after the first follows a failed one: the attempt of the preceding ordinal ended in
  the failed outcome, not in success or an unknown outcome, and belongs to a strictly older generation.\<close>

theorem run_retry_follows_failure:
  assumes "a \<in> set (attempts (run_db mid sha clock calls))" "1 < att_ordinal a"
  shows "\<exists>b \<in> set (attempts (run_db mid sha clock calls)). att_execution b = att_execution a \<and>
    att_ordinal b = att_ordinal a - 1 \<and> att_lifecycle b = Ended AttemptFailed \<and>
    att_generation b < att_generation a"
  using run_sound [of mid sha clock calls] assms
  by (simp add: coordinator_sound_def attempts_chained_def attempt_follows_def)

theorem run_retry_follows_failure_witness:
  "\<exists>b \<in> set (attempts (example_db (started_calls @ retried_calls))). att_execution b = ''x1'' \<and>
     att_ordinal b = 1 \<and> att_lifecycle b = Ended AttemptFailed \<and> att_generation b < 2"
proof -
  let ?a = "last (attempts (db retried_session))"
  have a: "?a \<in> set (attempts (example_db (started_calls @ retried_calls)))" "1 < att_ordinal ?a"
    unfolding retried_run by (simp_all add: retried_session_def)
  have "att_execution ?a = ''x1''" "att_ordinal ?a = 2" "att_generation ?a = 2"
    by (simp_all add: retried_session_def)
  with run_retry_follows_failure [OF a] show ?thesis by simp
qed

text \<open>C7: later calls keep what earlier calls stored: no row of any table disappears, identities and
  frozen policies never change, generations, ordinals and times never decrease, a row with a revision
  that is not as it was has a greater one, replay facts are never erased, a terminal execution,
  attempt, claim or obligation is never rewritten, and links, intents, receipts and recovery audits
  are kept as they are.\<close>

theorem run_history_kept:
  "history_kept (run_db mid sha clock calls) (run_db mid sha clock (calls @ later))"
  unfolding run_append by (rule statements_history [OF run_from_steps])

text \<open>C8: a completed execution is complete in all its parts: the attempt it names succeeded, every
  obligation it has was published or settled silently, and every claim bound to it is completed.\<close>

theorem run_completion_settled:
  assumes "e \<in> set (executions (run_db mid sha clock calls))" "exec_lifecycle e = CompletedE n"
  shows "(\<exists>a \<in> set (attempts (run_db mid sha clock calls)). att_execution a = exec_id e \<and>
      att_ordinal a = n \<and> att_owner a = exec_owner e \<and> att_lifecycle a = Ended Succeeded) \<and>
    (\<forall>ob \<in> set (obligations (run_db mid sha clock calls)). obl_execution ob = exec_id e \<longrightarrow>
      success_terminal (obl_state ob)) \<and>
    (\<forall>c \<in> set (wake_claims (run_db mid sha clock calls)). asg_execution c = Some (exec_id e) \<longrightarrow>
      asg_kind c = CompletedAssignment)"
  by (rule completed_settled [OF run_sound run_deferred assms])

theorem run_completion_settled_witness:
  "\<exists>a \<in> set (attempts (example_db completed_calls)). att_execution a = ''x1'' \<and> att_ordinal a = 1 \<and>
     att_owner a = ''al'' \<and> att_lifecycle a = Ended Succeeded"
proof -
  let ?e = "hd (executions (db completed_session))"
  have e: "?e \<in> set (executions (example_db completed_calls))" "exec_lifecycle ?e = CompletedE 1"
    unfolding completed_run by (simp_all add: completed_session_def)
  have "exec_id ?e = ''x1''" "exec_owner ?e = ''al''" by (simp_all add: completed_session_def)
  with run_completion_settled [OF e] show ?thesis by simp
qed

text \<open>C9: an execution that failed after an attempt is beyond retry: its last attempt is recorded as
  failed or unknown, nothing was published for it, and the basis for a retry (budget, replay proof,
  retryable obligations) does not hold.\<close>

theorem run_failure_final:
  assumes "e \<in> set (executions (run_db mid sha clock calls))" "exec_lifecycle e = FailedE (Some n)"
  shows "failed_attempt_of (run_db mid sha clock calls) e \<and>
    \<not> basis_authorized (run_db mid sha clock calls) e \<and>
    (\<forall>r \<in> set (publication_receipts (run_db mid sha clock calls)). evi_execution r \<noteq> exec_id e)"
  by (rule failed_settled [OF run_sound assms])

theorem run_failure_final_witness:
  "\<not> basis_authorized (example_db (started_calls @ [FailUnknown (example_fence 1) 1]))
     (hd (executions (db failed_session)))"
proof -
  let ?e = "hd (executions (db failed_session))"
  have e: "?e \<in> set (executions (example_db (started_calls @ [FailUnknown (example_fence 1) 1])))"
    "exec_lifecycle ?e = FailedE (Some 1)"
    unfolding failed_run by (simp_all add: failed_session_def)
  from run_failure_final [OF e] show ?thesis by simp
qed

text \<open>C10: whether a snapshot authorizes a retry is exactly what the tables' retry basis says, although
  one is computed from the rows read into the snapshot and the other by the schema's triggers.\<close>

theorem run_retry_authority_agrees:
  "snapshot_retry_authorized (committed_snapshot (run_db mid sha clock calls) e) \<longleftrightarrow>
     basis_authorized (run_db mid sha clock calls) e"
  by (rule snapshot_retry_authorized_iff [OF sound_tables [OF run_sound]])

text \<open>C11: an execution owes a response to exactly the targets its claims name: the targets of the
  claims linked to it are the targets of its obligations.\<close>

theorem run_obligations_match_claims:
  assumes "e \<in> set (executions (run_db mid sha clock calls))"
  shows "claim_targets (snap_assignments (committed_snapshot (run_db mid sha clock calls) e)) =
    Some ` obl_target ` set (snap_obligations (committed_snapshot (run_db mid sha clock calls) e))"
  using committed_targets [OF run_sound run_deferred assms] by (simp add: snapshot_selectors)

theorem run_obligations_match_claims_witness:
  "claim_targets (snap_assignments (committed_snapshot (example_db started_calls) (hd (executions (db started_session))))) =
    Some ` obl_target ` set (snap_obligations
      (committed_snapshot (example_db started_calls) (hd (executions (db started_session)))))"
proof -
  have e: "hd (executions (db started_session)) \<in> set (executions (example_db started_calls))"
    unfolding started_run by (simp add: started_session_def)
  from run_obligations_match_claims [OF e] show ?thesis by simp
qed

text \<open>C12: once an execution is completed or failed no call ever attempts it again: its attempts
  are the same after any further calls.\<close>

theorem run_settled_never_attempted:
  assumes "e \<in> set (executions (run_db mid sha clock calls))"
    "has_capability execution_capabilities (exec_status e) Terminal"
  shows "attempts_of (run_db mid sha clock (calls @ later)) (exec_id e) =
    attempts_of (run_db mid sha clock calls) (exec_id e)"
proof -
  have "settled_execution (exec_id e) (run_db mid sha clock calls)"
    using settled_attempts_ended [OF run_sound run_deferred assms] assms
    unfolding settled_execution_def by blast
  then show ?thesis
    unfolding run_append by (rule settled_attempts_forever [OF run_from_steps run_sound])
qed

theorem run_settled_never_attempted_witness:
  "attempts_of (example_db (completed_calls @ [AdvanceGeneration ''al'' 1, Start example_retry])) ''x1'' =
    attempts_of (example_db completed_calls) ''x1''"
proof -
  let ?e = "hd (executions (db completed_session))"
  have e: "?e \<in> set (executions (example_db completed_calls))"
    "has_capability execution_capabilities (exec_status ?e) Terminal"
    unfolding completed_run by (simp_all add: completed_session_def has_capability_def)
  have "exec_id ?e = ''x1''" by (simp add: completed_session_def)
  with run_settled_never_attempted [OF e] show ?thesis by simp
qed

section \<open>Replies on the bus\<close>

abbreviation run_bus ::
  "(message \<Rightarrow> string) \<Rightarrow> (string \<Rightarrow> string) \<Rightarrow> (nat \<Rightarrow> int) \<Rightarrow> call list \<Rightarrow> bus_row list" where
  "run_bus mid sha clock calls \<equiv> w_bus (run mid sha clock calls)"

abbreviation example_bus :: "call list \<Rightarrow> bus_row list" where
  "example_bus calls \<equiv> run_bus example_mid example_sha example_clock calls"

text \<open>C13: whatever calls are made, raise or die halfway, what the two stores hold about replies changes
  only as the publication protocol allows: a reply is frozen, its dispatch recorded at most once and
  alone or with the append it authorizes, another message posted, or a row that carries a frozen
  reply acknowledged.\<close>

theorem run_follows_protocol:
  "(publishing mid)\<^sup>*\<^sup>* (exchange_of (run mid sha clock calls)) (exchange_of (run mid sha clock (calls @ later)))"
  unfolding run_append by (rule run_from_protocol)

text \<open>C14: a reply is on the bus at most once, and every keyed row of the bus carries, unchanged, a reply
  that was frozen by its owner and whose dispatch was recorded before it was appended.\<close>

theorem run_replies_once:
  "length (reply_rows x t (run_bus mid sha clock calls)) \<le> 1 \<and>
   (\<forall>q \<in> set (run_bus mid sha clock calls). bus_key q \<noteq> None \<longrightarrow>
     (\<exists>i \<in> set (publication_intents (run_db mid sha clock calls)).
        bus_key q = Some (int_key i) \<and> bus_message q = int_message i \<and>
        dispatched (int_execution i) (int_target i) (w_dispatches (run mid sha clock calls))))"
  using run_exchange_sound [of mid sha clock calls]
  by (simp add: exchange_sound_def carried_def carries_def reply_rows_def)

theorem run_replies_once_witness:
  "\<exists>i \<in> set (publication_intents (example_db published_calls)). int_message i = example_message \<and>
     dispatched (int_execution i) (int_target i) (w_dispatches (example_run published_calls))"
proof -
  have "example_row \<in> set (example_bus published_calls)" "bus_key example_row \<noteq> None"
    by (simp_all add: published_run published_world_def example_row_def)
  with run_replies_once [of "''x1''" "''bob''" example_mid example_sha example_clock published_calls]
  obtain i where "i \<in> set (publication_intents (example_db published_calls))" "bus_message example_row = int_message i"
    "dispatched (int_execution i) (int_target i) (w_dispatches (example_run published_calls))" by blast
  then show ?thesis by (intro bexI [of _ i]) (simp_all add: example_row_def)
qed

text \<open>C15: an acknowledgement is never recorded without its row: for every receipt there is exactly one
  row of that reply on the bus, with the sequence number and the message id the receipt records and
  the message that was frozen.\<close>

theorem run_acknowledged_replies:
  assumes "e \<in> set (publication_receipts (run_db mid sha clock calls))"
  shows "\<exists>i \<in> set (publication_intents (run_db mid sha clock calls)).
    int_execution i = evi_execution e \<and> int_target i = evi_target e \<and>
    (\<exists>q. reply_rows (evi_execution e) (evi_target e) (run_bus mid sha clock calls) = [q] \<and>
      bus_seq q = evi_seq e \<and> bus_message q = int_message i \<and> mid (int_message i) = evi_message_id e)"
  using receipt_row [OF run_exchange_sound [of mid sha clock calls]] assms by simp

theorem run_acknowledged_replies_witness:
  "\<exists>q. reply_rows ''x1'' ''bob'' (example_bus published_calls) = [q] \<and> bus_seq q = 1"
proof -
  let ?e = "hd (publication_receipts (db published_session))"
  have "?e \<in> set (publication_receipts (example_db published_calls))"
    by (simp add: published_run published_world_def published_session_def)
  from run_acknowledged_replies [OF this] show ?thesis by (auto simp: published_session_def)
qed

text \<open>C16: a completed execution has answered: for each response it owed there is exactly one row of the
  bus, addressed to that target, and the obligation records its sequence number and id.\<close>

theorem run_completed_replied:
  assumes "e \<in> set (executions (run_db mid sha clock calls))" "exec_status e = CompletedExecution"
    "ob \<in> set (obligations (run_db mid sha clock calls))" "obl_execution ob = exec_id e"
  shows "\<exists>q. reply_rows (exec_id e) (obl_target ob) (run_bus mid sha clock calls) = [q] \<and>
    obl_lifecycle ob = PublishedR (mid (bus_message q)) (bus_seq q) \<and> msg_target (bus_message q) = obl_target ob"
  by (rule completed_published [OF run_sound run_unsilenced run_exchange_sound assms])

theorem run_completed_replied_witness:
  "\<exists>q. reply_rows ''x1'' ''bob'' (example_bus published_calls) = [q] \<and> msg_target (bus_message q) = ''bob''"
proof -
  let ?e = "hd (executions (db published_session))" and ?ob = "hd (obligations (db published_session))"
  have "?e \<in> set (executions (example_db published_calls))" "exec_status ?e = CompletedExecution"
    "?ob \<in> set (obligations (example_db published_calls))" "obl_execution ?ob = exec_id ?e"
    by (simp_all add: published_run published_world_def published_session_def)
  from run_completed_replied [OF this] show ?thesis by (auto simp: published_session_def)
qed

text \<open>C17: a reply whose dispatch was recorded but which never reached the bus is never sent later: no
  further call appends it, whatever the callers retry, for an execution whose id has no colon, the
  character that separates the parts of a publication key.\<close>

theorem run_abandoned_never_sent:
  assumes "dispatched x t (w_dispatches (run mid sha clock calls))"
    "reply_rows x t (run_bus mid sha clock calls) = []" "CHR '':'' \<notin> set x"
  shows "reply_rows x t (run_bus mid sha clock (calls @ later)) = []"
proof -
  have "abandoned x t (exchange_of (run mid sha clock calls))"
    using assms(1,2) by (simp add: abandoned_def reply_rows_def filter_empty_conv)
  from protocol_abandoned [OF run_from_protocol run_exchange_sound this assms(3)] show ?thesis
    by (simp add: run_append abandoned_def reply_rows_def filter_empty_conv)
qed

theorem run_abandoned_never_sent_witness:
  "reply_rows ''x1'' ''bob'' (example_bus (abandoned_calls @ [example_publish NoStop, example_publish NoStop])) = []"
proof -
  have "dispatched ''x1'' ''bob'' (w_dispatches (example_run abandoned_calls))"
    "reply_rows ''x1'' ''bob'' (example_bus abandoned_calls) = []" "CHR '':'' \<notin> set ''x1''"
    by (simp_all add: abandoned_run abandoned_world_def example_dispatch_def dispatched_def reply_rows_def)
  from run_abandoned_never_sent [OF this] show ?thesis .
qed

section \<open>Fences and attempts\<close>

abbreviation run_session ::
  "(message \<Rightarrow> string) \<Rightarrow> (string \<Rightarrow> string) \<Rightarrow> (nat \<Rightarrow> int) \<Rightarrow> call list \<Rightarrow> session" where
  "run_session mid sha clock calls \<equiv> w_session (run mid sha clock calls)"

text \<open>C18: a fence is accepted exactly when it is the fence of a live attempt: the same execution,
  ordinal, owner, generation and token digest, at the attempt's current revision.\<close>

theorem run_fence_accepted_iff:
  "(\<exists>s s'. require_fence mid sha f (run_session mid sha clock calls) = Inr ((s, a), s')) \<longleftrightarrow>
   a \<in> set (attempts (run_db mid sha clock calls)) \<and> \<not> terminal_attempt (att_phase a) \<and>
   fence_authority sha f = Inr (attempt_authority_of a) \<and> att_revision a = fence_revision f"
  (is "?accepted \<longleftrightarrow> ?live")
proof
  assume ?accepted
  then obtain s s' where "require_fence mid sha f (run_session mid sha clock calls) = Inr ((s, a), s')" by blast
  from accepted_fence [OF this] show ?live by simp
next
  assume ?live
  then obtain s where "require_fence mid sha f (run_session mid sha clock calls) =
      Inr ((s, a), run_session mid sha clock calls)"
    using live_fence_accepted [OF run_sound run_deferred] by blast
  then show ?accepted by blast
qed

text \<open>C19: an owner never holds two fences at once: whatever fences it presents, those accepted name the
  same attempt, under the same authority and at the same revision.\<close>

theorem run_fences_agree:
  assumes "require_fence mid sha f (run_session mid sha clock calls) = Inr ((s, a), s1)"
    "require_fence mid sha g (run_session mid sha clock calls) = Inr ((t, b), s2)"
    "fence_owner f = fence_owner g"
  shows "a = b \<and> fence_authority sha f = fence_authority sha g \<and> fence_revision f = fence_revision g"
  by (rule accepted_fences_agree [OF run_sound run_deferred assms])

theorem run_fences_agree_witness:
  "\<exists>s a s1 t b s2. fence_token (example_fence 1) \<noteq> fence_token other_fence \<and>
     require_fence example_mid flat_sha (example_fence 1)
       (run_session example_mid flat_sha example_clock started_calls) = Inr ((s, a), s1) \<and>
     require_fence example_mid flat_sha other_fence
       (run_session example_mid flat_sha example_clock started_calls) = Inr ((t, b), s2) \<and> a = b"
proof -
  let ?s = "run_session example_mid flat_sha example_clock started_calls"
  obtain p q where "require_fence example_mid flat_sha (example_fence 1) ?s = Inr p"
    "require_fence example_mid flat_sha other_fence ?s = Inr q"
    using not_isl [OF flat_fences(1)] not_isl [OF flat_fences(2)] by blast
  then obtain s a s1 t b s2 where
    accepted: "require_fence example_mid flat_sha (example_fence 1) ?s = Inr ((s, a), s1)"
      "require_fence example_mid flat_sha other_fence ?s = Inr ((t, b), s2)"
    by (metis prod.exhaust)
  have "fence_owner (example_fence 1) = fence_owner other_fence"
    "fence_token (example_fence 1) \<noteq> fence_token other_fence"
    by (simp_all add: other_fence_def example_fence_def)
  with run_fences_agree [OF accepted] accepted show ?thesis by blast
qed

text \<open>C20: once an attempt has ended its fence is dead: in every later world every call that presents it
  leaves the world as it was.\<close>

theorem run_ended_fence_dead:
  assumes "b \<in> set (attempts (run_db mid sha clock calls))" "terminal_attempt (att_phase b)"
    "presented_fence c = Some f" "fence_execution f = att_execution b" "fence_ordinal f = att_ordinal b"
  shows "run mid sha clock (calls @ later @ [c]) = run mid sha clock (calls @ later)"
  by (rule ended_fence_forever [OF assms])

theorem run_ended_fence_dead_witness:
  "run example_mid example_sha example_clock
     (completed_calls @ [AdvanceGeneration ''al'' 1] @ [FailUnknown (example_fence 5) 2]) =
   run example_mid example_sha example_clock (completed_calls @ [AdvanceGeneration ''al'' 1])"
proof -
  let ?b = "hd (attempts (db completed_session))"
  have "?b \<in> set (attempts (example_db completed_calls))" "terminal_attempt (att_phase ?b)"
    "presented_fence (FailUnknown (example_fence 5) 2) = Some (example_fence 5)"
    "fence_execution (example_fence 5) = att_execution ?b" "fence_ordinal (example_fence 5) = att_ordinal ?b"
    by (simp_all add: completed_run completed_session_def example_fence_def)
  from run_ended_fence_dead [OF this] show ?thesis .
qed

text \<open>C21: a start that is repeated, by a caller that lost the answer, returns what the first one
  returned, the same fence and the same snapshot, and writes nothing.\<close>

theorem start_idempotent:
  assumes "start mid sha clock req s0 = Inr (Applied r, s1)"
  shows "start mid sha clock req s1 = Inr (AlreadyApplied r, s1)"
  by (rule start_repeated [OF assms])

theorem start_idempotent_witness:
  "\<exists>r. start example_mid example_sha example_clock example_start started_session =
    Inr (AlreadyApplied r, started_session)"
  by (rule start_example) (blast dest: start_idempotent)

text \<open>C22: every fence is used once: after an advance the fence it was given is refused and the fence it
  returned is accepted.\<close>

theorem run_advance_fence:
  assumes "advance mid sha clock f phase n finished dead progress reason (run_session mid sha clock calls) =
    Inr (Applied r, s1)"
  shows "(\<exists>p. require_fence mid sha (result_fence r) s1 = Inr (p, s1)) \<and> (\<exists>e. require_fence mid sha f s1 = Inl e)"
  using advance_fence [OF assms run_sound] by blast

theorem run_advance_fence_witness:
  "\<exists>f s1 p. require_fence example_mid example_sha f s1 = Inr (p, s1) \<and>
     (\<exists>e. require_fence example_mid example_sha (example_fence 1) s1 = Inl e)"
proof -
  obtain r s1 where "advance example_mid example_sha example_clock (example_fence 1) (LivePhase PromptStarting) 1
      True True False None started_session = Inr (Applied r, s1)" by (rule advance_example)
  then have "advance example_mid example_sha example_clock (example_fence 1) (LivePhase PromptStarting) 1
      True True False None (run_session example_mid example_sha example_clock started_calls) = Inr (Applied r, s1)"
    by (simp add: started_run)
  from run_advance_fence [OF this] show ?thesis by blast
qed

text \<open>C23: an advance changes exactly the row of the attempt its fence names: the observed state, the next
  revision and a time not before the last one, and nothing else in any table.\<close>

theorem advance_changes_attempt:
  assumes "advance mid sha clock f phase n finished dead progress reason s0 = Inr (r, s1)"
  shows "\<exists>a st t. a \<in> set (attempts (db s0)) \<and> fence_authority sha f = Inr (attempt_authority_of a) \<and>
    observed (att_lifecycle a) phase finished dead progress = Inr st \<and> att_updated a \<le> t \<and>
    db s1 = (db s0)\<lparr>attempts := map (advanced a st t progress reason) (attempts (db s0))\<rparr>"
  by (rule advance_effect [OF assms]) blast

theorem advance_changes_attempt_witness:
  "\<exists>r s1 a st t. advance example_mid example_sha example_clock (example_fence 1) (LivePhase PromptStarting) 1 True True
       False None started_session = Inr (r, s1) \<and> a \<in> set (attempts (db started_session)) \<and>
     observed (att_lifecycle a) (LivePhase PromptStarting) True True False = Inr st \<and> att_updated a \<le> t \<and>
     db s1 = (db started_session)\<lparr>attempts := map (advanced a st t False None) (attempts (db started_session))\<rparr>"
proof -
  obtain r s1 where run: "advance example_mid example_sha example_clock (example_fence 1) (LivePhase PromptStarting) 1
      True True False None started_session = Inr (Applied r, s1)" by (rule advance_example)
  with advance_changes_attempt [OF run] show ?thesis by blast
qed

text \<open>C24: a settlement ends the attempt of its fence with the given outcome, moves the execution to the
  state that outcome allows, and releases the owner, whose pointer names no execution afterwards.\<close>

theorem settlement_releases_owner:
  assumes "settle_nonpublication mid sha clock f n outcome reason failure s0 = Inr (r, s1)"
  shows "\<exists>after b. r = Applied after \<and> get mid (db s1) (fence_execution f) = Inr after \<and>
    snap_attempt after = Some b \<and> att_ordinal b = fence_ordinal f \<and> att_lifecycle b = Ended outcome \<and>
    exec_lifecycle (snap_execution after) \<in> settled_states outcome (fence_ordinal f) \<and>
    released (fence_owner f) (db s1)"
  by (rule settle_nonpublication_effect [OF assms]) blast

theorem settlement_releases_owner_witness:
  "\<exists>r s1 after b s2. advance example_mid example_sha example_clock (example_fence 1) (LivePhase PromptStarting) 1 True
       True False None started_session = Inr (r, s1) \<and>
     settle_nonpublication example_mid example_sha example_clock (example_fence 2) 1 AttemptFailed (Some ''down'')
       (Some RetryableProviderFailure) s1 = Inr (Applied after, s2) \<and>
     snap_attempt after = Some b \<and> att_lifecycle b = Ended AttemptFailed \<and>
     exec_lifecycle (snap_execution after) \<in> settled_states AttemptFailed 1 \<and> released ''al'' (db s2)"
proof -
  obtain r s1 p s2 where advanced: "advance example_mid example_sha example_clock (example_fence 1)
      (LivePhase PromptStarting) 1 True True False None started_session = Inr (Applied r, s1)"
    and settled: "settle_nonpublication example_mid example_sha example_clock (example_fence 2) 1 AttemptFailed
      (Some ''down'') (Some RetryableProviderFailure) s1 = Inr (p, s2)" by (rule advance_example)
  have "fence_owner (example_fence 2) = ''al''" "fence_ordinal (example_fence 2) = 1"
    by (simp_all add: example_fence_def)
  with settlement_releases_owner [OF settled] advanced settled show ?thesis by metis
qed

text \<open>C25: an execution that owes a response is never completed without publishing it: settling its
  attempt as succeeded is refused, because the execution row is written before the obligations and
  the schema does not let an execution complete while one of them is open.\<close>

theorem run_silent_success_refused:
  assumes "ob \<in> set (obligations (run_db mid sha clock calls))" "obl_execution ob = fence_execution f"
  shows "\<exists>e. settle_nonpublication mid sha clock f n Succeeded reason failure (run_session mid sha clock calls) = Inl e"
proof (cases "settle_nonpublication mid sha clock f n Succeeded reason failure (run_session mid sha clock calls)")
  case (Inr p)
  obtain r s1 where "p = (r, s1)" by (cases p)
  with Inr settle_nonpublication_claimless [OF _ run_sound] assms show ?thesis
    by (fastforce simp: obligations_of_def filter_empty_conv)
qed simp

theorem run_silent_success_refused_witness:
  "\<exists>p e. require_fence example_mid example_sha (example_fence 4)
       (run_session example_mid example_sha example_clock settling_calls) = Inr p \<and>
     settle_nonpublication example_mid example_sha example_clock (example_fence 4) 1 Succeeded None None
       (run_session example_mid example_sha example_clock settling_calls) = Inl e"
proof -
  obtain ob where "ob \<in> set (obligations (example_db settling_calls))"
    "obl_execution ob = fence_execution (example_fence 4)"
    using settling_fence(2) by (auto simp: list_ex_iff example_fence_def)
  then have "\<exists>e. settle_nonpublication example_mid example_sha example_clock (example_fence 4) 1 Succeeded None None
       (run_session example_mid example_sha example_clock settling_calls) = Inl e"
    by (rule run_silent_success_refused)
  with not_isl [OF settling_fence(1)] show ?thesis by blast
qed

text \<open>C26: a live attempt holds its owner's generation: the next generation is refused until it ends.\<close>

theorem run_generation_blocked:
  assumes "a \<in> set (attempts (run_db mid sha clock calls))" "\<not> terminal_attempt (att_phase a)"
  shows "\<exists>e. advance_generation (att_owner a) n (run_session mid sha clock calls) = Inl e"
  using advance_generation_blocked [OF run_sound run_deferred assms] by metis

theorem run_generation_blocked_witness:
  "\<exists>e. advance_generation ''al'' 1 (run_session example_mid example_sha example_clock started_calls) = Inl e"
proof -
  let ?a = "hd (attempts (db started_session))"
  have "?a \<in> set (attempts (example_db started_calls))" "\<not> terminal_attempt (att_phase ?a)"
    by (simp_all add: started_run started_session_def)
  from run_generation_blocked [OF this] show ?thesis by (simp add: started_session_def)
qed

section \<open>Rows, states and encodings\<close>

text \<open>C27: every row of every run's database is one its record's constructor accepts: executions,
  attempts, claims, obligations, intents, links, pointers and replay assessments.\<close>

theorem run_rows_valid:
  "(\<forall>e \<in> set (executions (run_db mid sha clock calls)). execution_valid e = Inr ()) \<and>
   (\<forall>a \<in> set (attempts (run_db mid sha clock calls)). attempt_valid a = Inr ()) \<and>
   (\<forall>c \<in> set (wake_claims (run_db mid sha clock calls)). assignment_row_valid c = Inr ()) \<and>
   (\<forall>ob \<in> set (obligations (run_db mid sha clock calls)). obligation_valid ob = Inr ()) \<and>
   (\<forall>i \<in> set (publication_intents (run_db mid sha clock calls)). intent_valid mid i = Inr ()) \<and>
   (\<forall>l \<in> set (execution_claims (run_db mid sha clock calls)). link_valid l = Inr ()) \<and>
   (\<forall>p \<in> set (current_executions (run_db mid sha clock calls)). pointer_valid p = Inr ()) \<and>
   (\<forall>r \<in> set (replay_assessments (run_db mid sha clock calls)). replay_valid r = Inr ())"
proof -
  note sound = run_sound [of mid sha clock calls]
  note tables = sound_tables [OF sound]
  have references: "references_hold mid (run_db mid sha clock calls)" using sound by (simp add: coordinator_sound_def)
  show ?thesis
    using execution_row_valid [OF tables] attempt_row_valid [OF tables references]
      obligation_row_valid [OF tables references] replay_row_valid [OF tables references]
      link_row_valid [OF sound] pointer_row_valid [OF sound run_deferred] sound
    by (auto simp: coordinator_sound_def claims_valid_def intents_sound_def)
qed

theorem run_rows_valid_witness:
  "execution_valid (hd (executions (example_db published_calls))) = Inr () \<and>
   intent_valid example_mid example_intent = Inr ()"
proof -
  have "hd (executions (example_db published_calls)) \<in> set (executions (example_db published_calls))"
    "example_intent \<in> set (publication_intents (example_db published_calls))"
    by (simp_all add: published_run published_world_def published_session_def prepared_session_def)
  with run_rows_valid [of example_mid example_sha example_clock published_calls] show ?thesis by blast
qed

text \<open>C28: the bus numbers its rows in the order they were appended, without a number used twice.\<close>

theorem run_bus_ordered: "sorted_wrt (<) (map bus_seq (run_bus mid sha clock calls))"
  using run_exchange_sound [of mid sha clock calls] by (simp add: exchange_sound_def)

text \<open>Two replies never share a publication key: the key determines the execution and the target.\<close>

lemma publication_keys_distinct:
  assumes "canonical_publication_key x t = Inr key" "canonical_publication_key y u = Inr key"
  shows "x = y \<and> t = u"
proof (rule publication_key_inject)
  show "CHR '':'' \<notin> set x" "CHR '':'' \<notin> set y" "publication_key x t = publication_key y u"
    using assms by (auto simp: canonical_publication_key_def validate_execution_id_def publication_key_def Let_def)
qed

lemma publication_keys_distinct_example:
  "canonical_publication_key ''x1'' ''bob'' = Inr ''publication:v1:x1:bob'' \<and> ''x1'' = ''x1'' \<and> ''bob'' = ''bob''"
proof -
  have "canonical_publication_key ''x1'' ''bob'' = Inr ''publication:v1:x1:bob''" by code_simp
  with publication_keys_distinct [OF this this] show ?thesis by simp
qed

text \<open>C29: a wire row is read as a recipient decision exactly when the recipient is spelled as a lookup,
  the row has the entries the decision is written with, and the decision's marker is the only one in
  it; so a written decision is read back unchanged, or refused as malformed when its recipient is not
  a lookup.\<close>

theorem decision_wire_read_back:
  "(decision_from_wire row = Inr d \<longleftrightarrow>
     thread_lookup (decision_recipient d) \<and> map_of (decision_to_wire d) \<subseteq>\<^sub>m map_of row \<and>
     {k \<in> {''no_wake'', ''wake_mode''}. map_of row k \<noteq> None} = {decision_marker d}) \<and>
   decision_from_wire (decision_to_wire d) =
     (if thread_lookup (decision_recipient d) then Inr d
      else Inl (MalformedRecord ''Id128Text is spelled [0-9a-f]{32}''))"
  by (simp add: decision_from_wire_Inr decision_wire_roundtrip decode_lookup_def require_def rbind_def)

text \<open>A claim's state is determined by the columns it is stored in: loading the kind, mode, verdict,
  execution and target a valid state projects to gives that state back.\<close>

lemma claim_columns_read_back:
  assumes "assignment_valid st"
  shows "load_assignment (assignment_kind_of st) (assignment_mode st) (assignment_verdict st)
     (assignment_execution_id st) (assignment_exact_target st) = Inr st"
  by (rule load_assignment_roundtrip [OF assms])

lemma claim_columns_read_back_example:
  "load_assignment EngagedAssignment FullWake None (Some ''x1'') (Some ''bob'') = Inr (EngagedA example_bound)"
proof -
  have "assignment_valid (EngagedA example_bound)" by (simp add: example_bound_def engagement_valid_def)
  moreover have "assignment_kind_of (EngagedA example_bound) = EngagedAssignment"
    "assignment_mode (EngagedA example_bound) = FullWake" "assignment_verdict (EngagedA example_bound) = None"
    "assignment_execution_id (EngagedA example_bound) = Some ''x1''"
    "assignment_exact_target (EngagedA example_bound) = Some ''bob''"
    by code_simp+
  ultimately show ?thesis using claim_columns_read_back [of "EngagedA example_bound"] by simp
qed

text \<open>C30: observing an attempt never ends it and never takes back a finality fact or the lease; once the
  backend is done or the process dead, only the missing fact may still be observed, in the same phase
  and without progress.\<close>

theorem observation_monotone:
  assumes "observed st phase finished dead progress = Inr st'"
  shows "\<not> terminal_attempt (attempt_phase_of st') \<and> attempt_phase_of st' = phase \<and>
    lease_expires_at_ms st' = lease_expires_at_ms st \<and>
    (backend_done st' \<longleftrightarrow> backend_done st \<or> finished) \<and> (process_dead st' \<longleftrightarrow> process_dead st \<or> dead) \<and>
    (backend_done st \<or> process_dead st \<longrightarrow> attempt_phase_of st' = attempt_phase_of st \<and> \<not> progress \<and>
       (\<not> backend_done st \<and> finished \<or> \<not> process_dead st \<and> dead))"
  by (rule observed_Inr [OF assms]) auto

theorem observation_monotone_witness:
  "\<exists>st. observed (Live Settling 9 True False) (LivePhase Settling) False True False = Inr st \<and>
     backend_done st \<and> process_dead st \<and> lease_expires_at_ms st = lease_expires_at_ms (Live Settling 9 True False) \<and>
     \<not> terminal_attempt (attempt_phase_of st)"
proof -
  have seen: "observed (Live Settling 9 True False) (LivePhase Settling) False True False = Inr (Live Settling 9 True True)"
    by code_simp
  from seen observation_monotone [OF seen] show ?thesis by auto
qed

text \<open>The transition tables the triggers are generated from say what the state families declare, for
  executions, attempts, claims and obligations: an edge is in the table exactly when the state may
  become the other, and a row of the table is empty exactly for the terminal states.\<close>

lemma transition_tables_agree:
  "table_edge execution_edges k k' = may_become execution_successors (=) k k' \<and>
   table_edge attempt_edges p p' = may_become attempt_successors phase_is_sub p p' \<and>
   table_edge assignment_edges c c' = may_become assignment_successors (=) c c' \<and>
   table_edge response_edges o1 o2 = may_become response_successors (=) o1 o2 \<and>
   table_closed attempt_edges p = has_capability attempt_capabilities p Terminal \<and>
   table_closed execution_edges k = has_capability execution_capabilities k Terminal"
  by (simp only: executions.table_edge_iff attempts.table_edge_iff assignments.table_edge_iff
      responses.table_edge_iff attempts.table_closed_iff executions.table_closed_iff simp_thms)

text \<open>Replay facts are collected by union: after a fact was accumulated the row of the execution holds
  every fact it held before and the new ones, and with any new fact it is unsafe to replay.\<close>

lemma run_replay_facts_collected:
  assumes "accumulate x facts (run_session mid sha clock calls) = Inr (u, s1)"
    "r \<in> set (replay_assessments (run_db mid sha clock calls))" "rep_execution r = x"
  shows "\<exists>r' \<in> set (replay_assessments (db s1)). rep_execution r' = x \<and> rep_facts r' = or (rep_facts r) facts \<and>
    (facts \<noteq> 0 \<longrightarrow> \<not> rep_safe r' \<and> rep_effects r')"
  by (rule accumulate_facts [OF assms(1) sound_tables [OF run_sound] assms(2,3)])

lemma run_replay_facts_collected_example:
  "\<exists>r' \<in> set (replay_assessments (example_db (started_calls @ retried_calls))). rep_execution r' = ''x1'' \<and> rep_facts r' = 0"
proof -
  let ?s = "run_session example_mid example_sha example_clock (started_calls @ retried_calls)"
  have "accumulate ''x1'' 0 ?s = Inr ((), ?s)" by (simp add: accumulate_def op_simps)
  moreover have "hd (replay_assessments (db retried_session)) \<in>
      set (replay_assessments (example_db (started_calls @ retried_calls)))"
    "rep_execution (hd (replay_assessments (db retried_session))) = ''x1''"
    by (simp_all add: retried_run retried_session_def)
  ultimately show ?thesis
    using run_replay_facts_collected by (fastforce simp: retried_session_def)
qed

section \<open>Launches of goals\<close>

text \<open>C31: one generation of a goal is launched at most once: over every run of any number of processes,
  whatever fails in storage and whichever process loses its memory, no two launch permits name the
  same goal and generation.\<close>

theorem goal_launched_once:
  "distinct (map (\<lambda>r. (res_goal r, res_generation r)) (gw_permits (goal_run sha calls)))"
  using goal_run_permits [of sha calls] by (simp add: permits_sound_def)

text \<open>C32: an attempt is reserved or launched exactly while its goal's generation is reserved for it; every
  other attempt has ended, so a goal never has two attempts in flight.\<close>

theorem goal_attempt_in_flight:
  assumes "a \<in> set (ledger_attempts (gw_ledger (goal_run sha calls)))"
  shows "in_flight (ar_phase a) \<longleftrightarrow> held (gw_ledger (goal_run sha calls)) (ar_reservation a) a"
  by (rule in_flight_iff [OF goal_run_sound assms])

theorem goal_attempt_in_flight_witness:
  "held (gw_ledger (goal_run goal_sha launched_calls)) first_reservation
     (hd (ledger_attempts (gw_ledger (goal_run goal_sha launched_calls))))"
proof -
  let ?d = "gw_ledger (goal_run goal_sha launched_calls)"
  have "hd (ledger_attempts ?d) \<in> set (ledger_attempts ?d)" by (simp add: launched_ledger)
  from goal_attempt_in_flight [OF this] show ?thesis by (simp add: launched_ledger in_flight_def)
qed

text \<open>C33: the ledger keeps its history: later calls never count a generation down, never change an ended
  generation or an ended attempt, move attempts only along declared phases, and never remove a
  decision, a usage row or failure evidence.\<close>

theorem goal_history_kept:
  "ledger_later (gw_ledger (goal_run sha calls)) (gw_ledger (goal_run sha (calls @ later_calls)))"
  using lasting.goal_run_later goal_run_sound by blast

text \<open>C34: a process that was restarted holds no authority: it cannot claim a reservation made before, and
  without being handed a grant it cannot reserve; both refusals change nothing.\<close>

theorem goal_owner_lost:
  "serve sha fault (ClaimLaunch r) (gw_stores (goal_run sha (calls @ [Reopen i])) i)
      (gw_ledger (goal_run sha (calls @ [Reopen i]))) =
     (Inl (UnresolvedAttempt ''A reservation cannot be replayed after owner loss.''), fresh_instance,
      gw_ledger (goal_run sha calls)) \<and>
   (\<exists>e. serve sha fault (Reserve None r) (gw_stores (goal_run sha (calls @ [Reopen i])) i)
      (gw_ledger (goal_run sha (calls @ [Reopen i]))) = (Inl e, fresh_instance, gw_ledger (goal_run sha calls)))"
  using lost_owner_refused [of sha fault r "gw_ledger (goal_run sha calls)"] by (simp add: goal_run_append)

text \<open>C35: a work decision authorizes new work once: after a call that used it returned, every call of any
  process that presents it again for the goal is refused and changes nothing.\<close>

theorem goal_decision_used_once:
  assumes "authorizing request = Some (goal, decision)"
    "serve sha fault request (gw_stores (goal_run sha calls) i) (gw_ledger (goal_run sha calls)) = (Inr permit, st, d)"
    "authorizing request' = Some (goal, decision)"
    "w' = goal_run sha ((calls @ [Request i fault request]) @ later_calls)"
  shows "\<exists>e. serve sha fault' request' (gw_stores w' j) (gw_ledger w') = (Inl e, gw_stores w' j, gw_ledger w')"
proof (rule recorded_refused [OF assms(3)])
  have "gw_ledger (goal_run sha (calls @ [Request i fault request])) = d"
    using assms(2) by (simp add: goal_run_append)
  with authorized_recorded [OF assms(2,1)] lasting.goal_run_later [of sha "calls @ [Request i fault request]" later_calls]
    goal_run_sound [of sha "calls @ [Request i fault request]"]
  show "\<not> unused (gw_ledger w') goal decision" unfolding assms(4) using used_lasts by metis
qed

theorem goal_decision_used_once_witness:
  "\<exists>e. serve goal_sha NoFault (AuthorizeCurrentRetry second_grant ''g1'' (RetryDecision ''k''))
      (gw_stores (goal_run goal_sha (reauthorized_calls @ [])) 1) (gw_ledger (goal_run goal_sha (reauthorized_calls @ []))) =
    (Inl e, gw_stores (goal_run goal_sha (reauthorized_calls @ [])) 1, gw_ledger (goal_run goal_sha (reauthorized_calls @ [])))"
proof -
  let ?again = "AuthorizeCurrentRetry second_grant ''g1'' (RetryDecision ''k'')"
  obtain st d where served: "serve goal_sha NoFault retry_request (gw_stores (goal_run goal_sha blocked_calls) 0)
      (gw_ledger (goal_run goal_sha blocked_calls)) = (Inr NoLaunchPermit, st, d)"
    by (rule retry_served)
  have decided: "authorizing retry_request = Some (''g1'', RetryDecision ''k'')"
    "authorizing ?again = Some (''g1'', RetryDecision ''k'')"
    by (simp_all add: retry_request_def)
  show ?thesis unfolding reauthorized_calls_def
    by (rule goal_decision_used_once [OF decided(1) served decided(2) refl])
qed

text \<open>C36: a goal whose attempt failed can be launched again: with a decision that was not used before and a
  fresh attempt identity, the explicit retry, the reservation and the claim return, and the launch
  permit of the next generation is handed out.\<close>

theorem goal_retry_relaunches:
  assumes "g \<in> set (ledger_generations (gw_ledger (goal_run sha calls)))" "gg_lifecycle g = BlockedGeneration"
    "gg_attempt g = Some attempt" "unused (gw_ledger (goal_run sha calls)) (gg_goal g) decision"
    "length (sha grant) = 64" "length grant = 64" "list_all lower_hex grant"
    "\<forall>a \<in> set (ledger_attempts (gw_ledger (goal_run sha calls))). res_attempt (ar_reservation a) \<noteq> res_attempt r"
    "res_goal r = gg_goal g" "res_generation r = gg_number g + 1"
  shows "gw_permits (goal_run sha (calls @
      [Request i NoFault (AuthorizeRetry grant (gg_goal g) (gg_number g) attempt decision),
       Request j NoFault (Reserve (Some grant) r), Request j NoFault (ClaimLaunch r)])) =
    gw_permits (goal_run sha calls) @ [r]"
  unfolding goal_run_append
  by (rule relaunched [where sha = sha and grant = grant, OF assms(1-3) goal_run_sound assms(4-10)])

theorem goal_retry_relaunches_witness:
  "gw_permits (goal_run goal_sha (blocked_calls @
      [Request 1 NoFault (AuthorizeRetry second_grant ''g1'' 1 ''a1'' (RetryDecision ''k'')),
       Request 2 NoFault (Reserve (Some second_grant) second_reservation),
       Request 2 NoFault (ClaimLaunch second_reservation)])) =
    gw_permits (goal_run goal_sha blocked_calls) @ [second_reservation]"
proof -
  let ?w = "goal_run goal_sha blocked_calls"
  obtain g where g: "g \<in> set (ledger_generations (gw_ledger ?w))" "gg_goal g = ''g1''" "gg_number g = 1"
    "gg_lifecycle g = BlockedGeneration" "gg_attempt g = Some ''a1''"
    by (simp add: blocked_ledger)
  have "unused (gw_ledger ?w) (gg_goal g) (RetryDecision ''k'')"
    "\<forall>a \<in> set (ledger_attempts (gw_ledger ?w)). res_attempt (ar_reservation a) \<noteq> res_attempt second_reservation"
    by (simp_all add: blocked_ledger empty_ledger_def unused_def first_reservation_def second_reservation_def)
  from goal_retry_relaunches [where sha = goal_sha and grant = second_grant,
      OF g(1,4,5) this(1) second_grant_valid this(2), of 1 2]
  show ?thesis by (simp add: second_reservation_def g(2,3))
qed

section \<open>Acceptance of cohorts\<close>

text \<open>C37: an acceptance that was recorded is there for ever: whatever calls follow, accepting the same
  original again writes nothing and returns the same cohort, each of its claims the one that was
  accepted or what later steps made of it.\<close>

theorem cohort_acceptance_replayed:
  assumes "claim_record sha namespace v (cohort_run mid sha clock calls) = Inr a"
  shows "\<exists>a'. cohort_record sha clock namespace v (cohort_run mid sha clock (calls @ later_calls)) =
      Inr (AlreadyApplied a', cohort_run mid sha clock (calls @ later_calls)) \<and> same_cohort a a'"
  using claim_record_later [OF assms cohort_later_steps [OF cohort_run_later] cohort_run_sound] record_replayed
  by blast

theorem cohort_acceptance_replayed_witness:
  "\<exists>a'. cohort_record cohort_sha example_clock ''r'' observed_original
        (example_cohorts (accepted_calls @ [Coordinate (Accept (example_claim\<lparr>asg_recipient_lookup := ''bo'', asg_wire_seq := 1\<rparr>))])) =
      Inr (AlreadyApplied a', example_cohorts (accepted_calls @
        [Coordinate (Accept (example_claim\<lparr>asg_recipient_lookup := ''bo'', asg_wire_seq := 1\<rparr>))]))"
  using accepted_read cohort_acceptance_replayed [of cohort_sha "''r''" observed_original example_mid example_clock accepted_calls]
  by blast

text \<open>C38: reading the pending work of a recipient page by page ends and misses nothing: the loop returns the
  pending claims of sealed cohorts behind the position, all of them, each once and in the order of
  the bus, and a negative position is refused.\<close>

theorem pending_claims_paged:
  "pending_sealed_assignments (cohort_run mid sha clock calls) lookup after =
     (if after < 0 then Inl (ValueError ''acknowledgement-backed page bounds are invalid'')
      else Inr (pending_sealed (cohort_run mid sha clock calls) lookup after))"
proof (cases "after < 0")
  case True
  then show ?thesis
    by (simp add: pending_sealed_assignments_def pending_pages.simps sealed_cohort_assignments_def require_def)
next
  case False
  with pending_pages_complete [OF cohort_run_sound, of after mid sha clock calls lookup "[]"]
  show ?thesis by (simp add: pending_sealed_assignments_def)
qed

text \<open>C39: a sealed cohort is exact in every run: it has as many deliveries and claims as it declares, a
  delivery with a claim names a stored claim of its recipient for this original, and a recipient
  that only observes has none.\<close>

theorem sealed_cohort_exact:
  assumes "b \<in> set (co_batches (cohort_run mid sha clock calls))" "bt_sealed b"
  shows "int (length (deliveries_of (cohort_run mid sha clock calls) (bt_root b) (bt_seq b))) = bt_members b \<and>
    int (length (batch_members_of (cohort_run mid sha clock calls) (bt_root b) (bt_seq b))) = bt_claims b \<and>
    (\<forall>d \<in> set (deliveries_of (cohort_run mid sha clock calls) (bt_root b) (bt_seq b)).
       case cd_claim d of
         None \<Rightarrow> \<not> claimed (co_db (cohort_run mid sha clock calls)) (cd_recipient d) (bt_seq b)
       | Some claim \<Rightarrow> \<exists>c \<in> set (wake_claims (co_db (cohort_run mid sha clock calls))). asg_id c = claim \<and>
           asg_recipient_lookup c = cd_recipient d \<and> asg_recipient c = cd_thread d \<and> asg_wire_seq c = bt_seq b)"
  by (rule sealed_exact [OF cohort_run_sound assms])

theorem sealed_cohort_exact_witness:
  "length (deliveries_of (example_cohorts accepted_calls)
     (bt_root (hd (co_batches (example_cohorts accepted_calls)))) (bt_seq (hd (co_batches (example_cohorts accepted_calls))))) = 2"
proof -
  let ?b = "hd (co_batches (example_cohorts accepted_calls))"
  from accepted_batch have "?b \<in> set (co_batches (example_cohorts accepted_calls))" "bt_sealed ?b" "bt_members ?b = 2"
    by (cases "co_batches (example_cohorts accepted_calls)"; simp)+
  from sealed_cohort_exact [OF this(1,2)] this(3) show ?thesis by simp
qed

text \<open>C40: a scan of the originals addressed to a recipient leaves none of its page behind, whatever calls
  others make between the transaction that reads the page and the one that writes: when it returns,
  every original of the page that names the owner is sealed, and the frontier has passed the page
  and never moves back, not even when another scan has moved it further meanwhile.\<close>

theorem acceptance_scan_complete:
  assumes "accept_visible sha clock root captured namespace lookup owner originals
      (\<lambda>_. cohort_run mid sha clock (calls @ others)) (cohort_run mid sha clock calls) = Inr (u, s')"
    "scan_after (cohort_run mid sha clock calls) root lookup = Inr after"
    "page = received_after originals lookup after frontier_page"
  shows "(\<forall>v. v \<in> set page \<and> (lookup, owner) \<in> set (del_recipients v) \<longrightarrow>
       (\<exists>b \<in> set (co_batches s'). bt_root b = root \<and> bt_seq b = dv_seq v \<and> bt_sealed b)) \<and>
    (\<exists>reached n. scan_after (cohort_run mid sha clock (calls @ others)) root lookup = Inr reached \<and>
       scan_after s' root lookup = Inr n \<and> after \<le> reached \<and> reached \<le> n \<and>
       (page \<noteq> [] \<longrightarrow> dv_seq (last page) \<le> n))"
  by (rule visible_accepted [OF assms(1) cohort_run_sound cohort_run_later assms(2,3)])
     (auto simp: sealed_at_def)

theorem acceptance_scan_complete_witness:
  "\<exists>s' n. accept_visible cohort_sha example_clock ''r'' ''r'' ''r'' ''al'' ''Al'' [observed_original]
       (\<lambda>_. example_cohorts (registered_calls @ [other_scan])) (example_cohorts registered_calls) = Inr ((), s') \<and>
     (\<exists>b \<in> set (co_batches s'). bt_seq b = 1 \<and> bt_sealed b) \<and> scan_after s' ''r'' ''al'' = Inr n \<and> 2 \<le> n"
proof -
  obtain s' where s': "accept_visible cohort_sha example_clock ''r'' ''r'' ''r'' ''al'' ''Al'' [observed_original]
      (\<lambda>_. example_cohorts (registered_calls @ [other_scan])) (example_cohorts registered_calls) = Inr ((), s')"
    using scan_returned by blast
  have "observed_original \<in> set (received_after [observed_original] ''al'' 0 frontier_page)"
    "(''al'', ''Al'') \<in> set (del_recipients observed_original)" "dv_seq observed_original = 1"
    by (simp_all add: received_after_def frontier_page_def observed_original_def)
  with acceptance_scan_complete [OF s' scan_start refl] s' scan_overtaken show ?thesis by force
qed

end
